theory Spec2Isabelle
  imports Complex_Main "HOL-Library.Word" "HOL-Library.Signed_Division"
begin

unbundle bit_operations_syntax

section \<open>Waveforms\<close>

text \<open>
  The development follows \<^verbatim>\<open>scopehal/TestWaveformSource.cpp\<close>. A C++ \<^verbatim>\<open>float\<close> or
  \<^verbatim>\<open>double\<close> is modelled as a real number: every arithmetic operation is the exact one, so
  rounding, infinities and NaN are outside the model, and so is a floating-point division by
  zero, whose quotient HOL takes to be 0. A \<^verbatim>\<open>size_t\<close> is a natural number
  (below \<open>2 ^ 64\<close>), and the one place where the source subtracts two of them has the
  wrap-around written out. An \<^verbatim>\<open>int64_t\<close> is an integer; where the source computes one, a
  result outside \<open>- 2 ^ 63 \<dots> 2 ^ 63 - 1\<close>, which C++ leaves undefined, is an error.
\<close>

type_synonym float = real

text \<open>\<^verbatim>\<open>UniformAnalogWaveform\<close>: a label, the sample period and the samples.\<close>

record waveform =
  m_name :: string
  m_timescale :: int
  m_samples :: "float list"

text \<open>\<^verbatim>\<open>new UniformAnalogWaveform(name)\<close>: no samples yet.\<close>

definition new_waveform :: "string \<Rightarrow> waveform" where
  "new_waveform name = \<lparr>m_name = name, m_timescale = 0, m_samples = []\<rparr>"

text \<open>
  \<^verbatim>\<open>Resize(n)\<close> keeps the first \<open>n\<close> samples. What it appends when the buffer grows is not
  fixed by the source (every generator overwrites all of it); the model appends zeros.
\<close>

definition resize :: "nat \<Rightarrow> float list \<Rightarrow> float list" where
  "resize n xs = take n xs @ replicate (n - length xs) 0"

definition Resize :: "nat \<Rightarrow> waveform \<Rightarrow> waveform" where
  "Resize n w = w\<lparr>m_samples := resize n (m_samples w)\<rparr>"

section \<open>The unit step\<close>

text \<open>The loop of \<^verbatim>\<open>GenerateStep\<close> (lines 92 to 98), from index \<open>i\<close> on.\<close>

function GenerateStep_loop ::
  "float \<Rightarrow> float \<Rightarrow> nat \<Rightarrow> nat \<Rightarrow> nat \<Rightarrow> float list \<Rightarrow> float list" where
  "GenerateStep_loop vlo vhi mid depth i samples =
     (if i < depth
      then GenerateStep_loop vlo vhi mid depth (i + 1)
             (samples[i := (if i < mid then vlo else vhi)])
      else samples)"
  by pat_completeness auto
termination
  by (relation "measure (\<lambda>(vlo, vhi, mid, depth, i, samples). depth - i)") auto

declare GenerateStep_loop.simps [simp del]

definition GenerateStep :: "float \<Rightarrow> float \<Rightarrow> int \<Rightarrow> nat \<Rightarrow> waveform" where
  "GenerateStep vlo vhi sampleperiod depth =
     (let ret = new_waveform ''Step'';
          ret = ret\<lparr>m_timescale := sampleperiod\<rparr>;
          ret = Resize depth ret;
          mid = depth div 2
      in ret\<lparr>m_samples := GenerateStep_loop vlo vhi mid depth 0 (m_samples ret)\<rparr>)"

section \<open>The bit-pattern synthesizers\<close>

text \<open>
  Lines 204 to 218 of \<^verbatim>\<open>GeneratePRBS31\<close>, which lines 268 to 282 of \<^verbatim>\<open>Generate8b10b\<close>
  repeat word for word: the sample written at one index, from the level before the
  pattern advance (\<open>last'\<close>), the level after it (\<open>value'\<close>) and the accumulator before
  the decrement (\<open>last_phase\<close>).
\<close>

definition edge_sample :: "float \<Rightarrow> int \<Rightarrow> float \<Rightarrow> bool \<Rightarrow> bool \<Rightarrow> float" where
  "edge_sample scale sampleperiod last_phase last' value' =
     (if last' = value'
      then (if value' then scale else - scale)
      else (let last_voltage = (if last' then scale else - scale);
                cur_voltage = (if value' then scale else - scale);
                frac = 1 - (last_phase / real_of_int sampleperiod);
                delta = cur_voltage - last_voltage
            in last_voltage + delta * frac))"

subsection \<open>PRBS31\<close>

text \<open>Line 197: the bit that is shifted in.\<close>

definition prbs31_next :: "32 word \<Rightarrow> 32 word" where
  "prbs31_next prbs = (drop_bit 30 prbs XOR drop_bit 27 prbs) AND 1"

text \<open>Line 198: the register after the shift.\<close>

definition prbs31_shift :: "32 word \<Rightarrow> 32 word" where
  "prbs31_shift prbs = push_bit 1 prbs OR prbs31_next prbs"

text \<open>The local variables that the loop of \<^verbatim>\<open>GeneratePRBS31\<close> carries.\<close>

record prbs_state =
  prbs :: "32 word"
  phase_to_next_edge :: float
  value' :: bool

text \<open>
  Lines 184 to 187: the variables before the loop. The seed of the register is what the C
  library's \<^verbatim>\<open>rand()\<close> returns, a value of the process-wide generator and not of
  \<^verbatim>\<open>m_rng\<close>; it is the argument \<open>rand_value\<close>, and the conversion to \<^verbatim>\<open>uint32_t\<close> is
  \<open>word_of_int\<close>.
\<close>

definition prbs_init :: "int \<Rightarrow> float \<Rightarrow> prbs_state" where
  "prbs_init rand_value period =
     \<lparr>prbs = word_of_int rand_value, phase_to_next_edge = period, value' = False\<rparr>"

text \<open>Lines 190 to 202: the accumulator and the pattern advance of one iteration.\<close>

definition prbs31_advance :: "float \<Rightarrow> int \<Rightarrow> prbs_state \<Rightarrow> prbs_state" where
  "prbs31_advance period sampleperiod st =
     (let st = st\<lparr>phase_to_next_edge := phase_to_next_edge st - real_of_int sampleperiod\<rparr>
      in if phase_to_next_edge st < 0
         then (let next = prbs31_next (prbs st)
               in st\<lparr>prbs := prbs31_shift (prbs st),
                     value' := (next \<noteq> 0),
                     phase_to_next_edge := phase_to_next_edge st + period\<rparr>)
         else st)"

text \<open>Lines 188 to 219: the loop, from index \<open>i\<close> on.\<close>

function GeneratePRBS31_loop ::
  "float \<Rightarrow> float \<Rightarrow> int \<Rightarrow> nat \<Rightarrow> nat \<Rightarrow> prbs_state \<Rightarrow> float list \<Rightarrow> float list" where
  "GeneratePRBS31_loop scale period sampleperiod depth i st samples =
     (if i < depth
      then (let last_phase = phase_to_next_edge st;
                last' = value' st;
                st = prbs31_advance period sampleperiod st
            in GeneratePRBS31_loop scale period sampleperiod depth (i + 1) st
                 (samples[i := edge_sample scale sampleperiod last_phase last' (value' st)]))
      else samples)"
  by pat_completeness auto
termination
  by (relation "measure (\<lambda>(scale, period, sampleperiod, depth, i, st, samples). depth - i)")
     auto

declare GeneratePRBS31_loop.simps [simp del]

text \<open>Lines 179 to 219: the idealized waveform, before \<^verbatim>\<open>DegradeSerialData\<close>.\<close>

definition GeneratePRBS31_ideal ::
  "int \<Rightarrow> float \<Rightarrow> float \<Rightarrow> int \<Rightarrow> nat \<Rightarrow> waveform" where
  "GeneratePRBS31_ideal rand_value amplitude period sampleperiod depth =
     (let ret = new_waveform ''PRBS31'';
          ret = ret\<lparr>m_timescale := sampleperiod\<rparr>;
          ret = Resize depth ret;
          scale = amplitude / 2;
          st = prbs_init rand_value period
      in ret\<lparr>m_samples :=
           GeneratePRBS31_loop scale period sampleperiod depth 0 st (m_samples ret)\<rparr>)"

subsection \<open>The fixed 20-bit pattern\<close>

definition patternlen :: int where
  "patternlen = 20"

text \<open>Lines 241 to 245: K28.5 followed by D16.2.\<close>

definition pattern :: "bool list" where
  "pattern =
     [False, False, True, True, True, True, True, False, True, False,
      True, False, False, True, False, False, False, True, False, True]"

record pattern_state =
  nbit :: int
  phase_to_next_edge8 :: float
  value8 :: bool

text \<open>Lines 249 to 251: the variables before the loop.\<close>

definition pattern_init :: "float \<Rightarrow> pattern_state" where
  "pattern_init period = \<lparr>nbit = 0, phase_to_next_edge8 = period, value8 = False\<rparr>"

text \<open>Lines 261 to 263: the next bit of the pattern is taken and the index moves on.\<close>

definition pattern_next :: "pattern_state \<Rightarrow> pattern_state" where
  "pattern_next st =
     (let st = st\<lparr>value8 := pattern ! nat (nbit st), nbit := nbit st + 1\<rparr>
      in if nbit st \<ge> patternlen then st\<lparr>nbit := 0\<rparr> else st)"

text \<open>Lines 254 to 266: the accumulator and the pattern advance of one iteration.\<close>

definition pattern_advance :: "float \<Rightarrow> int \<Rightarrow> pattern_state \<Rightarrow> pattern_state" where
  "pattern_advance period sampleperiod st =
     (let st = st\<lparr>phase_to_next_edge8 := phase_to_next_edge8 st - real_of_int sampleperiod\<rparr>
      in if phase_to_next_edge8 st < 0
         then (let st = pattern_next st
               in st\<lparr>phase_to_next_edge8 := phase_to_next_edge8 st + period\<rparr>)
         else st)"

text \<open>Lines 252 to 283: the loop, from index \<open>i\<close> on.\<close>

function Generate8b10b_loop ::
  "float \<Rightarrow> float \<Rightarrow> int \<Rightarrow> nat \<Rightarrow> nat \<Rightarrow> pattern_state \<Rightarrow> float list \<Rightarrow> float list" where
  "Generate8b10b_loop scale period sampleperiod depth i st samples =
     (if i < depth
      then (let last_phase = phase_to_next_edge8 st;
                last' = value8 st;
                st = pattern_advance period sampleperiod st
            in Generate8b10b_loop scale period sampleperiod depth (i + 1) st
                 (samples[i := edge_sample scale sampleperiod last_phase last' (value8 st)]))
      else samples)"
  by pat_completeness auto
termination
  by (relation "measure (\<lambda>(scale, period, sampleperiod, depth, i, st, samples). depth - i)")
     auto

declare Generate8b10b_loop.simps [simp del]

text \<open>Lines 236 to 283: the idealized waveform, before \<^verbatim>\<open>DegradeSerialData\<close>.\<close>

definition Generate8b10b_ideal :: "float \<Rightarrow> float \<Rightarrow> int \<Rightarrow> nat \<Rightarrow> waveform" where
  "Generate8b10b_ideal amplitude period sampleperiod depth =
     (let ret = new_waveform ''8B10B'';
          ret = ret\<lparr>m_timescale := sampleperiod\<rparr>;
          ret = Resize depth ret;
          scale = amplitude / 2;
          st = pattern_init period
      in ret\<lparr>m_samples :=
           Generate8b10b_loop scale period sampleperiod depth 0 st (m_samples ret)\<rparr>)"

subsection \<open>The raw bit sequences\<close>

text \<open>
  The bits that the pattern advances produce, one after the other, whatever the sample
  index at which each advance happens: bit \<open>n\<close> is the level that the advance number
  \<open>n\<close> (from 0) assigns to \<^verbatim>\<open>value\<close>.
\<close>

definition prbs31_bits :: "32 word \<Rightarrow> nat \<Rightarrow> bool" where
  "prbs31_bits prbs0 n = (prbs31_next ((prbs31_shift ^^ n) prbs0) \<noteq> 0)"

definition pattern_bits :: "nat \<Rightarrow> bool" where
  "pattern_bits n = value8 ((pattern_next ^^ Suc n) (pattern_init 0))"

section \<open>The channel emulation\<close>

subsection \<open>Collaborators\<close>

text \<open>
  What \<^verbatim>\<open>DegradeSerialData\<close> calls and the sources do not contain is a parameter of the
  model, collected in one record: the standard normal variate behind
  \<^verbatim>\<open>std::normal_distribution\<close> (the distribution object has a state of its own, of type
  \<open>'d\<close>, beside the generator's, of type \<open>'g\<close>), the two transforms of the FFT library
  (plan length, the elements of the input buffer that the transform reads and the index of
  the output element), the S21 parameters that the constructor loads, and the
  \<^verbatim>\<open>_APPLE_SILICON\<close> macro.
\<close>

record ('g, 'd) collaborators =
  normal_init :: 'd
  normal_variate :: "'d \<Rightarrow> 'g \<Rightarrow> float \<times> 'd \<times> 'g"
  ffts_forward :: "nat \<Rightarrow> float list \<Rightarrow> nat \<Rightarrow> float"
  ffts_backward :: "nat \<Rightarrow> float list \<Rightarrow> nat \<Rightarrow> float"
  s21_size :: nat
  GetGroupDelay :: "nat \<Rightarrow> float"
  InterpolatePoint :: "float \<Rightarrow> float \<times> float"
  APPLE_SILICON :: bool

text \<open>
  Modelled from the spec: \<^verbatim>\<open>std::normal_distribution\<close> is the C++ library's, not the
  repository's. Section 3 has it as a zero-mean Gaussian generator parameterized per call by
  a standard deviation: one draw is a standard normal variate scaled by the standard
  deviation, plus the mean, which line 308 sets to 0.
\<close>

definition noise ::
  "('g, 'd) collaborators \<Rightarrow> float \<Rightarrow> 'd \<Rightarrow> 'g \<Rightarrow> float \<times> 'd \<times> 'g" where
  "noise L noise_amplitude d g =
     (case normal_variate L d g of (z, d', g') \<Rightarrow> (z * noise_amplitude + 0, d', g'))"

text \<open>
  Modelled from the spec: \<^verbatim>\<open>next_pow2\<close> is declared in a header that is not among the
  sources. Section 3: the padded length is the next power of two at or above the requested
  depth.
\<close>

function next_pow2_from :: "nat \<Rightarrow> nat \<Rightarrow> nat" where
  "next_pow2_from p n = (if p = 0 \<or> n \<le> p then p else next_pow2_from (2 * p) n)"
  by pat_completeness auto
termination
  by (relation "measure (\<lambda>(p, n). n - p)") auto

declare next_pow2_from.simps [simp del]

definition next_pow2 :: "nat \<Rightarrow> nat" where
  "next_pow2 n = next_pow2_from 1 n"

text \<open>
  Modelled from the spec: the shader \<^verbatim>\<open>RectangularWindow.spv\<close> is not among the sources.
  Section 4.2, step 2: copy \<open>depth\<close> samples and zero-fill the remainder of the padded
  buffer.
\<close>

definition RectangularWindow :: "nat \<Rightarrow> nat \<Rightarrow> float list \<Rightarrow> float list" where
  "RectangularWindow numActualSamples npoints din =
     map (\<lambda>i. if i < numActualSamples \<and> i < length din then din ! i else 0) [0..<npoints]"

text \<open>The constant of the header: femtoseconds per second.\<close>

definition FS_PER_SECOND :: float where
  "FS_PER_SECOND = 10 ^ 15"

text \<open>
  What C++ leaves undefined is an error of the model: an index beyond a buffer, a division
  of integers by zero, an integer result that the type cannot hold, and a transform through
  a plan that is \<^verbatim>\<open>NULL\<close>.
\<close>

datatype error = OutOfBounds | DivideByZero | Overflow | NullPlan

text \<open>
  The conversion of a floating-point value to \<^verbatim>\<open>int64_t\<close> drops the fraction; it is defined
  when what is left is an \<^verbatim>\<open>int64_t\<close>.
\<close>

definition trunc_zero :: "float \<Rightarrow> int" where
  "trunc_zero x = (if 0 \<le> x then \<lfloor>x\<rfloor> else \<lceil>x\<rceil>)"

definition to_int64 :: "float \<Rightarrow> error + int" where
  "to_int64 x =
     (if - (2 ^ 63) \<le> trunc_zero x \<and> trunc_zero x < 2 ^ 63 then Inr (trunc_zero x)
      else Inl Overflow)"

text \<open>
  The quotient of two \<^verbatim>\<open>int64_t\<close> drops its fraction; it is defined when the divisor is not
  zero and the quotient is an \<^verbatim>\<open>int64_t\<close>, which it is but for \<open>- 2 ^ 63\<close> over \<open>- 1\<close>.
\<close>

definition int64_div :: "int \<Rightarrow> int \<Rightarrow> error + int" where
  "int64_div a b =
     (if b = 0 then Inl DivideByZero
      else if a = - (2 ^ 63) \<and> b = - 1 then Inl Overflow
      else Inr (a sdiv b))"

text \<open>The C library's \<^verbatim>\<open>round\<close>: to the nearest integer, halves away from zero.\<close>

definition c_round :: "float \<Rightarrow> float" where
  "c_round x = (if 0 \<le> x then of_int \<lfloor>x + 1 / 2\<rfloor> else of_int \<lceil>x - 1 / 2\<rceil>)"

subsection \<open>The generator object\<close>

text \<open>
  The members of \<^verbatim>\<open>TestWaveformSource\<close> that \<^verbatim>\<open>DegradeSerialData\<close> reads or writes. A plan
  of the FFT library is known by the length it was made for; \<open>None\<close> is \<^verbatim>\<open>NULL\<close>.
\<close>

record 'g TestWaveformSource =
  m_rng :: 'g
  m_forwardPlan :: "nat option"
  m_reversePlan :: "nat option"
  m_cachedNumPoints :: nat
  m_cachedRawSize :: nat
  m_forwardInBuf :: "float list"
  m_forwardOutBuf :: "float list"
  m_reverseOutBuf :: "float list"

text \<open>Lines 43 to 60: the constructor, from the generator it is given.\<close>

definition TestWaveformSource :: "'g \<Rightarrow> 'g TestWaveformSource" where
  "TestWaveformSource rng =
     \<lparr>m_rng = rng, m_forwardPlan = None, m_reversePlan = None, m_cachedNumPoints = 0,
      m_cachedRawSize = 0, m_forwardInBuf = [], m_forwardOutBuf = [], m_reverseOutBuf = []\<rparr>"

text \<open>Lines 315 to 330: the plans and the buffers follow the padded length.\<close>

definition update_plan_cache :: "nat \<Rightarrow> nat \<Rightarrow> 'g TestWaveformSource \<Rightarrow> 'g TestWaveformSource" where
  "update_plan_cache npoints nouts e =
     (if m_cachedNumPoints e \<noteq> npoints
      then e\<lparr>m_forwardPlan := Some npoints,
             m_reversePlan := Some npoints,
             m_forwardInBuf := resize npoints (m_forwardInBuf e),
             m_forwardOutBuf := resize (2 * nouts) (m_forwardOutBuf e),
             m_reverseOutBuf := resize npoints (m_reverseOutBuf e),
             m_cachedNumPoints := npoints\<rparr>
      else e)"

subsection \<open>The loops of \<^verbatim>\<open>DegradeSerialData\<close>\<close>

text \<open>
  Lines 409 and 410: one draw is added to each of the first \<open>depth\<close> samples. An index
  beyond the buffer, which C++ leaves undefined, is the error \<open>OutOfBounds\<close>.
\<close>

function noise_loop ::
  "('g, 'd) collaborators \<Rightarrow> float \<Rightarrow> nat \<Rightarrow> nat \<Rightarrow> 'd \<Rightarrow> 'g \<Rightarrow> float list
     \<Rightarrow> error + (float list \<times> 'g)" where
  "noise_loop L noise_amplitude depth i d g samples =
     (if i < depth
      then (if i < length samples
            then (case noise L noise_amplitude d g of
                    (n, d', g') \<Rightarrow>
                      noise_loop L noise_amplitude depth (i + 1) d' g'
                        (samples[i := samples ! i + n]))
            else Inl OutOfBounds)
      else Inr (samples, g))"
  by pat_completeness auto
termination
  by (relation "measure (\<lambda>(L, noise_amplitude, depth, i, d, g, samples). depth - i)") auto

declare noise_loop.simps [simp del]

text \<open>
  Lines 346 to 350: the window shader writes the first \<open>npoints\<close> elements of
  \<^verbatim>\<open>m_forwardInBuf\<close>; what the buffer holds beyond them stays.
\<close>

definition window_dispatch ::
  "nat \<Rightarrow> nat \<Rightarrow> float list \<Rightarrow> 'g TestWaveformSource \<Rightarrow> error + 'g TestWaveformSource" where
  "window_dispatch numActualSamples npoints din e =
     (if length (m_forwardInBuf e) < npoints then Inl OutOfBounds
      else Inr (e\<lparr>m_forwardInBuf :=
                  RectangularWindow numActualSamples npoints din
                  @ drop npoints (m_forwardInBuf e)\<rparr>))"

text \<open>
  \<^verbatim>\<open>ffts_execute\<close> with a plan, an input buffer and an output buffer. A real transform of
  length \<open>n\<close> has \<open>n\<close> real numbers on one side and \<open>n div 2 + 1\<close> complex numbers, two
  elements each, on the other (lines 314 and 327 to 329 size the buffers so). The transform
  reads and writes the front of the buffers; what the output buffer holds beyond stays.
\<close>

definition ffts_execute_forward ::
  "('g, 'd) collaborators \<Rightarrow> nat option \<Rightarrow> float list \<Rightarrow> float list \<Rightarrow> error + float list" where
  "ffts_execute_forward L plan input output =
     (case plan of
        None \<Rightarrow> Inl NullPlan
      | Some n \<Rightarrow>
          if length input < n \<or> length output < 2 * (n div 2 + 1) then Inl OutOfBounds
          else Inr (map (ffts_forward L n (take n input)) [0..<2 * (n div 2 + 1)]
                    @ drop (2 * (n div 2 + 1)) output))"

definition ffts_execute_backward ::
  "('g, 'd) collaborators \<Rightarrow> nat option \<Rightarrow> float list \<Rightarrow> float list \<Rightarrow> error + float list" where
  "ffts_execute_backward L plan input output =
     (case plan of
        None \<Rightarrow> Inl NullPlan
      | Some n \<Rightarrow>
          if length input < 2 * (n div 2 + 1) \<or> length output < n then Inl OutOfBounds
          else Inr (map (ffts_backward L n (take (2 * (n div 2 + 1)) input)) [0..<n]
                    @ drop n output))"

text \<open>Lines 372 to 387: every bin is multiplied by the channel's response.\<close>

function channel_loop ::
  "('g, 'd) collaborators \<Rightarrow> float \<Rightarrow> nat \<Rightarrow> nat \<Rightarrow> float list \<Rightarrow> error + float list" where
  "channel_loop L bin_hz nouts i buf =
     (if i < nouts
      then (if i * 2 + 1 < length buf
            then (let freq = bin_hz * real i;
                      pt = InterpolatePoint L freq;
                      mag = fst pt;
                      ang = snd pt;
                      sinval = sin ang * mag;
                      cosval = cos ang * mag;
                      real_orig = buf ! (i * 2);
                      imag_orig = buf ! (i * 2 + 1);
                      buf = buf[i * 2 := real_orig * cosval - imag_orig * sinval];
                      buf = buf[i * 2 + 1 := real_orig * sinval + imag_orig * cosval]
                  in channel_loop L bin_hz nouts (i + 1) buf)
            else Inl OutOfBounds)
      else Inr buf)"
  by pat_completeness auto
termination
  by (relation "measure (\<lambda>(L, bin_hz, nouts, i, buf). nouts - i)") auto

declare channel_loop.simps [simp del]

text \<open>
  Lines 399 and 400: the output of the inverse transform, from \<open>istart\<close> on, is rescaled,
  copied to the front of the waveform and given its noise. The index \<open>i + istart\<close> is a
  \<^verbatim>\<open>size_t\<close> sum and wraps at \<open>2 ^ 64\<close>.
\<close>

function trim_loop ::
  "('g, 'd) collaborators \<Rightarrow> float \<Rightarrow> float \<Rightarrow> nat \<Rightarrow> nat \<Rightarrow> nat \<Rightarrow> 'd \<Rightarrow> 'g
     \<Rightarrow> float list \<Rightarrow> float list \<Rightarrow> error + (float list \<times> 'g)" where
  "trim_loop L noise_amplitude fftscale istart finalLen i d g reverseOutBuf samples =
     (if i < finalLen
      then (if i < length samples \<and> (i + istart) mod 2 ^ 64 < length reverseOutBuf
            then (case noise L noise_amplitude d g of
                    (n, d', g') \<Rightarrow>
                      trim_loop L noise_amplitude fftscale istart finalLen (i + 1) d' g'
                        reverseOutBuf
                        (samples[i := reverseOutBuf ! ((i + istart) mod 2 ^ 64) * fftscale + n]))
            else Inl OutOfBounds)
      else Inr (samples, g))"
  by pat_completeness auto
termination
  by (relation "measure (\<lambda>(L, noise_amplitude, fftscale, istart, finalLen, i, d, g,
        reverseOutBuf, samples). finalLen - i)") auto

declare trim_loop.simps [simp del]

subsection \<open>\<^verbatim>\<open>DegradeSerialData\<close>\<close>

text \<open>
  Lines 366 and 367: the group delay at the middle bin, in femtoseconds and then in samples.
\<close>

definition groupDelay_of :: "('g, 'd) collaborators \<Rightarrow> error + int" where
  "groupDelay_of L = to_int64 (GetGroupDelay L (s21_size L div 2) * FS_PER_SECOND)"

definition groupDelaySamples_of :: "('g, 'd) collaborators \<Rightarrow> int \<Rightarrow> error + int" where
  "groupDelaySamples_of L timescale =
     (case groupDelay_of L of
        Inl err \<Rightarrow> Inl err
      | Inr groupDelay \<Rightarrow> int64_div groupDelay timescale)"

text \<open>
  Lines 335 to 403: the full path. The conversion of the sample count to \<^verbatim>\<open>size_t\<close> at line
  393 and the subtraction at line 395 wrap at \<open>2 ^ 64\<close>.
\<close>

definition DegradeSerialData_lpf ::
  "('g, 'd) collaborators \<Rightarrow> 'g TestWaveformSource \<Rightarrow> waveform \<Rightarrow> int \<Rightarrow> nat \<Rightarrow> float
     \<Rightarrow> nat \<Rightarrow> nat \<Rightarrow> error + (waveform \<times> 'g TestWaveformSource)" where
  "DegradeSerialData_lpf L e cap sampleperiod depth noise_amplitude npoints nouts =
     (case window_dispatch depth npoints (m_samples cap) e of
        Inl err \<Rightarrow> Inl err
      | Inr e \<Rightarrow>
     (case ffts_execute_forward L (m_forwardPlan e) (m_forwardInBuf e) (m_forwardOutBuf e) of
        Inl err \<Rightarrow> Inl err
      | Inr out \<Rightarrow>
     (let e = e\<lparr>m_forwardOutBuf := out\<rparr>
      in case groupDelaySamples_of L (m_timescale cap) of
        Inl err \<Rightarrow> Inl err
      | Inr groupDelaySamples \<Rightarrow>
     (let sample_ghz = 1000000 / real_of_int sampleperiod;
          bin_hz = c_round ((0.5 * sample_ghz * 1000000000) / real nouts)
      in case channel_loop L bin_hz nouts 0 (m_forwardOutBuf e) of
        Inl err \<Rightarrow> Inl err
      | Inr out \<Rightarrow>
     (let e = e\<lparr>m_forwardOutBuf := out\<rparr>
      in case ffts_execute_backward L (m_reversePlan e) (m_forwardOutBuf e)
                (m_reverseOutBuf e) of
        Inl err \<Rightarrow> Inl err
      | Inr out \<Rightarrow>
     (let e = e\<lparr>m_reverseOutBuf := out\<rparr>;
          istart = nat (groupDelaySamples mod 2 ^ 64);
          iend = depth;
          finalLen = (iend + 2 ^ 64 - istart) mod 2 ^ 64;
          fftscale = 1 / real npoints
      in case trim_loop L noise_amplitude fftscale istart finalLen 0 (normal_init L)
                (m_rng e) (m_reverseOutBuf e) (m_samples cap) of
        Inl err \<Rightarrow> Inl err
      | Inr (samples, g) \<Rightarrow>
          Inr (Resize finalLen (cap\<lparr>m_samples := samples\<rparr>), e\<lparr>m_rng := g\<rparr>)))))))"

text \<open>Lines 408 to 411: the path that only adds noise.\<close>

definition DegradeSerialData_noise ::
  "('g, 'd) collaborators \<Rightarrow> 'g TestWaveformSource \<Rightarrow> waveform \<Rightarrow> nat \<Rightarrow> float
     \<Rightarrow> error + (waveform \<times> 'g TestWaveformSource)" where
  "DegradeSerialData_noise L e cap depth noise_amplitude =
     (case noise_loop L noise_amplitude depth 0 (normal_init L) (m_rng e) (m_samples cap) of
        Inl err \<Rightarrow> Inl err
      | Inr (samples, g) \<Rightarrow> Inr (cap\<lparr>m_samples := samples\<rparr>, e\<lparr>m_rng := g\<rparr>))"

text \<open>
  Lines 295 to 412. With \<^verbatim>\<open>_APPLE_SILICON\<close> defined, lines 312 to 407 are not compiled and
  only the noise is added.
\<close>

definition DegradeSerialData ::
  "('g, 'd) collaborators \<Rightarrow> 'g TestWaveformSource \<Rightarrow> waveform \<Rightarrow> int \<Rightarrow> nat \<Rightarrow> bool
     \<Rightarrow> float \<Rightarrow> error + (waveform \<times> 'g TestWaveformSource)" where
  "DegradeSerialData L e cap sampleperiod depth lpf noise_amplitude =
     (if \<not> APPLE_SILICON L
      then (let npoints = next_pow2 depth;
                nouts = npoints div 2 + 1;
                e = update_plan_cache npoints nouts e
            in if lpf
               then DegradeSerialData_lpf L e cap sampleperiod depth noise_amplitude npoints nouts
               else DegradeSerialData_noise L e cap depth noise_amplitude)
      else DegradeSerialData_noise L e cap depth noise_amplitude)"

subsection \<open>The two generators of serial data\<close>

text \<open>Lines 168 to 224; \<open>rand_value\<close> is what \<^verbatim>\<open>rand()\<close> returns at line 184.\<close>

definition GeneratePRBS31 ::
  "('g, 'd) collaborators \<Rightarrow> 'g TestWaveformSource \<Rightarrow> int \<Rightarrow> float \<Rightarrow> float \<Rightarrow> int \<Rightarrow> nat
     \<Rightarrow> bool \<Rightarrow> float \<Rightarrow> error + (waveform \<times> 'g TestWaveformSource)" where
  "GeneratePRBS31 L e rand_value amplitude period sampleperiod depth lpf noise_amplitude =
     DegradeSerialData L e (GeneratePRBS31_ideal rand_value amplitude period sampleperiod depth)
       sampleperiod depth lpf noise_amplitude"

text \<open>Lines 226 to 288.\<close>

definition Generate8b10b ::
  "('g, 'd) collaborators \<Rightarrow> 'g TestWaveformSource \<Rightarrow> float \<Rightarrow> float \<Rightarrow> int \<Rightarrow> nat
     \<Rightarrow> bool \<Rightarrow> float \<Rightarrow> error + (waveform \<times> 'g TestWaveformSource)" where
  "Generate8b10b L e amplitude period sampleperiod depth lpf noise_amplitude =
     DegradeSerialData L e (Generate8b10b_ideal amplitude period sampleperiod depth)
       sampleperiod depth lpf noise_amplitude"

section \<open>Notions for the properties\<close>

text \<open>
  The state of a synthesizer's loop after \<open>n\<close> iterations, and the number of pattern
  advances among them: iteration \<open>n\<close> advances the pattern when the decremented accumulator
  is negative.
\<close>

definition prbs31_run :: "float \<Rightarrow> int \<Rightarrow> prbs_state \<Rightarrow> nat \<Rightarrow> prbs_state" where
  "prbs31_run period sampleperiod st n = (prbs31_advance period sampleperiod ^^ n) st"

fun prbs31_advances :: "float \<Rightarrow> int \<Rightarrow> prbs_state \<Rightarrow> nat \<Rightarrow> nat" where
  "prbs31_advances period sampleperiod st 0 = 0"
| "prbs31_advances period sampleperiod st (Suc n) =
     prbs31_advances period sampleperiod st n
     + (if phase_to_next_edge (prbs31_run period sampleperiod st n) - real_of_int sampleperiod < 0
        then 1 else 0)"

definition pattern_run :: "float \<Rightarrow> int \<Rightarrow> pattern_state \<Rightarrow> nat \<Rightarrow> pattern_state" where
  "pattern_run period sampleperiod st n = (pattern_advance period sampleperiod ^^ n) st"

fun pattern_advances :: "float \<Rightarrow> int \<Rightarrow> pattern_state \<Rightarrow> nat \<Rightarrow> nat" where
  "pattern_advances period sampleperiod st 0 = 0"
| "pattern_advances period sampleperiod st (Suc n) =
     pattern_advances period sampleperiod st n
     + (if phase_to_next_edge8 (pattern_run period sampleperiod st n) - real_of_int sampleperiod < 0
        then 1 else 0)"

text \<open>The voltage of a logic level: \<^verbatim>\<open>value ? scale : -scale\<close>.\<close>

definition level_voltage :: "float \<Rightarrow> bool \<Rightarrow> float" where
  "level_voltage scale v = (if v then scale else - scale)"

text \<open>
  A sample \<open>s\<close> written from the levels \<open>u\<close> (before the advance) and \<open>v\<close> (after it) stays
  within the two voltages of the amplitude: it is one of them when the level did not change,
  and otherwise the combination of the two with a fraction between 0 and 1.
\<close>

definition within_levels :: "float \<Rightarrow> int \<Rightarrow> float \<Rightarrow> bool \<Rightarrow> bool \<Rightarrow> float \<Rightarrow> bool" where
  "within_levels amplitude sampleperiod last_phase u v s =
     (\<bar>s\<bar> \<le> \<bar>amplitude\<bar> / 2
      \<and> (0 \<le> amplitude \<longrightarrow> - amplitude / 2 \<le> s \<and> s \<le> amplitude / 2)
      \<and> (u = v \<longrightarrow> s = level_voltage (amplitude / 2) v)
      \<and> (u \<noteq> v \<longrightarrow>
           (let frac = 1 - last_phase / real_of_int sampleperiod
            in 0 \<le> frac \<and> frac \<le> 1
               \<and> s = (1 - frac) * level_voltage (amplitude / 2) u
                     + frac * level_voltage (amplitude / 2) v)))"

text \<open>
  The level that a synthesizer holds after \<open>n\<close> iterations, read off the raw bit sequence:
  the initial level before the first advance, and afterwards the bit of the last advance.
\<close>

definition prbs31_level :: "int \<Rightarrow> float \<Rightarrow> int \<Rightarrow> nat \<Rightarrow> bool" where
  "prbs31_level rand_value period sampleperiod n =
     (if prbs31_advances period sampleperiod (prbs_init rand_value period) n = 0 then False
      else prbs31_bits (word_of_int rand_value)
             (prbs31_advances period sampleperiod (prbs_init rand_value period) n - 1))"

definition pattern_level :: "float \<Rightarrow> int \<Rightarrow> nat \<Rightarrow> bool" where
  "pattern_level period sampleperiod n =
     (if pattern_advances period sampleperiod (pattern_init period) n = 0 then False
      else pattern_bits (pattern_advances period sampleperiod (pattern_init period) n - 1))"

text \<open>
  The plans and the buffers are ready for a padded length: both plans were made for it and
  the buffers have the sizes of lines 327 to 329. The plan cache of a generator object is
  in order when it is ready for the length it records; the constructor records 0, which is
  not the padded length of any depth above 0.
\<close>

definition plan_ready :: "nat \<Rightarrow> 'g TestWaveformSource \<Rightarrow> bool" where
  "plan_ready npoints e =
     (m_forwardPlan e = Some npoints \<and> m_reversePlan e = Some npoints
      \<and> length (m_forwardInBuf e) = npoints
      \<and> length (m_forwardOutBuf e) = 2 * (npoints div 2 + 1)
      \<and> length (m_reverseOutBuf e) = npoints)"

definition cache_ok :: "'g TestWaveformSource \<Rightarrow> bool" where
  "cache_ok e = (m_cachedNumPoints e \<noteq> 0 \<longrightarrow> plan_ready (m_cachedNumPoints e) e)"

text \<open>
  What the noise-only path is to compute, in the words of section 4.2: one draw of the noise
  source added to each sample, in the order of the samples. The result is the new samples
  and the generator after the last draw.
\<close>

fun add_draws ::
  "('g, 'd) collaborators \<Rightarrow> float \<Rightarrow> 'd \<Rightarrow> 'g \<Rightarrow> float list \<Rightarrow> float list \<times> 'g" where
  "add_draws L noise_amplitude d g [] = ([], g)"
| "add_draws L noise_amplitude d g (x # xs) =
     (case noise L noise_amplitude d g of
        (n, d', g') \<Rightarrow>
          (case add_draws L noise_amplitude d' g' xs of (ys, g'') \<Rightarrow> ((x + n) # ys, g'')))"

text \<open>
  What a caller can observe of a generation call: the error, or the waveform together with
  the state of the noise generator afterwards.
\<close>

definition outcome ::
  "error + (waveform \<times> 'g TestWaveformSource) \<Rightarrow> error + (waveform \<times> 'g)" where
  "outcome r = (case r of Inl err \<Rightarrow> Inl err | Inr (w, e) \<Rightarrow> Inr (w, m_rng e))"

text \<open>
  Collaborators for concrete runs: a generator that counts its draws and returns the count
  as the variate, transforms that return zeros, a channel of gain 1 and phase 0 whose group
  delay is 1.706 ns, and a host that has the transform backend.
\<close>

definition example_collaborators :: "(nat, unit) collaborators" where
  "example_collaborators =
     \<lparr>normal_init = (),
      normal_variate = (\<lambda>d g. (real g, d, Suc g)),
      ffts_forward = (\<lambda>n xs k. 0),
      ffts_backward = (\<lambda>n xs k. 0),
      s21_size = 2,
      GetGroupDelay = (\<lambda>i. 1706 / 10 ^ 12),
      InterpolatePoint = (\<lambda>f. (1, 0)),
      APPLE_SILICON = False\<rparr>"

text \<open>
  The register of 31 bits: the shift of line 198 without bit 31 of the \<^verbatim>\<open>uint32_t\<close>, which
  the next shift drops and no feedback bit reads.
\<close>

definition lfsr31 :: "32 word \<Rightarrow> 32 word" where
  "lfsr31 a = take_bit 31 (prbs31_shift a)"

text \<open>
  Linear maps on the register, as the list of the images of the unit vectors: the
  application of such a matrix to a register, and the matrix of a composition.
\<close>

fun mapply :: "32 word list \<Rightarrow> 32 word \<Rightarrow> 32 word" where
  "mapply [] s = 0"
| "mapply (c # cs) s = (if bit s 0 then c else 0) XOR mapply cs (drop_bit 1 s)"

definition mcomp :: "32 word list \<Rightarrow> 32 word list \<Rightarrow> 32 word list" where
  "mcomp A B = map (mapply A) B"

text \<open>The matrix of one shift of the register, and of \<open>2 ^ k\<close> shifts.\<close>

definition prbs31_matrix :: "32 word list" where
  "prbs31_matrix = map (\<lambda>i. lfsr31 (push_bit i 1)) [0..<31]"

fun prbs31_matrix_pow2 :: "nat \<Rightarrow> 32 word list" where
  "prbs31_matrix_pow2 0 = prbs31_matrix"
| "prbs31_matrix_pow2 (Suc k) = mcomp (prbs31_matrix_pow2 k) (prbs31_matrix_pow2 k)"

text \<open>The length of the sequence, \<open>2 ^ 31 - 1\<close>.\<close>

definition mersenne31 :: nat where
  "mersenne31 = 2147483647"

text \<open>
  For the primality of \<open>2 ^ 31 - 1\<close>: a number with no divisor but 1 and itself, and
  powers modulo \<open>n\<close> by repeated squaring.
\<close>

definition prime_like :: "nat \<Rightarrow> bool" where
  "prime_like p = (1 < p \<and> (\<forall>d. d dvd p \<longrightarrow> d = 1 \<or> d = p))"

definition sqmod :: "nat \<Rightarrow> nat \<Rightarrow> nat" where
  "sqmod x n = x * x mod n"

function powmod :: "nat \<Rightarrow> nat \<Rightarrow> nat \<Rightarrow> nat" where
  "powmod a e n =
     (if e = 0 then 1 mod n
      else (let h = powmod a (e div 2) n; s = h * h mod n
            in if even e then s else s * a mod n))"
  by pat_completeness auto
termination
  by (relation "measure (\<lambda>(a, e, n). e)") auto

declare powmod.simps [simp del]

section \<open>Properties of the unit step\<close>

lemma length_resize: "length (resize n xs) = n"
  by (simp add: resize_def)

lemma length_GenerateStep_loop:
  "length (GenerateStep_loop vlo vhi mid depth i samples) = length samples"
  by (induction vlo vhi mid depth i samples rule: GenerateStep_loop.induct)
     (subst GenerateStep_loop.simps, simp)

lemma nth_GenerateStep_loop:
  "depth \<le> length samples \<Longrightarrow> k < depth \<Longrightarrow>
   GenerateStep_loop vlo vhi mid depth i samples ! k =
     (if i \<le> k then (if k < mid then vlo else vhi) else samples ! k)"
proof (induction vlo vhi mid depth i samples rule: GenerateStep_loop.induct)
  case (1 vlo vhi mid depth i samples)
  show ?case
  proof (cases "i < depth")
    case True
    with "1.prems" have "i < length samples" by simp
    with True "1.IH" "1.prems" show ?thesis
      by (subst GenerateStep_loop.simps) (auto simp: nth_list_update)
  next
    case False
    with "1.prems" show ?thesis
      by (subst GenerateStep_loop.simps) simp
  qed
qed

text \<open>
  C8. \<^verbatim>\<open>GenerateStep(vlo, vhi, period, depth)\<close> returns exactly \<open>depth\<close> samples, the
  first \<open>depth div 2\<close> of them equal to \<open>vlo\<close> and all the others equal to \<open>vhi\<close>; and
  \<^verbatim>\<open>GenerateStep(0.0, 1.0, 1, 10)\<close> is \<open>[0,0,0,0,0,1,1,1,1,1]\<close>.
\<close>

theorem GenerateStep_samples:
  "length (m_samples (GenerateStep vlo vhi period depth)) = depth
   \<and> take (depth div 2) (m_samples (GenerateStep vlo vhi period depth))
       = replicate (depth div 2) vlo
   \<and> drop (depth div 2) (m_samples (GenerateStep vlo vhi period depth))
       = replicate (depth - depth div 2) vhi
   \<and> m_samples (GenerateStep 0 1 1 10) = [0, 0, 0, 0, 0, 1, 1, 1, 1, 1]"
proof -
  have len: "length (m_samples (GenerateStep vlo vhi p d)) = d" for vlo vhi p d
    by (simp add: GenerateStep_def Let_def Resize_def new_waveform_def
        length_GenerateStep_loop length_resize)
  have nth: "m_samples (GenerateStep vlo vhi p d) ! k = (if k < d div 2 then vlo else vhi)"
    if "k < d" for vlo vhi p d k
    using that
    by (simp add: GenerateStep_def Let_def Resize_def new_waveform_def
        nth_GenerateStep_loop length_resize)
  have lo: "take (d div 2) (m_samples (GenerateStep vlo vhi p d)) = replicate (d div 2) vlo"
    for vlo vhi p d
    by (rule nth_equalityI) (auto simp: len nth)
  have hi: "drop (d div 2) (m_samples (GenerateStep vlo vhi p d))
       = replicate (d - d div 2) vhi" for vlo vhi p d
    by (rule nth_equalityI) (auto simp: len nth)
  have "m_samples (GenerateStep 0 1 1 10)
      = take (10 div 2) (m_samples (GenerateStep 0 1 1 10))
        @ drop (10 div 2) (m_samples (GenerateStep 0 1 1 10))"
    by simp
  also have "\<dots> = replicate (10 div 2) 0 @ replicate (10 - 10 div 2) 1"
    by (simp only: lo hi)
  also have "\<dots> = replicate 5 0 @ replicate 5 1"
    by simp
  also have "\<dots> = [0, 0, 0, 0, 0, 1, 1, 1, 1, 1]"
    by (simp add: numeral_eq_Suc)
  finally have ex: "m_samples (GenerateStep 0 1 1 10) = [0, 0, 0, 0, 0, 1, 1, 1, 1, 1]" .
  from len lo hi ex show ?thesis by blast
qed

section \<open>Properties of the synthesizers\<close>

subsection \<open>The samples that the loops write\<close>

lemma length_GeneratePRBS31_loop:
  "length (GeneratePRBS31_loop scale period sp depth i st samples) = length samples"
  by (induction scale period sp depth i st samples rule: GeneratePRBS31_loop.induct)
     (subst GeneratePRBS31_loop.simps, simp add: Let_def)

lemma nth_GeneratePRBS31_loop:
  "depth \<le> length samples \<Longrightarrow> k < depth \<Longrightarrow>
   GeneratePRBS31_loop scale period sp depth i st samples ! k =
     (if i \<le> k
      then edge_sample scale sp
             (phase_to_next_edge ((prbs31_advance period sp ^^ (k - i)) st))
             (value' ((prbs31_advance period sp ^^ (k - i)) st))
             (value' ((prbs31_advance period sp ^^ Suc (k - i)) st))
      else samples ! k)"
proof (induction scale period sp depth i st samples rule: GeneratePRBS31_loop.induct)
  case (1 scale period sp depth i st samples)
  show ?case
  proof (cases "i < depth")
    case True
    note IH = "1.IH" [OF True refl refl refl]
    show ?thesis
    proof (cases "i = k")
      case True
      with \<open>i < depth\<close> "1.prems" IH show ?thesis
        by (subst GeneratePRBS31_loop.simps) (simp add: Let_def)
    next
      case False
      show ?thesis
      proof (cases "i < k")
        case True
        then have "k - i = Suc (k - (i + 1))" by simp
        with True \<open>i < depth\<close> "1.prems" IH show ?thesis
          by (subst GeneratePRBS31_loop.simps) (simp add: Let_def funpow_swap1)
      next
        case False
        with \<open>i \<noteq> k\<close> \<open>i < depth\<close> "1.prems" IH show ?thesis
          by (subst GeneratePRBS31_loop.simps) (simp add: Let_def)
      qed
    qed
  next
    case False
    with "1.prems" show ?thesis
      by (subst GeneratePRBS31_loop.simps) simp
  qed
qed

lemma length_Generate8b10b_loop:
  "length (Generate8b10b_loop scale period sp depth i st samples) = length samples"
  by (induction scale period sp depth i st samples rule: Generate8b10b_loop.induct)
     (subst Generate8b10b_loop.simps, simp add: Let_def)

lemma nth_Generate8b10b_loop:
  "depth \<le> length samples \<Longrightarrow> k < depth \<Longrightarrow>
   Generate8b10b_loop scale period sp depth i st samples ! k =
     (if i \<le> k
      then edge_sample scale sp
             (phase_to_next_edge8 ((pattern_advance period sp ^^ (k - i)) st))
             (value8 ((pattern_advance period sp ^^ (k - i)) st))
             (value8 ((pattern_advance period sp ^^ Suc (k - i)) st))
      else samples ! k)"
proof (induction scale period sp depth i st samples rule: Generate8b10b_loop.induct)
  case (1 scale period sp depth i st samples)
  show ?case
  proof (cases "i < depth")
    case True
    note IH = "1.IH" [OF True refl refl refl]
    show ?thesis
    proof (cases "i = k")
      case True
      with \<open>i < depth\<close> "1.prems" IH show ?thesis
        by (subst Generate8b10b_loop.simps) (simp add: Let_def)
    next
      case False
      show ?thesis
      proof (cases "i < k")
        case True
        then have "k - i = Suc (k - (i + 1))" by simp
        with True \<open>i < depth\<close> "1.prems" IH show ?thesis
          by (subst Generate8b10b_loop.simps) (simp add: Let_def funpow_swap1)
      next
        case False
        with \<open>i \<noteq> k\<close> \<open>i < depth\<close> "1.prems" IH show ?thesis
          by (subst Generate8b10b_loop.simps) (simp add: Let_def)
      qed
    qed
  next
    case False
    with "1.prems" show ?thesis
      by (subst Generate8b10b_loop.simps) simp
  qed
qed

lemma length_GeneratePRBS31_ideal:
  "length (m_samples (GeneratePRBS31_ideal r amplitude period sp depth)) = depth"
  by (simp add: GeneratePRBS31_ideal_def Let_def Resize_def new_waveform_def
      length_GeneratePRBS31_loop length_resize)

lemma length_Generate8b10b_ideal:
  "length (m_samples (Generate8b10b_ideal amplitude period sp depth)) = depth"
  by (simp add: Generate8b10b_ideal_def Let_def Resize_def new_waveform_def
      length_Generate8b10b_loop length_resize)

lemma nth_GeneratePRBS31_ideal:
  "k < depth \<Longrightarrow>
   m_samples (GeneratePRBS31_ideal r amplitude period sp depth) ! k =
     edge_sample (amplitude / 2) sp
       (phase_to_next_edge (prbs31_run period sp (prbs_init r period) k))
       (value' (prbs31_run period sp (prbs_init r period) k))
       (value' (prbs31_run period sp (prbs_init r period) (Suc k)))"
  by (simp add: GeneratePRBS31_ideal_def Let_def Resize_def new_waveform_def
      nth_GeneratePRBS31_loop length_resize prbs31_run_def)

lemma nth_Generate8b10b_ideal:
  "k < depth \<Longrightarrow>
   m_samples (Generate8b10b_ideal amplitude period sp depth) ! k =
     edge_sample (amplitude / 2) sp
       (phase_to_next_edge8 (pattern_run period sp (pattern_init period) k))
       (value8 (pattern_run period sp (pattern_init period) k))
       (value8 (pattern_run period sp (pattern_init period) (Suc k)))"
  by (simp add: Generate8b10b_ideal_def Let_def Resize_def new_waveform_def
      nth_Generate8b10b_loop length_resize pattern_run_def)

lemma prbs31_run_Suc:
  "prbs31_run period sp st (Suc n) = prbs31_advance period sp (prbs31_run period sp st n)"
  by (simp add: prbs31_run_def)

lemma pattern_run_Suc:
  "pattern_run period sp st (Suc n) = pattern_advance period sp (pattern_run period sp st n)"
  by (simp add: pattern_run_def)

lemma prbs31_run_0: "prbs31_run period sp st 0 = st"
  by (simp add: prbs31_run_def)

lemma pattern_run_0: "pattern_run period sp st 0 = st"
  by (simp add: pattern_run_def)

lemma phase_prbs31_advance:
  "phase_to_next_edge (prbs31_advance period sp st) =
     (if phase_to_next_edge st - real_of_int sp < 0
      then (phase_to_next_edge st - real_of_int sp) + period
      else phase_to_next_edge st - real_of_int sp)"
  by (simp add: prbs31_advance_def Let_def)

lemma phase_pattern_advance:
  "phase_to_next_edge8 (pattern_advance period sp st) =
     (if phase_to_next_edge8 st - real_of_int sp < 0
      then (phase_to_next_edge8 st - real_of_int sp) + period
      else phase_to_next_edge8 st - real_of_int sp)"
  by (simp add: pattern_advance_def pattern_next_def Let_def)

lemma phase_prbs31_run:
  "phase_to_next_edge (prbs31_run period sp st n) =
     phase_to_next_edge st + real (prbs31_advances period sp st n) * period
       - real n * real_of_int sp"
  by (induction n) (simp_all add: prbs31_run_0 prbs31_run_Suc phase_prbs31_advance algebra_simps)

lemma phase_pattern_run:
  "phase_to_next_edge8 (pattern_run period sp st n) =
     phase_to_next_edge8 st + real (pattern_advances period sp st n) * period
       - real n * real_of_int sp"
  by (induction n) (simp_all add: pattern_run_0 pattern_run_Suc phase_pattern_advance algebra_simps)

lemma prbs_prbs31_advance:
  "prbs (prbs31_advance period sp st) =
     (if phase_to_next_edge st - real_of_int sp < 0 then prbs31_shift (prbs st) else prbs st)"
  "value' (prbs31_advance period sp st) =
     (if phase_to_next_edge st - real_of_int sp < 0 then prbs31_next (prbs st) \<noteq> 0 else value' st)"
  by (simp_all add: prbs31_advance_def Let_def)

lemma prbs_prbs31_run:
  "prbs (prbs31_run period sp st n) = (prbs31_shift ^^ prbs31_advances period sp st n) (prbs st)"
  by (induction n) (simp_all add: prbs31_run_0 prbs31_run_Suc prbs_prbs31_advance)

lemma value_prbs31_run:
  "value' (prbs31_run period sp st n) =
     (if prbs31_advances period sp st n = 0 then value' st
      else prbs31_bits (prbs st) (prbs31_advances period sp st n - 1))"
  by (induction n)
     (simp_all add: prbs31_run_0 prbs31_run_Suc prbs_prbs31_advance prbs_prbs31_run prbs31_bits_def)

subsection \<open>The fixed pattern\<close>

lemma nbit_pattern_next_iter:
  "nbit ((pattern_next ^^ n) (pattern_init p)) = int (n mod 20)"
proof (induction n)
  case 0
  show ?case by (simp add: pattern_init_def)
next
  case (Suc n)
  have "n mod 20 < 20" by simp
  with Suc show ?case
    by (simp add: pattern_next_def [of "(pattern_next ^^ n) (pattern_init p)"] Let_def
        patternlen_def mod_Suc) arith
qed

lemma pattern_bits_nth: "pattern_bits n = pattern ! (n mod 20)"
  by (simp add: pattern_bits_def pattern_next_def [of "(pattern_next ^^ n) (pattern_init 0)"]
      Let_def nbit_pattern_next_iter)

lemma pattern_no_shorter_period:
  "\<forall>d\<in>{1..<20}. \<exists>n\<in>{0..<20}. pattern ! ((n + d) mod 20) \<noteq> pattern ! n"
  by code_simp

lemma nbit_pattern_run:
  "nbit (pattern_run period sp (pattern_init p) n)
     = int (pattern_advances period sp (pattern_init p) n mod 20)"
proof (induction n)
  case 0
  show ?case by (simp add: pattern_run_0 pattern_init_def)
next
  case (Suc n)
  have "pattern_advances period sp (pattern_init p) n mod 20 < 20" by simp
  with Suc show ?case
    by (simp add: pattern_run_Suc pattern_advance_def pattern_next_def Let_def patternlen_def
        mod_Suc) arith
qed

lemma value8_pattern_run:
  "value8 (pattern_run period sp (pattern_init p) n) =
     (if pattern_advances period sp (pattern_init p) n = 0 then False
      else pattern_bits (pattern_advances period sp (pattern_init p) n - 1))"
proof (induction n)
  case 0
  show ?case by (simp add: pattern_run_0 pattern_init_def)
next
  case (Suc n)
  show ?case
  proof (cases "phase_to_next_edge8 (pattern_run period sp (pattern_init p) n) - real_of_int sp < 0")
    case True
    then show ?thesis
      using nbit_pattern_run [of period sp p n]
      by (simp add: pattern_run_Suc pattern_advance_def pattern_next_def Let_def pattern_bits_nth)
  next
    case False
    with Suc show ?thesis
      by (simp add: pattern_run_Suc pattern_advance_def Let_def)
  qed
qed

subsection \<open>The phase accumulator\<close>

text \<open>
  C6. In both synthesizers, an iteration whose decremented accumulator is negative adds the
  symbol period onto that negative value, and no iteration sets the accumulator back to the
  symbol period: after \<open>n\<close> samples with \<open>m\<close> pattern advances the accumulator is the
  initial value plus \<open>m\<close> symbol periods minus \<open>n\<close> sample periods. With symbol period 5/2
  and sample period 1, the first advance leaves 2 and not 5/2.
\<close>

theorem phase_accumulator_reset:
  "phase_to_next_edge (prbs31_advance period sampleperiod st) =
     (if phase_to_next_edge st - real_of_int sampleperiod < 0
      then (phase_to_next_edge st - real_of_int sampleperiod) + period
      else phase_to_next_edge st - real_of_int sampleperiod)
   \<and> phase_to_next_edge8 (pattern_advance period sampleperiod st8) =
     (if phase_to_next_edge8 st8 - real_of_int sampleperiod < 0
      then (phase_to_next_edge8 st8 - real_of_int sampleperiod) + period
      else phase_to_next_edge8 st8 - real_of_int sampleperiod)
   \<and> phase_to_next_edge (prbs31_run period sampleperiod (prbs_init rand_value period) n) =
       period + real (prbs31_advances period sampleperiod (prbs_init rand_value period) n) * period
         - real n * real_of_int sampleperiod
   \<and> phase_to_next_edge8 (pattern_run period sampleperiod (pattern_init period) n) =
       period + real (pattern_advances period sampleperiod (pattern_init period) n) * period
         - real n * real_of_int sampleperiod
   \<and> phase_to_next_edge (prbs31_run (5 / 2) 1 (prbs_init rand_value (5 / 2)) 3) = 2
   \<and> phase_to_next_edge8 (pattern_run (5 / 2) 1 (pattern_init (5 / 2)) 3) = 2"
proof -
  have a: "phase_to_next_edge (prbs_init rand_value p) = p" for p
    by (simp add: prbs_init_def)
  have b: "phase_to_next_edge8 (pattern_init p) = p" for p
    by (simp add: pattern_init_def)
  have c: "phase_to_next_edge (prbs31_run (5 / 2) 1 (prbs_init rand_value (5 / 2)) 3) = 2"
    by (simp add: numeral_3_eq_3 prbs31_run_Suc prbs31_run_0 phase_prbs31_advance a)
  have d: "phase_to_next_edge8 (pattern_run (5 / 2) 1 (pattern_init (5 / 2)) 3) = 2"
    by (simp add: numeral_3_eq_3 pattern_run_Suc pattern_run_0 phase_pattern_advance b)
  show ?thesis
    using phase_prbs31_advance [of period sampleperiod st]
      phase_pattern_advance [of period sampleperiod st8]
      phase_prbs31_run [of period sampleperiod "prbs_init rand_value period" n]
      phase_pattern_run [of period sampleperiod "pattern_init period" n] c d
    by (simp only: a b)
qed

subsection \<open>Samples at a level change\<close>

lemma edge_sample_change:
  "u \<noteq> v \<Longrightarrow>
   edge_sample scale sp last_phase u v =
     level_voltage scale u
       + (level_voltage scale v - level_voltage scale u)
         * (1 - last_phase / real_of_int sp)"
  by (simp add: edge_sample_def level_voltage_def Let_def)

lemma edge_sample_same:
  "edge_sample scale sp last_phase v v = level_voltage scale v"
  by (simp add: edge_sample_def level_voltage_def)

lemma prbs31_advance_noedge:
  "0 \<le> ph - real_of_int sp \<Longrightarrow>
   prbs31_advance p sp \<lparr>prbs = w, phase_to_next_edge = ph, value' = v\<rparr>
     = \<lparr>prbs = w, phase_to_next_edge = ph - real_of_int sp, value' = v\<rparr>"
  by (simp add: prbs31_advance_def Let_def)

lemma prbs31_advance_edge:
  "ph - real_of_int sp < 0 \<Longrightarrow>
   prbs31_advance p sp \<lparr>prbs = w, phase_to_next_edge = ph, value' = v\<rparr>
     = \<lparr>prbs = prbs31_shift w, phase_to_next_edge = ph - real_of_int sp + p,
        value' = (prbs31_next w \<noteq> 0)\<rparr>"
  by (simp add: prbs31_advance_def Let_def)

lemma take_5_nth:
  "5 \<le> length xs \<Longrightarrow> take 5 xs = [xs ! 0, xs ! 1, xs ! 2, xs ! 3, xs ! 4]"
  by (rule nth_equalityI) (auto simp: less_Suc_eq numeral_eq_Suc nth_Cons')

text \<open>
  C7. A sample at which the logic level changes is the previous voltage plus the difference
  of the new and the previous voltage times \<open>1 - last_phase / sampleperiod\<close>, where
  \<open>last_phase\<close> is the accumulator before the decrement. With amplitude 2, symbol period 4,
  sample period 1 and a first pattern bit of 1 (the first transition is then at sample 4),
  samples 0 to 3 are \<open>-1\<close> and sample 4 is \<open>1\<close>.
\<close>

theorem edge_interpolation:
  "(k < depth \<and> value' (prbs31_run period sampleperiod (prbs_init rand_value period) k)
        \<noteq> value' (prbs31_run period sampleperiod (prbs_init rand_value period) (Suc k)) \<longrightarrow>
     m_samples (GeneratePRBS31_ideal rand_value amplitude period sampleperiod depth) ! k =
       level_voltage (amplitude / 2)
         (value' (prbs31_run period sampleperiod (prbs_init rand_value period) k))
       + (level_voltage (amplitude / 2)
            (value' (prbs31_run period sampleperiod (prbs_init rand_value period) (Suc k)))
          - level_voltage (amplitude / 2)
            (value' (prbs31_run period sampleperiod (prbs_init rand_value period) k)))
         * (1 - phase_to_next_edge (prbs31_run period sampleperiod (prbs_init rand_value period) k)
                / real_of_int sampleperiod))
   \<and> (k < depth \<and> value8 (pattern_run period sampleperiod (pattern_init period) k)
        \<noteq> value8 (pattern_run period sampleperiod (pattern_init period) (Suc k)) \<longrightarrow>
     m_samples (Generate8b10b_ideal amplitude period sampleperiod depth) ! k =
       level_voltage (amplitude / 2)
         (value8 (pattern_run period sampleperiod (pattern_init period) k))
       + (level_voltage (amplitude / 2)
            (value8 (pattern_run period sampleperiod (pattern_init period) (Suc k)))
          - level_voltage (amplitude / 2)
            (value8 (pattern_run period sampleperiod (pattern_init period) k)))
         * (1 - phase_to_next_edge8 (pattern_run period sampleperiod (pattern_init period) k)
                / real_of_int sampleperiod))
   \<and> (5 \<le> depth \<and> prbs31_next (word_of_int rand_value) \<noteq> 0 \<longrightarrow>
        take 5 (m_samples (GeneratePRBS31_ideal rand_value 2 4 1 depth)) = [-1, -1, -1, -1, 1])"
proof (intro conjI impI)
  assume "k < depth \<and> value' (prbs31_run period sampleperiod (prbs_init rand_value period) k)
        \<noteq> value' (prbs31_run period sampleperiod (prbs_init rand_value period) (Suc k))"
  then show "m_samples (GeneratePRBS31_ideal rand_value amplitude period sampleperiod depth) ! k =
       level_voltage (amplitude / 2)
         (value' (prbs31_run period sampleperiod (prbs_init rand_value period) k))
       + (level_voltage (amplitude / 2)
            (value' (prbs31_run period sampleperiod (prbs_init rand_value period) (Suc k)))
          - level_voltage (amplitude / 2)
            (value' (prbs31_run period sampleperiod (prbs_init rand_value period) k)))
         * (1 - phase_to_next_edge (prbs31_run period sampleperiod (prbs_init rand_value period) k)
                / real_of_int sampleperiod)"
    by (simp add: nth_GeneratePRBS31_ideal edge_sample_change)
next
  assume "k < depth \<and> value8 (pattern_run period sampleperiod (pattern_init period) k)
        \<noteq> value8 (pattern_run period sampleperiod (pattern_init period) (Suc k))"
  then show "m_samples (Generate8b10b_ideal amplitude period sampleperiod depth) ! k =
       level_voltage (amplitude / 2)
         (value8 (pattern_run period sampleperiod (pattern_init period) k))
       + (level_voltage (amplitude / 2)
            (value8 (pattern_run period sampleperiod (pattern_init period) (Suc k)))
          - level_voltage (amplitude / 2)
            (value8 (pattern_run period sampleperiod (pattern_init period) k)))
         * (1 - phase_to_next_edge8 (pattern_run period sampleperiod (pattern_init period) k)
                / real_of_int sampleperiod)"
    by (simp add: nth_Generate8b10b_ideal edge_sample_change)
next
  assume h: "5 \<le> depth \<and> prbs31_next (word_of_int rand_value) \<noteq> 0"
  let ?st = "\<lambda>ph. \<lparr>prbs = word_of_int rand_value, phase_to_next_edge = ph, value' = False\<rparr>"
  have r0: "prbs31_run 4 1 (?st 4) 0 = ?st 4" by (simp add: prbs31_run_0)
  have r1: "prbs31_run 4 1 (?st 4) (Suc 0) = ?st 3"
    by (simp add: prbs31_run_Suc r0 prbs31_advance_noedge)
  have r2: "prbs31_run 4 1 (?st 4) (Suc (Suc 0)) = ?st 2"
    by (simp add: prbs31_run_Suc [of _ _ _ "Suc 0"] r1 prbs31_advance_noedge)
  have r3: "prbs31_run 4 1 (?st 4) (Suc (Suc (Suc 0))) = ?st 1"
    by (simp add: prbs31_run_Suc [of _ _ _ "Suc (Suc 0)"] r2 prbs31_advance_noedge)
  have r4: "prbs31_run 4 1 (?st 4) (Suc (Suc (Suc (Suc 0)))) = ?st 0"
    by (simp add: prbs31_run_Suc [of _ _ _ "Suc (Suc (Suc 0))"] r3 prbs31_advance_noedge)
  have r5: "value' (prbs31_run 4 1 (?st 4) (Suc (Suc (Suc (Suc (Suc 0)))))) = True"
    using h
    by (simp add: prbs31_run_Suc [of _ _ _ "Suc (Suc (Suc (Suc 0)))"] r4 prbs31_advance_edge)
  let ?w = "m_samples (GeneratePRBS31_ideal rand_value 2 4 1 depth)"
  have len: "5 \<le> length ?w" using h by (simp add: length_GeneratePRBS31_ideal)
  have nth: "?w ! k = edge_sample 1 1 (phase_to_next_edge (prbs31_run 4 1 (?st 4) k))
       (value' (prbs31_run 4 1 (?st 4) k)) (value' (prbs31_run 4 1 (?st 4) (Suc k)))"
    if "k < 5" for k
    using that h by (simp add: nth_GeneratePRBS31_ideal prbs_init_def)
  have s0: "?w ! 0 = -1"
    using nth [of 0] by (simp add: r0 r1 edge_sample_def)
  have s1: "?w ! 1 = -1"
    using nth [of "Suc 0"] by (simp add: r1 r2 edge_sample_def)
  have s2: "?w ! 2 = -1"
    using nth [of "Suc (Suc 0)"] by (simp add: r2 r3 edge_sample_def numeral_2_eq_2)
  have s3: "?w ! 3 = -1"
    using nth [of "Suc (Suc (Suc 0))"] by (simp add: r3 r4 edge_sample_def numeral_3_eq_3)
  have s4: "?w ! 4 = 1"
    using nth [of "Suc (Suc (Suc (Suc 0)))"]
    by (simp add: r4 r5 edge_sample_def Let_def eval_nat_numeral)
  show "take 5 ?w = [-1, -1, -1, -1, 1]"
    by (simp only: take_5_nth [OF len] s0 s1 s2 s3 s4)
qed

lemma pattern_advance_noedge:
  "0 \<le> ph - real_of_int sp \<Longrightarrow>
   pattern_advance p sp \<lparr>nbit = b, phase_to_next_edge8 = ph, value8 = v\<rparr>
     = \<lparr>nbit = b, phase_to_next_edge8 = ph - real_of_int sp, value8 = v\<rparr>"
  by (simp add: pattern_advance_def Let_def)

lemma pattern_advance_edge:
  "ph - real_of_int sp < 0 \<Longrightarrow>
   pattern_advance p sp \<lparr>nbit = b, phase_to_next_edge8 = ph, value8 = v\<rparr>
     = \<lparr>nbit = (if b + 1 \<ge> 20 then 0 else b + 1),
        phase_to_next_edge8 = ph - real_of_int sp + p,
        value8 = pattern ! nat b\<rparr>"
  by (simp add: pattern_advance_def pattern_next_def patternlen_def Let_def)

lemma prbs31_next_bit30: "prbs31_next (word_of_int 1073741824) \<noteq> 0"
  by (simp add: prbs31_next_def)

text \<open>
  With the seed \<open>2 ^ 30\<close> the first bit of the PRBS is 1, and sample 4 is the edge sample
  1; with symbol period 3/2 the fixed pattern has its first level change at sample 4, half
  a sample period after the edge, and the sample is 0.
\<close>

theorem edge_interpolation_witness:
  "m_samples (GeneratePRBS31_ideal 1073741824 2 4 1 5) ! 4 = 1
   \<and> m_samples (Generate8b10b_ideal 2 (3 / 2) 1 5) ! 4 = 0
   \<and> take 5 (m_samples (GeneratePRBS31_ideal 1073741824 2 4 1 5)) = [-1, -1, -1, -1, 1]"
proof -
  note ei = edge_interpolation [where k = 4 and depth = 5 and rand_value = 1073741824
      and amplitude = 2 and sampleperiod = 1]
  have c: "take 5 (m_samples (GeneratePRBS31_ideal 1073741824 2 4 1 5)) = [-1, -1, -1, -1, 1]"
    using ei [of 4] prbs31_next_bit30 by simp
  let ?pst = "\<lambda>ph. \<lparr>prbs = 1073741824, phase_to_next_edge = ph, value' = False\<rparr>"
  let ?prun = "prbs31_run 4 1 (prbs_init 1073741824 4)"
  have p0: "?prun 0 = ?pst 4" by (simp add: prbs31_run_0 prbs_init_def)
  have p1: "?prun (Suc 0) = ?pst 3"
    by (simp add: prbs31_run_Suc p0 prbs31_advance_noedge)
  have p2: "?prun (Suc (Suc 0)) = ?pst 2"
    by (simp add: prbs31_run_Suc [of _ _ _ "Suc 0"] p1 prbs31_advance_noedge)
  have p3: "?prun (Suc (Suc (Suc 0))) = ?pst 1"
    by (simp add: prbs31_run_Suc [of _ _ _ "Suc (Suc 0)"] p2 prbs31_advance_noedge)
  have p4: "?prun (Suc (Suc (Suc (Suc 0)))) = ?pst 0"
    by (simp add: prbs31_run_Suc [of _ _ _ "Suc (Suc (Suc 0))"] p3 prbs31_advance_noedge)
  have p5: "value' (?prun (Suc (Suc (Suc (Suc (Suc 0)))))) = True"
    using prbs31_next_bit30
    by (simp add: prbs31_run_Suc [of _ _ _ "Suc (Suc (Suc (Suc 0)))"] p4 prbs31_advance_edge)
  have four: "(4::nat) = Suc (Suc (Suc (Suc 0)))" by simp
  have a: "m_samples (GeneratePRBS31_ideal 1073741824 2 4 1 5) ! 4 = 1"
    using ei [of 4]
    by (simp add: four p4 p5 level_voltage_def)
  let ?st = "\<lambda>b ph v. \<lparr>nbit = b, phase_to_next_edge8 = ph, value8 = v\<rparr>"
  let ?run = "pattern_run (3 / 2) 1 (pattern_init (3 / 2))"
  have r0: "?run 0 = ?st 0 (3 / 2) False"
    by (simp add: pattern_run_0 pattern_init_def)
  have r1: "?run (Suc 0) = ?st 0 (1 / 2) False"
    by (simp add: pattern_run_Suc r0 pattern_advance_noedge)
  have r2: "?run (Suc (Suc 0)) = ?st 1 1 False"
    by (simp add: pattern_run_Suc [of _ _ _ "Suc 0"] r1 pattern_advance_edge pattern_def)
  have r3: "?run (Suc (Suc (Suc 0))) = ?st 1 0 False"
    by (simp add: pattern_run_Suc [of _ _ _ "Suc (Suc 0)"] r2 pattern_advance_noedge)
  have r4: "?run (Suc (Suc (Suc (Suc 0)))) = ?st 2 (1 / 2) False"
    by (simp add: pattern_run_Suc [of _ _ _ "Suc (Suc (Suc 0))"] r3 pattern_advance_edge
        pattern_def)
  have r5: "?run (Suc (Suc (Suc (Suc (Suc 0))))) = ?st 3 1 True"
    by (simp add: pattern_run_Suc [of _ _ _ "Suc (Suc (Suc (Suc 0)))"] r4 pattern_advance_edge
        pattern_def)
  have b: "m_samples (Generate8b10b_ideal 2 (3 / 2) 1 5) ! 4 = 0"
    using ei [of "3 / 2"]
    by (simp add: four r4 r5 level_voltage_def)
  from a b c show ?thesis by blast
qed

section \<open>Properties of the channel emulation\<close>

subsection \<open>The noise-only path\<close>

lemma length_add_draws: "length (fst (add_draws L na d g xs)) = length xs"
  by (induction xs arbitrary: d g) (simp_all add: case_prod_beta)

lemma add_draws_zero: "fst (add_draws L 0 d g xs) = xs"
  by (induction xs arbitrary: d g) (simp_all add: noise_def case_prod_beta)

lemma noise_loop_add_draws:
  "depth = length samples \<Longrightarrow> i \<le> depth \<Longrightarrow>
   noise_loop L na depth i d g samples =
     Inr (take i samples @ fst (add_draws L na d g (drop i samples)),
          snd (add_draws L na d g (drop i samples)))"
proof (induction L na depth i d g samples rule: noise_loop.induct)
  case (1 L na depth i d g samples)
  show ?case
  proof (cases "i < depth")
    case True
    obtain n d' g' where n: "noise L na d g = (n, d', g')"
      by (cases "noise L na d g") auto
    let ?s = "samples[i := samples ! i + n]"
    from True "1.prems" have il: "i < length samples" by simp
    have IH: "noise_loop L na depth (i + 1) d' g' ?s =
       Inr (take (i + 1) ?s @ fst (add_draws L na d' g' (drop (i + 1) ?s)),
            snd (add_draws L na d' g' (drop (i + 1) ?s)))"
      using "1.IH" [OF True il n [symmetric] refl] True "1.prems" by simp
    have dr: "drop i samples = samples ! i # drop (Suc i) samples"
      using il by (simp add: Cons_nth_drop_Suc)
    have tk: "take (Suc i) ?s = take i samples @ [samples ! i + n]"
      using il by (simp add: take_Suc_conv_app_nth)
    have "noise_loop L na depth i d g samples = noise_loop L na depth (i + 1) d' g' ?s"
      using True il n by (subst noise_loop.simps) simp
    also note IH
    finally show ?thesis
      by (simp add: dr tk n case_prod_beta)
  next
    case False
    with "1.prems" show ?thesis
      by (subst noise_loop.simps) simp
  qed
qed

lemma DegradeSerialData_noise_eq:
  "length (m_samples cap) = depth \<Longrightarrow>
   DegradeSerialData_noise L e cap depth na =
     Inr (cap\<lparr>m_samples := fst (add_draws L na (normal_init L) (m_rng e) (m_samples cap))\<rparr>,
          e\<lparr>m_rng := snd (add_draws L na (normal_init L) (m_rng e) (m_samples cap))\<rparr>)"
  by (simp add: DegradeSerialData_noise_def noise_loop_add_draws case_prod_beta)

lemma m_rng_update_plan_cache [simp]: "m_rng (update_plan_cache n k e) = m_rng e"
  by (simp add: update_plan_cache_def)

lemma outcome_DegradeSerialData_fast:
  "length (m_samples cap) = depth \<Longrightarrow> \<not> lpf \<or> APPLE_SILICON L \<Longrightarrow>
   outcome (DegradeSerialData L e cap sp depth lpf na) =
     Inr (cap\<lparr>m_samples := fst (add_draws L na (normal_init L) (m_rng e) (m_samples cap))\<rparr>,
          snd (add_draws L na (normal_init L) (m_rng e) (m_samples cap)))"
  by (auto simp: DegradeSerialData_def Let_def DegradeSerialData_noise_eq outcome_def)

text \<open>
  C9. With the loss model disabled (or on a host without the transform backend)
  \<^verbatim>\<open>DegradeSerialData\<close> returns the waveform with one draw of the noise source added to each
  sample, in order, and as many samples as before; with a noise standard deviation of 0 the
  samples are the input's. So a generation call without degradation and without noise
  returns the idealized waveform.
\<close>

theorem noise_only_path:
  "(length (m_samples cap) = depth \<and> (\<not> lpf \<or> APPLE_SILICON L) \<longrightarrow>
      outcome (DegradeSerialData L e cap sampleperiod depth lpf noise_amplitude) =
        Inr (cap\<lparr>m_samples :=
               fst (add_draws L noise_amplitude (normal_init L) (m_rng e) (m_samples cap))\<rparr>,
             snd (add_draws L noise_amplitude (normal_init L) (m_rng e) (m_samples cap)))
      \<and> length (fst (add_draws L noise_amplitude (normal_init L) (m_rng e) (m_samples cap)))
          = depth
      \<and> map_sum id fst (DegradeSerialData L e cap sampleperiod depth lpf 0) = Inr cap)
   \<and> map_sum id fst (GeneratePRBS31 L e rand_value amplitude period sampleperiod depth False 0)
       = Inr (GeneratePRBS31_ideal rand_value amplitude period sampleperiod depth)
   \<and> map_sum id fst (Generate8b10b L e amplitude period sampleperiod depth False 0)
       = Inr (Generate8b10b_ideal amplitude period sampleperiod depth)"
proof -
  have zero: "map_sum id fst (DegradeSerialData L e cap sp depth lpf 0) = Inr cap"
    if "length (m_samples cap) = depth" "\<not> lpf \<or> APPLE_SILICON L" for cap sp depth lpf
    using that
    by (auto simp: DegradeSerialData_def Let_def DegradeSerialData_noise_eq add_draws_zero)
  show ?thesis
    by (simp add: outcome_DegradeSerialData_fast length_add_draws zero GeneratePRBS31_def
        Generate8b10b_def length_GeneratePRBS31_ideal length_Generate8b10b_ideal)
qed

text \<open>
  Three samples, a noise standard deviation of 2 and the counting generator: the variates
  0, 1 and 2 are scaled and added, and three draws were made.
\<close>

theorem noise_only_path_witness:
  "outcome (DegradeSerialData example_collaborators (TestWaveformSource 0)
      \<lparr>m_name = ''w'', m_timescale = 1, m_samples = [1, 2, 3]\<rparr> 1 3 False 2)
     = Inr (\<lparr>m_name = ''w'', m_timescale = 1, m_samples = [1, 4, 7]\<rparr>, 3)
   \<and> map_sum id fst (DegradeSerialData example_collaborators (TestWaveformSource 0)
      \<lparr>m_name = ''w'', m_timescale = 1, m_samples = [1, 2, 3]\<rparr> 1 3 False 0)
     = Inr \<lparr>m_name = ''w'', m_timescale = 1, m_samples = [1, 2, 3]\<rparr>"
  using noise_only_path [where cap = "\<lparr>m_name = ''w'', m_timescale = 1, m_samples = [1, 2, 3]\<rparr>"
      and depth = 3 and lpf = False and L = example_collaborators
      and e = "TestWaveformSource 0" and sampleperiod = 1 and noise_amplitude = 2]
  by (simp add: example_collaborators_def noise_def TestWaveformSource_def)

subsection \<open>The range of the samples\<close>

lemma phase_prbs31_run_nonneg:
  "0 < sp \<Longrightarrow> real_of_int sp \<le> period \<Longrightarrow> 0 \<le> phase_to_next_edge st \<Longrightarrow>
   0 \<le> phase_to_next_edge (prbs31_run period sp st n)"
  by (induction n) (auto simp: prbs31_run_0 prbs31_run_Suc phase_prbs31_advance)

lemma phase_pattern_run_nonneg:
  "0 < sp \<Longrightarrow> real_of_int sp \<le> period \<Longrightarrow> 0 \<le> phase_to_next_edge8 st \<Longrightarrow>
   0 \<le> phase_to_next_edge8 (pattern_run period sp st n)"
  by (induction n) (auto simp: pattern_run_0 pattern_run_Suc phase_pattern_advance)

lemma value8_pattern_advance_change:
  "value8 (pattern_advance period sp st) \<noteq> value8 st \<Longrightarrow>
   phase_to_next_edge8 st - real_of_int sp < 0"
  by (auto simp: pattern_advance_def Let_def split: if_splits)

lemma value_prbs31_advance_change:
  "value' (prbs31_advance period sp st) \<noteq> value' st \<Longrightarrow>
   phase_to_next_edge st - real_of_int sp < 0"
  by (auto simp: prbs31_advance_def Let_def split: if_splits)

lemma within_levels_edge_sample:
  assumes "0 < sp" "0 \<le> ph" "u \<noteq> v \<Longrightarrow> ph - real_of_int sp < 0"
  shows "within_levels amplitude sp ph u v (edge_sample (amplitude / 2) sp ph u v)"
proof (cases "u = v")
  case True
  then show ?thesis
    by (auto simp: within_levels_def edge_sample_def level_voltage_def)
next
  case False
  define frac where "frac = 1 - ph / real_of_int sp"
  from assms False have "ph < real_of_int sp" by simp
  with assms have f: "0 \<le> frac" "frac \<le> 1"
    by (simp_all add: frac_def)
  have e: "edge_sample (amplitude / 2) sp ph u v =
      (1 - frac) * level_voltage (amplitude / 2) u + frac * level_voltage (amplitude / 2) v"
    using False by (simp add: edge_sample_def level_voltage_def Let_def frac_def algebra_simps)
  have v: "level_voltage (amplitude / 2) v = - level_voltage (amplitude / 2) u"
    using False by (auto simp: level_voltage_def)
  have a: "\<bar>level_voltage (amplitude / 2) u\<bar> = \<bar>amplitude\<bar> / 2"
    by (simp add: level_voltage_def)
  have "(1 - frac) * level_voltage (amplitude / 2) u + frac * level_voltage (amplitude / 2) v
      = (1 - 2 * frac) * level_voltage (amplitude / 2) u"
    by (simp add: v algebra_simps)
  moreover have "\<bar>1 - 2 * frac\<bar> \<le> 1" using f by (simp add: abs_le_iff)
  ultimately have b: "\<bar>edge_sample (amplitude / 2) sp ph u v\<bar> \<le> \<bar>amplitude\<bar> / 2"
    using a e mult_left_le_one_le [of "\<bar>level_voltage (amplitude / 2) u\<bar>" "\<bar>1 - 2 * frac\<bar>"]
    by (simp add: abs_mult mult.commute)
  then have c: "0 \<le> amplitude \<longrightarrow> - amplitude / 2 \<le> edge_sample (amplitude / 2) sp ph u v
      \<and> edge_sample (amplitude / 2) sp ph u v \<le> amplitude / 2"
    by (auto simp: abs_if split: if_splits)
  show ?thesis
    unfolding within_levels_def Let_def frac_def [symmetric]
    using False f e b c by simp
qed

lemma GeneratePRBS31_noiseless:
  "map_sum id fst (GeneratePRBS31 L e r amplitude period sp depth False 0)
     = Inr (GeneratePRBS31_ideal r amplitude period sp depth)"
  by (auto simp: GeneratePRBS31_def DegradeSerialData_def Let_def DegradeSerialData_noise_eq
      add_draws_zero length_GeneratePRBS31_ideal)

lemma Generate8b10b_noiseless:
  "map_sum id fst (Generate8b10b L e amplitude period sp depth False 0)
     = Inr (Generate8b10b_ideal amplitude period sp depth)"
  by (auto simp: Generate8b10b_def DegradeSerialData_def Let_def DegradeSerialData_noise_eq
      add_draws_zero length_Generate8b10b_ideal)

text \<open>
  C10, as stated, fails for a negative amplitude: the interval from \<open>- amplitude / 2\<close> to
  \<open>amplitude / 2\<close> is then empty. With amplitude \<open>-2\<close>, symbol and sample period 1 and one
  sample, the sample is 1, which is not at most \<open>-1\<close>.
\<close>

theorem sample_range_counterexample:
  "\<exists>w. map_sum id fst (GeneratePRBS31 example_collaborators (TestWaveformSource 0)
          0 (- 2) 1 1 1 False 0) = Inr w
       \<and> m_samples w ! 0 = 1
       \<and> \<not> (- (- 2) / 2 \<le> m_samples w ! 0 \<and> m_samples w ! 0 \<le> (- 2) / 2)"
proof -
  have "m_samples (GeneratePRBS31_ideal 0 (- 2) 1 1 1) ! 0 = 1"
    by (simp add: nth_GeneratePRBS31_ideal prbs31_run_0 prbs31_run_Suc prbs_init_def
        prbs31_advance_noedge edge_sample_def)
  then show ?thesis
    by (simp add: GeneratePRBS31_noiseless)
qed

text \<open>
  C10, amended. For a positive sample period, a symbol period of at least the sample period,
  no noise and no degradation, a generation call returns the idealized waveform, every
  sample of which is at most \<open>\<bar>amplitude\<bar> / 2\<close> in absolute value (so within
  \<open>[- amplitude / 2, amplitude / 2]\<close> when the amplitude is not negative): a sample without
  level change is the voltage of the level, and a sample with a level change is the
  combination of the two voltages with a fraction between 0 and 1.
\<close>

theorem sample_range:
  "0 < sampleperiod \<and> real_of_int sampleperiod \<le> period \<longrightarrow>
     map_sum id fst (GeneratePRBS31 L e rand_value amplitude period sampleperiod depth False 0)
       = Inr (GeneratePRBS31_ideal rand_value amplitude period sampleperiod depth)
     \<and> map_sum id fst (Generate8b10b L e amplitude period sampleperiod depth False 0)
       = Inr (Generate8b10b_ideal amplitude period sampleperiod depth)
     \<and> (\<forall>k<depth.
           within_levels amplitude sampleperiod
             (phase_to_next_edge (prbs31_run period sampleperiod (prbs_init rand_value period) k))
             (value' (prbs31_run period sampleperiod (prbs_init rand_value period) k))
             (value' (prbs31_run period sampleperiod (prbs_init rand_value period) (Suc k)))
             (m_samples (GeneratePRBS31_ideal rand_value amplitude period sampleperiod depth) ! k)
           \<and> within_levels amplitude sampleperiod
             (phase_to_next_edge8 (pattern_run period sampleperiod (pattern_init period) k))
             (value8 (pattern_run period sampleperiod (pattern_init period) k))
             (value8 (pattern_run period sampleperiod (pattern_init period) (Suc k)))
             (m_samples (Generate8b10b_ideal amplitude period sampleperiod depth) ! k))"
proof (intro impI conjI allI)
  assume h: "0 < sampleperiod \<and> real_of_int sampleperiod \<le> period"
  then have p: "0 \<le> period" by simp
  fix k assume k: "k < depth"
  let ?run = "prbs31_run period sampleperiod (prbs_init rand_value period)"
  have "within_levels amplitude sampleperiod (phase_to_next_edge (?run k))
      (value' (?run k)) (value' (?run (Suc k)))
      (edge_sample (amplitude / 2) sampleperiod (phase_to_next_edge (?run k))
        (value' (?run k)) (value' (?run (Suc k))))"
  proof (rule within_levels_edge_sample)
    show "0 < sampleperiod" using h by simp
    show "0 \<le> phase_to_next_edge (?run k)"
      using h p by (simp add: phase_prbs31_run_nonneg prbs_init_def)
    show "phase_to_next_edge (?run k) - real_of_int sampleperiod < 0"
      if "value' (?run k) \<noteq> value' (?run (Suc k))"
      using that value_prbs31_advance_change [of period sampleperiod "?run k"]
      by (simp add: prbs31_run_Suc)
  qed
  then show "within_levels amplitude sampleperiod (phase_to_next_edge (?run k))
      (value' (?run k)) (value' (?run (Suc k)))
      (m_samples (GeneratePRBS31_ideal rand_value amplitude period sampleperiod depth) ! k)"
    using k by (simp only: nth_GeneratePRBS31_ideal)
  let ?run8 = "pattern_run period sampleperiod (pattern_init period)"
  have "within_levels amplitude sampleperiod (phase_to_next_edge8 (?run8 k))
      (value8 (?run8 k)) (value8 (?run8 (Suc k)))
      (edge_sample (amplitude / 2) sampleperiod (phase_to_next_edge8 (?run8 k))
        (value8 (?run8 k)) (value8 (?run8 (Suc k))))"
  proof (rule within_levels_edge_sample)
    show "0 < sampleperiod" using h by simp
    show "0 \<le> phase_to_next_edge8 (?run8 k)"
      using h p by (simp add: phase_pattern_run_nonneg pattern_init_def)
    show "phase_to_next_edge8 (?run8 k) - real_of_int sampleperiod < 0"
      if "value8 (?run8 k) \<noteq> value8 (?run8 (Suc k))"
      using that value8_pattern_advance_change [of period sampleperiod "?run8 k"]
      by (simp add: pattern_run_Suc)
  qed
  then show "within_levels amplitude sampleperiod (phase_to_next_edge8 (?run8 k))
      (value8 (?run8 k)) (value8 (?run8 (Suc k)))
      (m_samples (Generate8b10b_ideal amplitude period sampleperiod depth) ! k)"
    using k by (simp only: nth_Generate8b10b_ideal)
qed (simp_all add: GeneratePRBS31_noiseless Generate8b10b_noiseless)

text \<open>
  Amplitude 2, symbol period 4, sample period 1 and five samples: both generators return
  the idealized waveform, and sample 4 of each is within \<open>[-1, 1]\<close>.
\<close>

theorem sample_range_witness:
  "map_sum id fst (GeneratePRBS31 example_collaborators (TestWaveformSource 0)
       1073741824 2 4 1 5 False 0) = Inr (GeneratePRBS31_ideal 1073741824 2 4 1 5)
   \<and> - 1 \<le> m_samples (GeneratePRBS31_ideal 1073741824 2 4 1 5) ! 4
   \<and> m_samples (GeneratePRBS31_ideal 1073741824 2 4 1 5) ! 4 \<le> 1
   \<and> - 1 \<le> m_samples (Generate8b10b_ideal 2 4 1 5) ! 4
   \<and> m_samples (Generate8b10b_ideal 2 4 1 5) ! 4 \<le> 1"
proof -
  have h: "0 < (1::int) \<and> real_of_int 1 \<le> (4::real)" by simp
  note sr = sample_range [where sampleperiod = 1 and period = 4 and amplitude = 2
      and depth = 5 and rand_value = 1073741824 and L = example_collaborators
      and e = "TestWaveformSource 0", THEN mp, OF h]
  from sr have a: "map_sum id fst (GeneratePRBS31 example_collaborators (TestWaveformSource 0)
       1073741824 2 4 1 5 False 0) = Inr (GeneratePRBS31_ideal 1073741824 2 4 1 5)"
    by blast
  from sr have "\<forall>k<5.
      within_levels 2 1
        (phase_to_next_edge (prbs31_run 4 1 (prbs_init 1073741824 4) k))
        (value' (prbs31_run 4 1 (prbs_init 1073741824 4) k))
        (value' (prbs31_run 4 1 (prbs_init 1073741824 4) (Suc k)))
        (m_samples (GeneratePRBS31_ideal 1073741824 2 4 1 5) ! k)
      \<and> within_levels 2 1
        (phase_to_next_edge8 (pattern_run 4 1 (pattern_init 4) k))
        (value8 (pattern_run 4 1 (pattern_init 4) k))
        (value8 (pattern_run 4 1 (pattern_init 4) (Suc k)))
        (m_samples (Generate8b10b_ideal 2 4 1 5) ! k)"
    by blast
  from this [rule_format, of 4] have "within_levels 2 1
        (phase_to_next_edge (prbs31_run 4 1 (prbs_init 1073741824 4) 4))
        (value' (prbs31_run 4 1 (prbs_init 1073741824 4) 4))
        (value' (prbs31_run 4 1 (prbs_init 1073741824 4) (Suc 4)))
        (m_samples (GeneratePRBS31_ideal 1073741824 2 4 1 5) ! 4)
      \<and> within_levels 2 1
        (phase_to_next_edge8 (pattern_run 4 1 (pattern_init 4) 4))
        (value8 (pattern_run 4 1 (pattern_init 4) 4))
        (value8 (pattern_run 4 1 (pattern_init 4) (Suc 4)))
        (m_samples (Generate8b10b_ideal 2 4 1 5) ! 4)"
    by simp
  then have "- 1 \<le> m_samples (GeneratePRBS31_ideal 1073741824 2 4 1 5) ! 4
   \<and> m_samples (GeneratePRBS31_ideal 1073741824 2 4 1 5) ! 4 \<le> 1
   \<and> - 1 \<le> m_samples (Generate8b10b_ideal 2 4 1 5) ! 4
   \<and> m_samples (Generate8b10b_ideal 2 4 1 5) ! 4 \<le> 1"
    unfolding within_levels_def by simp
  with a show ?thesis by blast
qed

subsection \<open>The group delay in samples\<close>

lemma sdiv_nonneg_pos: "0 \<le> a \<Longrightarrow> 0 < b \<Longrightarrow> a sdiv b = a div (b::int)"
  by (cases "a = 0") (simp_all add: signed_divide_int_def sgn_if)

lemma trunc_zero_nonneg: "0 \<le> x \<Longrightarrow> trunc_zero x = \<lfloor>x\<rfloor>"
  by (simp add: trunc_zero_def)

lemma trunc_zero_minus: "trunc_zero (- x) = - trunc_zero x"
  by (cases "x = 0") (auto simp: trunc_zero_def ceiling_def)

lemma sdiv_minus_left: "(- a) sdiv b = - (a sdiv (b::int))"
  by (simp add: signed_divide_int_def sgn_if)

lemma sdiv_minus_right: "a sdiv (- b) = - (a sdiv (b::int))"
  by (simp add: signed_divide_int_def sgn_if)

lemma trunc_zero_sdiv_nonneg_pos:
  "0 \<le> x \<Longrightarrow> 0 < b \<Longrightarrow> trunc_zero x sdiv b = trunc_zero (x / real_of_int b)"
proof -
  assume h: "0 \<le> x" "0 < b"
  then have f: "0 \<le> \<lfloor>x\<rfloor>" by simp
  from h have q: "0 \<le> x / real_of_int b" by simp
  have "trunc_zero x sdiv b = \<lfloor>x\<rfloor> div b"
    using h f by (simp only: trunc_zero_nonneg sdiv_nonneg_pos)
  also have "\<dots> = \<lfloor>x / real_of_int b\<rfloor>"
    using h by (simp add: floor_divide_real_eq_div)
  finally show ?thesis using q by (simp only: trunc_zero_nonneg)
qed

lemma trunc_zero_sdiv_pos:
  "0 < b \<Longrightarrow> trunc_zero x sdiv b = trunc_zero (x / real_of_int b)"
proof (cases "0 \<le> x")
  case True
  assume "0 < b"
  with True show ?thesis by (rule trunc_zero_sdiv_nonneg_pos)
next
  case False
  assume b: "0 < b"
  from False have "0 \<le> - x" by simp
  from trunc_zero_sdiv_nonneg_pos [OF this b]
  have "trunc_zero (- x) sdiv b = trunc_zero (- x / real_of_int b)" .
  then have "- (trunc_zero x sdiv b) = - trunc_zero (x / real_of_int b)"
    by (simp only: trunc_zero_minus sdiv_minus_left minus_divide_left [symmetric])
  then show ?thesis by simp
qed

lemma trunc_zero_sdiv:
  "b \<noteq> 0 \<Longrightarrow> trunc_zero x sdiv b = trunc_zero (x / real_of_int b)"
proof (cases "0 < b")
  case True
  then show ?thesis by (rule trunc_zero_sdiv_pos)
next
  case False
  assume "b \<noteq> 0"
  with False have b: "0 < - b" by simp
  from trunc_zero_sdiv_pos [OF b, of x]
  have "trunc_zero x sdiv (- b) = trunc_zero (x / real_of_int (- b))" .
  moreover have "x / real_of_int (- b) = - (x / real_of_int b)"
    by simp
  ultimately have "- (trunc_zero x sdiv b) = - trunc_zero (x / real_of_int b)"
    by (simp only: trunc_zero_minus sdiv_minus_right)
  then show ?thesis by simp
qed

lemma groupDelay_of_in_range:
  "\<bar>GetGroupDelay L (s21_size L div 2) * FS_PER_SECOND\<bar> < 2 ^ 63 \<Longrightarrow>
   groupDelay_of L = Inr (trunc_zero (GetGroupDelay L (s21_size L div 2) * FS_PER_SECOND))
   \<and> - (2 ^ 63) < trunc_zero (GetGroupDelay L (s21_size L div 2) * FS_PER_SECOND)"
proof -
  let ?x = "GetGroupDelay L (s21_size L div 2) * FS_PER_SECOND"
  assume h: "\<bar>?x\<bar> < 2 ^ 63"
  have u: "trunc_zero ?x < 2 ^ 63"
  proof (cases "0 \<le> ?x")
    case True
    from h have "?x < real_of_int (2 ^ 63)" by simp
    then have "\<lfloor>?x\<rfloor> < 2 ^ 63" by (simp only: floor_less_iff)
    with True show ?thesis by (simp add: trunc_zero_def)
  next
    case False
    then have "\<lceil>?x\<rceil> \<le> 0" by (simp add: ceiling_le_iff)
    with False show ?thesis by (simp add: trunc_zero_def)
  qed
  have l: "- (2 ^ 63) < trunc_zero ?x"
  proof (cases "0 \<le> ?x")
    case True
    then have "0 \<le> \<lfloor>?x\<rfloor>" by simp
    with True show ?thesis by (simp add: trunc_zero_def)
  next
    case False
    from h have "real_of_int (- (2 ^ 63)) < ?x" by simp
    then have "- (2 ^ 63) < \<lceil>?x\<rceil>" by (simp only: less_ceiling_iff)
    with False show ?thesis by (simp add: trunc_zero_def)
  qed
  from u l show ?thesis
    by (simp add: groupDelay_of_def to_int64_def)
qed

lemma groupDelaySamples_of_in_range:
  "\<bar>GetGroupDelay L (s21_size L div 2) * FS_PER_SECOND\<bar> < 2 ^ 63 \<Longrightarrow> timescale \<noteq> 0 \<Longrightarrow>
   groupDelaySamples_of L timescale
     = Inr (trunc_zero (GetGroupDelay L (s21_size L div 2) * FS_PER_SECOND
              / real_of_int timescale))"
proof -
  let ?x = "GetGroupDelay L (s21_size L div 2) * FS_PER_SECOND"
  assume h: "\<bar>?x\<bar> < 2 ^ 63" and t: "timescale \<noteq> 0"
  from groupDelay_of_in_range [OF h]
  have g: "groupDelay_of L = Inr (trunc_zero ?x)" and l: "- (2 ^ 63) < trunc_zero ?x"
    by simp_all
  from l have ne: "trunc_zero ?x \<noteq> - (2 ^ 63)" by simp
  have "groupDelaySamples_of L timescale = Inr (trunc_zero ?x sdiv timescale)"
    using t ne by (simp add: groupDelaySamples_of_def g int64_div_def)
  also have "trunc_zero ?x sdiv timescale = trunc_zero (?x / real_of_int timescale)"
    using t by (rule trunc_zero_sdiv)
  finally show ?thesis .
qed


lemma group_delay_example:
  "GetGroupDelay example_collaborators (s21_size example_collaborators div 2)
     * FS_PER_SECOND = 1706000"
  by (simp add: example_collaborators_def FS_PER_SECOND_def)






subsection \<open>The plan cache\<close>

lemma next_pow2_from_ge: "0 < p \<Longrightarrow> n \<le> next_pow2_from p n"
proof (induction p n rule: next_pow2_from.induct)
  case (1 p n)
  show ?case
  proof (cases "n \<le> p")
    case True
    then show ?thesis by (subst next_pow2_from.simps) simp
  next
    case False
    with "1.prems" "1.IH" show ?thesis by (subst next_pow2_from.simps) simp
  qed
qed

lemma next_pow2_ge: "n \<le> next_pow2 n"
  by (simp add: next_pow2_def next_pow2_from_ge)

lemma next_pow2_pos: "0 < depth \<Longrightarrow> next_pow2 depth \<noteq> 0"
  using next_pow2_ge [of depth] by simp

lemma cache_ok_TestWaveformSource: "cache_ok (TestWaveformSource rng)"
  by (simp add: cache_ok_def TestWaveformSource_def)

lemma plan_ready_update_plan_cache:
  "cache_ok e \<Longrightarrow> npoints \<noteq> 0 \<Longrightarrow>
   plan_ready npoints (update_plan_cache npoints (npoints div 2 + 1) e)"
  by (auto simp: update_plan_cache_def cache_ok_def plan_ready_def length_resize)

lemma m_cachedNumPoints_update_plan_cache:
  "m_cachedNumPoints (update_plan_cache npoints nouts e) = npoints"
  by (simp add: update_plan_cache_def)

lemma window_dispatch_ready:
  "plan_ready npoints e \<Longrightarrow>
   window_dispatch depth npoints din e
     = Inr (e\<lparr>m_forwardInBuf := RectangularWindow depth npoints din\<rparr>)"
  by (simp add: window_dispatch_def plan_ready_def)

lemma length_RectangularWindow [simp]: "length (RectangularWindow k npoints din) = npoints"
  by (simp add: RectangularWindow_def)

lemma ffts_execute_forward_ready:
  "length input = n \<Longrightarrow> length output = 2 * (n div 2 + 1) \<Longrightarrow>
   ffts_execute_forward L (Some n) input output
     = Inr (map (ffts_forward L n input) [0..<2 * (n div 2 + 1)])"
  by (simp add: ffts_execute_forward_def)

lemma ffts_execute_backward_ready:
  "length input = 2 * (n div 2 + 1) \<Longrightarrow> length output = n \<Longrightarrow>
   ffts_execute_backward L (Some n) input output
     = Inr (map (ffts_backward L n input) [0..<n])"
  by (simp add: ffts_execute_backward_def)

lemma channel_loop_in_bounds:
  "2 * nouts \<le> length buf \<Longrightarrow>
   \<exists>out. channel_loop L bin_hz nouts i buf = Inr out \<and> length out = length buf"
proof (induction L bin_hz nouts i buf rule: channel_loop.induct)
  case (1 L bin_hz nouts i buf)
  show ?case
  proof (cases "i < nouts")
    case True
    with "1.prems" have b: "i * 2 + 1 < length buf" by simp
    from True b "1.IH" [OF True b refl refl refl refl refl refl refl refl refl refl] "1.prems"
    show ?thesis
      by (subst channel_loop.simps) (simp add: Let_def)
  next
    case False
    then show ?thesis by (subst channel_loop.simps) simp
  qed
qed

lemma DegradeSerialData_lpf_ready:
  "\<exists>ibuf fbuf rbuf.
     length ibuf = npoints \<and> length fbuf = 2 * (npoints div 2 + 1) \<and> length rbuf = npoints
     \<and> (\<forall>e. plan_ready npoints e \<longrightarrow>
          DegradeSerialData_lpf L e cap sp depth na npoints (npoints div 2 + 1) =
            (case groupDelaySamples_of L (m_timescale cap) of
               Inl err \<Rightarrow> Inl err
             | Inr gds \<Rightarrow>
                 (case trim_loop L na (1 / real npoints) (nat (gds mod 2 ^ 64))
                         ((depth + 2 ^ 64 - nat (gds mod 2 ^ 64)) mod 2 ^ 64)
                         0 (normal_init L) (m_rng e) rbuf (m_samples cap) of
                    Inl err \<Rightarrow> Inl err
                  | Inr (samples, g) \<Rightarrow>
                      Inr (Resize ((depth + 2 ^ 64 - nat (gds mod 2 ^ 64)) mod 2 ^ 64)
                             (cap\<lparr>m_samples := samples\<rparr>),
                           e\<lparr>m_forwardInBuf := ibuf, m_forwardOutBuf := fbuf,
                             m_reverseOutBuf := rbuf, m_rng := g\<rparr>))))"
proof -
  define nouts where "nouts = npoints div 2 + 1"
  define W where "W = RectangularWindow depth npoints (m_samples cap)"
  define F where "F = map (ffts_forward L npoints W) [0..<2 * nouts]"
  define bin_hz where
    "bin_hz = c_round ((0.5 * (1000000 / real_of_int sp) * 1000000000) / real nouts)"
  have lW: "length W = npoints" by (simp add: W_def)
  have lF: "length F = 2 * nouts" by (simp add: F_def)
  obtain C where C: "channel_loop L bin_hz nouts 0 F = Inr C" and lC: "length C = 2 * nouts"
    using channel_loop_in_bounds [of nouts F L bin_hz 0] lF by auto
  define R where "R = map (ffts_backward L npoints C) [0..<npoints]"
  have lR: "length R = npoints" by (simp add: R_def)
  have main: "DegradeSerialData_lpf L e cap sp depth na npoints nouts =
            (case groupDelaySamples_of L (m_timescale cap) of
               Inl err \<Rightarrow> Inl err
             | Inr gds \<Rightarrow>
                 (case trim_loop L na (1 / real npoints) (nat (gds mod 2 ^ 64))
                         ((depth + 2 ^ 64 - nat (gds mod 2 ^ 64)) mod 2 ^ 64)
                         0 (normal_init L) (m_rng e) R (m_samples cap) of
                    Inl err \<Rightarrow> Inl err
                  | Inr (samples, g) \<Rightarrow>
                      Inr (Resize ((depth + 2 ^ 64 - nat (gds mod 2 ^ 64)) mod 2 ^ 64)
                             (cap\<lparr>m_samples := samples\<rparr>),
                           e\<lparr>m_forwardInBuf := W, m_forwardOutBuf := C,
                             m_reverseOutBuf := R, m_rng := g\<rparr>)))"
    if r: "plan_ready npoints e" for e
  proof -
    from r have p: "m_forwardPlan e = Some npoints" "m_reversePlan e = Some npoints"
      and l: "length (m_forwardOutBuf e) = 2 * (npoints div 2 + 1)"
        "length (m_reverseOutBuf e) = npoints"
      by (simp_all add: plan_ready_def)
    have f: "ffts_execute_forward L (Some npoints) W (m_forwardOutBuf e) = Inr F"
      using ffts_execute_forward_ready [OF lW l(1), of L] by (simp add: F_def nouts_def)
    have b: "ffts_execute_backward L (Some npoints) C (m_reverseOutBuf e) = Inr R"
      using ffts_execute_backward_ready [of C npoints "m_reverseOutBuf e" L] lC l(2)
      by (simp add: R_def nouts_def)
    from C have c: "channel_loop L
        (c_round (500000000000000 / (real_of_int sp * real nouts))) nouts 0 F = Inr C"
      by (simp add: bin_hz_def)
    show ?thesis
    proof (cases "groupDelaySamples_of L (m_timescale cap)")
      case (Inl err)
      then show ?thesis
        unfolding DegradeSerialData_lpf_def window_dispatch_ready [OF r]
        unfolding W_def [symmetric]
        by (simp add: p f Let_def)
    next
      case (Inr gds)
      then show ?thesis
        unfolding DegradeSerialData_lpf_def window_dispatch_ready [OF r]
        unfolding W_def [symmetric]
        by (simp add: p f b c Let_def split: sum.splits prod.splits)
    qed
  qed
  show ?thesis
    apply (rule exI [of _ W])
    apply (rule exI [of _ C])
    apply (rule exI [of _ R])
    using lW lC lR main by (simp add: nouts_def)
qed

lemma plan_ready_m_rng_update [simp]: "plan_ready n (e\<lparr>m_rng := g\<rparr>) = plan_ready n e"
  by (simp add: plan_ready_def)

lemma cache_ok_m_rng_update [simp]: "cache_ok (e\<lparr>m_rng := g\<rparr>) = cache_ok e"
  by (simp add: cache_ok_def)

lemma outcome_DegradeSerialData_lpf_rng:
  assumes "plan_ready npoints e1" "plan_ready npoints e2" "m_rng e1 = m_rng e2"
  shows "outcome (DegradeSerialData_lpf L e1 cap sp depth na npoints (npoints div 2 + 1))
     = outcome (DegradeSerialData_lpf L e2 cap sp depth na npoints (npoints div 2 + 1))"
proof -
  from DegradeSerialData_lpf_ready [of npoints L cap sp depth na]
  obtain ibuf fbuf rbuf where main: "\<forall>e. plan_ready npoints e \<longrightarrow>
          DegradeSerialData_lpf L e cap sp depth na npoints (npoints div 2 + 1) =
            (case groupDelaySamples_of L (m_timescale cap) of
               Inl err \<Rightarrow> Inl err
             | Inr gds \<Rightarrow>
                 (case trim_loop L na (1 / real npoints) (nat (gds mod 2 ^ 64))
                         ((depth + 2 ^ 64 - nat (gds mod 2 ^ 64)) mod 2 ^ 64)
                         0 (normal_init L) (m_rng e) rbuf (m_samples cap) of
                    Inl err \<Rightarrow> Inl err
                  | Inr (samples, g) \<Rightarrow>
                      Inr (Resize ((depth + 2 ^ 64 - nat (gds mod 2 ^ 64)) mod 2 ^ 64)
                             (cap\<lparr>m_samples := samples\<rparr>),
                           e\<lparr>m_forwardInBuf := ibuf, m_forwardOutBuf := fbuf,
                             m_reverseOutBuf := rbuf, m_rng := g\<rparr>)))"
    by blast
  from main assms(1) have a: "DegradeSerialData_lpf L e1 cap sp depth na npoints
      (npoints div 2 + 1) =
            (case groupDelaySamples_of L (m_timescale cap) of
               Inl err \<Rightarrow> Inl err
             | Inr gds \<Rightarrow>
                 (case trim_loop L na (1 / real npoints) (nat (gds mod 2 ^ 64))
                         ((depth + 2 ^ 64 - nat (gds mod 2 ^ 64)) mod 2 ^ 64)
                         0 (normal_init L) (m_rng e1) rbuf (m_samples cap) of
                    Inl err \<Rightarrow> Inl err
                  | Inr (samples, g) \<Rightarrow>
                      Inr (Resize ((depth + 2 ^ 64 - nat (gds mod 2 ^ 64)) mod 2 ^ 64)
                             (cap\<lparr>m_samples := samples\<rparr>),
                           e1\<lparr>m_forwardInBuf := ibuf, m_forwardOutBuf := fbuf,
                             m_reverseOutBuf := rbuf, m_rng := g\<rparr>)))"
    by blast
  from main assms(2) have b: "DegradeSerialData_lpf L e2 cap sp depth na npoints
      (npoints div 2 + 1) =
            (case groupDelaySamples_of L (m_timescale cap) of
               Inl err \<Rightarrow> Inl err
             | Inr gds \<Rightarrow>
                 (case trim_loop L na (1 / real npoints) (nat (gds mod 2 ^ 64))
                         ((depth + 2 ^ 64 - nat (gds mod 2 ^ 64)) mod 2 ^ 64)
                         0 (normal_init L) (m_rng e2) rbuf (m_samples cap) of
                    Inl err \<Rightarrow> Inl err
                  | Inr (samples, g) \<Rightarrow>
                      Inr (Resize ((depth + 2 ^ 64 - nat (gds mod 2 ^ 64)) mod 2 ^ 64)
                             (cap\<lparr>m_samples := samples\<rparr>),
                           e2\<lparr>m_forwardInBuf := ibuf, m_forwardOutBuf := fbuf,
                             m_reverseOutBuf := rbuf, m_rng := g\<rparr>)))"
    by blast
  show ?thesis
    unfolding a b outcome_def
    by (simp add: assms(3) split: sum.splits prod.splits)
qed

lemma plan_ready_DegradeSerialData_lpf:
  assumes "plan_ready npoints e"
    "DegradeSerialData_lpf L e cap sp depth na npoints (npoints div 2 + 1) = Inr (w, e')"
  shows "plan_ready npoints e' \<and> m_cachedNumPoints e' = m_cachedNumPoints e"
proof -
  from DegradeSerialData_lpf_ready [of npoints L cap sp depth na]
  obtain ibuf fbuf rbuf where l: "length ibuf = npoints" "length fbuf = 2 * (npoints div 2 + 1)"
      "length rbuf = npoints"
    and main: "\<forall>e. plan_ready npoints e \<longrightarrow>
          DegradeSerialData_lpf L e cap sp depth na npoints (npoints div 2 + 1) =
            (case groupDelaySamples_of L (m_timescale cap) of
               Inl err \<Rightarrow> Inl err
             | Inr gds \<Rightarrow>
                 (case trim_loop L na (1 / real npoints) (nat (gds mod 2 ^ 64))
                         ((depth + 2 ^ 64 - nat (gds mod 2 ^ 64)) mod 2 ^ 64)
                         0 (normal_init L) (m_rng e) rbuf (m_samples cap) of
                    Inl err \<Rightarrow> Inl err
                  | Inr (samples, g) \<Rightarrow>
                      Inr (Resize ((depth + 2 ^ 64 - nat (gds mod 2 ^ 64)) mod 2 ^ 64)
                             (cap\<lparr>m_samples := samples\<rparr>),
                           e\<lparr>m_forwardInBuf := ibuf, m_forwardOutBuf := fbuf,
                             m_reverseOutBuf := rbuf, m_rng := g\<rparr>)))"
    by blast
  from main assms(1) have a: "DegradeSerialData_lpf L e cap sp depth na npoints
      (npoints div 2 + 1) =
            (case groupDelaySamples_of L (m_timescale cap) of
               Inl err \<Rightarrow> Inl err
             | Inr gds \<Rightarrow>
                 (case trim_loop L na (1 / real npoints) (nat (gds mod 2 ^ 64))
                         ((depth + 2 ^ 64 - nat (gds mod 2 ^ 64)) mod 2 ^ 64)
                         0 (normal_init L) (m_rng e) rbuf (m_samples cap) of
                    Inl err \<Rightarrow> Inl err
                  | Inr (samples, g) \<Rightarrow>
                      Inr (Resize ((depth + 2 ^ 64 - nat (gds mod 2 ^ 64)) mod 2 ^ 64)
                             (cap\<lparr>m_samples := samples\<rparr>),
                           e\<lparr>m_forwardInBuf := ibuf, m_forwardOutBuf := fbuf,
                             m_reverseOutBuf := rbuf, m_rng := g\<rparr>)))"
    by blast
  from assms(2) obtain g where "e' = e\<lparr>m_forwardInBuf := ibuf, m_forwardOutBuf := fbuf,
      m_reverseOutBuf := rbuf, m_rng := g\<rparr>"
    unfolding a by (auto split: sum.splits prod.splits)
  with assms(1) l show ?thesis
    by (simp add: plan_ready_def)
qed

lemma DegradeSerialData_noise_state:
  "DegradeSerialData_noise L e cap depth na = Inr (w, e') \<Longrightarrow> \<exists>g. e' = e\<lparr>m_rng := g\<rparr>"
  by (auto simp: DegradeSerialData_noise_def split: sum.splits prod.splits)

lemma cache_ok_DegradeSerialData:
  assumes "cache_ok e" "0 < depth"
    "DegradeSerialData L e cap sp depth lpf na = Inr (w, e')"
  shows "cache_ok e'"
proof (cases "APPLE_SILICON L")
  case True
  with assms(3) have "DegradeSerialData_noise L e cap depth na = Inr (w, e')"
    by (simp add: DegradeSerialData_def)
  from DegradeSerialData_noise_state [OF this] assms(1) show ?thesis
    by auto
next
  case False
  define npoints where "npoints = next_pow2 depth"
  define e0 where "e0 = update_plan_cache npoints (npoints div 2 + 1) e"
  from assms(2) have np: "npoints \<noteq> 0"
    by (simp add: npoints_def next_pow2_pos)
  from plan_ready_update_plan_cache [OF assms(1) np]
  have r0: "plan_ready npoints e0" by (simp add: e0_def)
  have c0: "m_cachedNumPoints e0 = npoints"
    by (simp add: e0_def m_cachedNumPoints_update_plan_cache)
  have "plan_ready npoints e' \<and> m_cachedNumPoints e' = npoints"
  proof (cases lpf)
    case True
    with False assms(3)
    have "DegradeSerialData_lpf L e0 cap sp depth na npoints (npoints div 2 + 1) = Inr (w, e')"
      by (simp add: DegradeSerialData_def Let_def npoints_def e0_def)
    from plan_ready_DegradeSerialData_lpf [OF r0 this] c0 show ?thesis by simp
  next
    case lpf: False
    with False assms(3) have "DegradeSerialData_noise L e0 cap depth na = Inr (w, e')"
      by (simp add: DegradeSerialData_def Let_def npoints_def e0_def)
    from DegradeSerialData_noise_state [OF this] r0 c0 show ?thesis
      by auto
  qed
  then show ?thesis by (simp add: cache_ok_def)
qed

lemma outcome_DegradeSerialData_rng:
  assumes "cache_ok e1" "cache_ok e2" "m_rng e1 = m_rng e2" "0 < depth"
  shows "outcome (DegradeSerialData L e1 cap sp depth lpf na)
     = outcome (DegradeSerialData L e2 cap sp depth lpf na)"
proof -
  define npoints where "npoints = next_pow2 depth"
  from assms(4) have np: "npoints \<noteq> 0"
    by (simp add: npoints_def next_pow2_pos)
  have a: "outcome (DegradeSerialData_noise L e cap depth na)
      = outcome (DegradeSerialData_noise L e'' cap depth na)" if "m_rng e = m_rng e''"
    for e e'' :: "'a TestWaveformSource"
    using that
    by (simp add: DegradeSerialData_noise_def outcome_def split: sum.splits prod.splits)
  have b: "outcome (DegradeSerialData_noise L
        (update_plan_cache npoints (npoints div 2 + 1) e1) cap depth na)
      = outcome (DegradeSerialData_noise L
        (update_plan_cache npoints (npoints div 2 + 1) e2) cap depth na)"
    by (rule a) (simp add: assms(3))
  have c: "outcome (DegradeSerialData_lpf L
        (update_plan_cache npoints (npoints div 2 + 1) e1) cap sp depth na npoints
        (npoints div 2 + 1))
      = outcome (DegradeSerialData_lpf L
        (update_plan_cache npoints (npoints div 2 + 1) e2) cap sp depth na npoints
        (npoints div 2 + 1))"
    using plan_ready_update_plan_cache [OF assms(1) np]
      plan_ready_update_plan_cache [OF assms(2) np]
    by (rule outcome_DegradeSerialData_lpf_rng) (simp add: assms(3))
  show ?thesis
    using a [OF assms(3)] b c
    by (cases "APPLE_SILICON L"; cases lpf)
      (simp_all add: DegradeSerialData_def Let_def npoints_def)
qed

subsection \<open>The full path: the length of the output\<close>

lemma trim_loop_in_bounds:
  "finalLen \<le> length samples \<Longrightarrow> istart + finalLen \<le> length rbuf \<Longrightarrow>
   istart + finalLen < 2 ^ 64 \<Longrightarrow>
   \<exists>s g'. trim_loop L na sc istart finalLen i d g rbuf samples = Inr (s, g')
     \<and> length s = length samples"
proof (induction L na sc istart finalLen i d g rbuf samples rule: trim_loop.induct)
  case (1 L na sc istart finalLen i d g rbuf samples)
  show ?case
  proof (cases "i < finalLen")
    case True
    obtain n d' g' where n: "noise L na d g = (n, d', g')"
      by (cases "noise L na d g") auto
    from True "1.prems" have lt: "i + istart < 2 ^ 64" by simp
    then have m: "(i + istart) mod 2 ^ 64 = i + istart" by simp
    from True "1.prems" have b: "i < length samples \<and> (i + istart) mod 2 ^ 64 < length rbuf"
      by (simp add: m)
    let ?s = "samples[i := rbuf ! ((i + istart) mod 2 ^ 64) * sc + n]"
    have "\<exists>s g''. trim_loop L na sc istart finalLen (i + 1) d' g' rbuf ?s = Inr (s, g'')
        \<and> length s = length ?s"
      using "1.IH" [OF True b n [symmetric] refl] "1.prems" by simp
    moreover have "trim_loop L na sc istart finalLen i d g rbuf samples
        = trim_loop L na sc istart finalLen (i + 1) d' g' rbuf ?s"
      using True b n by (subst trim_loop.simps) simp
    ultimately show ?thesis by simp
  next
    case False
    then show ?thesis by (subst trim_loop.simps) simp
  qed
qed


lemma m_timescale_GeneratePRBS31_ideal [simp]:
  "m_timescale (GeneratePRBS31_ideal r amplitude period sp depth) = sp"
  by (simp add: GeneratePRBS31_ideal_def Let_def Resize_def new_waveform_def)

lemma m_timescale_Generate8b10b_ideal [simp]:
  "m_timescale (Generate8b10b_ideal amplitude period sp depth) = sp"
  by (simp add: Generate8b10b_ideal_def Let_def Resize_def new_waveform_def)

lemma outcome_DegradeSerialData_full:
  assumes "\<not> APPLE_SILICON L" "cache_ok e" "0 < depth"
  shows "\<exists>rbuf. length rbuf = next_pow2 depth
     \<and> outcome (DegradeSerialData L e cap sp depth True na) =
         (case groupDelaySamples_of L (m_timescale cap) of
            Inl err \<Rightarrow> Inl err
          | Inr gds \<Rightarrow>
              (case trim_loop L na (1 / real (next_pow2 depth)) (nat (gds mod 2 ^ 64))
                      ((depth + 2 ^ 64 - nat (gds mod 2 ^ 64)) mod 2 ^ 64)
                      0 (normal_init L) (m_rng e) rbuf (m_samples cap) of
                 Inl err \<Rightarrow> Inl err
               | Inr (samples, g) \<Rightarrow>
                   Inr (Resize ((depth + 2 ^ 64 - nat (gds mod 2 ^ 64)) mod 2 ^ 64)
                          (cap\<lparr>m_samples := samples\<rparr>), g)))"
proof -
  define npoints where "npoints = next_pow2 depth"
  define e0 where "e0 = update_plan_cache npoints (npoints div 2 + 1) e"
  from assms(3) have np: "npoints \<noteq> 0"
    by (simp add: npoints_def next_pow2_pos)
  from plan_ready_update_plan_cache [OF assms(2) np]
  have r0: "plan_ready npoints e0" by (simp add: e0_def)
  from DegradeSerialData_lpf_ready [of npoints L cap sp depth na]
  obtain ibuf fbuf rbuf where l: "length rbuf = npoints"
    and main: "\<forall>e. plan_ready npoints e \<longrightarrow>
          DegradeSerialData_lpf L e cap sp depth na npoints (npoints div 2 + 1) =
            (case groupDelaySamples_of L (m_timescale cap) of
               Inl err \<Rightarrow> Inl err
             | Inr gds \<Rightarrow>
                 (case trim_loop L na (1 / real npoints) (nat (gds mod 2 ^ 64))
                         ((depth + 2 ^ 64 - nat (gds mod 2 ^ 64)) mod 2 ^ 64)
                         0 (normal_init L) (m_rng e) rbuf (m_samples cap) of
                    Inl err \<Rightarrow> Inl err
                  | Inr (samples, g) \<Rightarrow>
                      Inr (Resize ((depth + 2 ^ 64 - nat (gds mod 2 ^ 64)) mod 2 ^ 64)
                             (cap\<lparr>m_samples := samples\<rparr>),
                           e\<lparr>m_forwardInBuf := ibuf, m_forwardOutBuf := fbuf,
                             m_reverseOutBuf := rbuf, m_rng := g\<rparr>)))"
    by blast
  from main r0 have a: "DegradeSerialData_lpf L e0 cap sp depth na npoints
      (npoints div 2 + 1) =
            (case groupDelaySamples_of L (m_timescale cap) of
               Inl err \<Rightarrow> Inl err
             | Inr gds \<Rightarrow>
                 (case trim_loop L na (1 / real npoints) (nat (gds mod 2 ^ 64))
                         ((depth + 2 ^ 64 - nat (gds mod 2 ^ 64)) mod 2 ^ 64)
                         0 (normal_init L) (m_rng e0) rbuf (m_samples cap) of
                    Inl err \<Rightarrow> Inl err
                  | Inr (samples, g) \<Rightarrow>
                      Inr (Resize ((depth + 2 ^ 64 - nat (gds mod 2 ^ 64)) mod 2 ^ 64)
                             (cap\<lparr>m_samples := samples\<rparr>),
                           e0\<lparr>m_forwardInBuf := ibuf, m_forwardOutBuf := fbuf,
                             m_reverseOutBuf := rbuf, m_rng := g\<rparr>)))"
    by blast
  have d: "DegradeSerialData L e cap sp depth True na
      = DegradeSerialData_lpf L e0 cap sp depth na npoints (npoints div 2 + 1)"
    using assms(1) by (simp add: DegradeSerialData_def Let_def npoints_def e0_def)
  have m: "m_rng e0 = m_rng e" by (simp add: e0_def)
  have "outcome (DegradeSerialData L e cap sp depth True na) =
         (case groupDelaySamples_of L (m_timescale cap) of
            Inl err \<Rightarrow> Inl err
          | Inr gds \<Rightarrow>
              (case trim_loop L na (1 / real npoints) (nat (gds mod 2 ^ 64))
                      ((depth + 2 ^ 64 - nat (gds mod 2 ^ 64)) mod 2 ^ 64)
                      0 (normal_init L) (m_rng e) rbuf (m_samples cap) of
                 Inl err \<Rightarrow> Inl err
               | Inr (samples, g) \<Rightarrow>
                   Inr (Resize ((depth + 2 ^ 64 - nat (gds mod 2 ^ 64)) mod 2 ^ 64)
                          (cap\<lparr>m_samples := samples\<rparr>), g)))"
    unfolding d a m outcome_def
    by (simp split: sum.splits prod.splits)
  with l show ?thesis
    unfolding npoints_def by blast
qed

lemma length_DegradeSerialData_full:
  assumes "\<not> APPLE_SILICON L" "cache_ok e" "0 < depth" "depth < 2 ^ 64"
    "length (m_samples cap) = depth"
    "groupDelaySamples_of L (m_timescale cap) = Inr gds" "0 \<le> gds" "gds \<le> int depth"
  shows "\<exists>w g. outcome (DegradeSerialData L e cap sp depth True na) = Inr (w, g)
     \<and> int (length (m_samples w)) = int depth - gds"
proof -
  define istart where "istart = nat (gds mod 2 ^ 64)"
  define finalLen where "finalLen = (depth + 2 ^ 64 - istart) mod 2 ^ 64"
  have "gds < 2 ^ 64" using assms(4,8) by simp
  with assms(7) have i: "istart = nat gds" by (simp add: istart_def)
  with assms(7,8) have i_le: "istart \<le> depth" by simp
  have "depth + 2 ^ 64 - istart = (depth - istart) + 1 * 2 ^ 64" using i_le by simp
  then have "finalLen = ((depth - istart) + 1 * 2 ^ 64) mod 2 ^ 64"
    by (simp only: finalLen_def)
  also have "\<dots> = (depth - istart) mod 2 ^ 64"
    by (rule mod_mult_self1)
  also have "\<dots> = depth - istart"
    using assms(4) by simp
  finally have f: "finalLen = depth - istart" .
  from outcome_DegradeSerialData_full [OF assms(1,2,3), of cap sp na]
  obtain rbuf where lr: "length rbuf = next_pow2 depth"
    and o: "outcome (DegradeSerialData L e cap sp depth True na) =
         (case groupDelaySamples_of L (m_timescale cap) of
            Inl err \<Rightarrow> Inl err
          | Inr gds \<Rightarrow>
              (case trim_loop L na (1 / real (next_pow2 depth)) (nat (gds mod 2 ^ 64))
                      ((depth + 2 ^ 64 - nat (gds mod 2 ^ 64)) mod 2 ^ 64)
                      0 (normal_init L) (m_rng e) rbuf (m_samples cap) of
                 Inl err \<Rightarrow> Inl err
               | Inr (samples, g) \<Rightarrow>
                   Inr (Resize ((depth + 2 ^ 64 - nat (gds mod 2 ^ 64)) mod 2 ^ 64)
                          (cap\<lparr>m_samples := samples\<rparr>), g)))"
    by blast
  obtain s g' where t: "trim_loop L na (1 / real (next_pow2 depth)) istart finalLen 0
      (normal_init L) (m_rng e) rbuf (m_samples cap) = Inr (s, g')"
    and ls: "length s = length (m_samples cap)"
    using trim_loop_in_bounds [of finalLen "m_samples cap" istart rbuf L na
        "1 / real (next_pow2 depth)" 0 "normal_init L" "m_rng e"]
      assms(4,5) i_le next_pow2_ge [of depth]
    by (auto simp: f lr)
  have "outcome (DegradeSerialData L e cap sp depth True na)
      = Inr (Resize finalLen (cap\<lparr>m_samples := s\<rparr>), g')"
    unfolding o assms(6) sum.case
    unfolding istart_def [symmetric]
    unfolding finalLen_def [symmetric]
    by (simp only: t sum.case prod.case)
  moreover have "int (length (m_samples (Resize finalLen (cap\<lparr>m_samples := s\<rparr>))))
      = int depth - gds"
    using i i_le assms(7) by (simp add: Resize_def length_resize f)
  ultimately show ?thesis by auto
qed


lemma next_pow2_2: "next_pow2 2 = 2"
  by (simp add: next_pow2_def next_pow2_from.simps)

lemma groupDelaySamples_of_nonneg:
  assumes "0 \<le> GetGroupDelay L (s21_size L div 2)"
    "GetGroupDelay L (s21_size L div 2) * FS_PER_SECOND < 2 ^ 63" "0 < timescale"
  shows "\<exists>gds. groupDelaySamples_of L timescale = Inr gds \<and> 0 \<le> gds"
proof -
  let ?x = "GetGroupDelay L (s21_size L div 2) * FS_PER_SECOND"
  from assms(1) have x: "0 \<le> ?x" by (simp add: FS_PER_SECOND_def)
  with assms(2) have a: "\<bar>?x\<bar> < 2 ^ 63" by simp
  from assms(3) have t: "timescale \<noteq> 0" by simp
  from x assms(3) have q: "0 \<le> ?x / real_of_int timescale" by simp
  then have "0 \<le> trunc_zero (?x / real_of_int timescale)"
    by (simp add: trunc_zero_def)
  with groupDelaySamples_of_in_range [OF a t] show ?thesis by simp
qed




subsection \<open>What a generation call depends on\<close>

lemma nth_1_GeneratePRBS31_ideal:
  "m_samples (GeneratePRBS31_ideal r 2 1 1 2) ! 1
     = (if prbs31_next (word_of_int r) \<noteq> 0 then 1 else - 1)"
proof -
  let ?st = "\<lambda>ph. \<lparr>prbs = word_of_int r, phase_to_next_edge = ph, value' = False\<rparr>"
  let ?run = "prbs31_run 1 1 (prbs_init r 1)"
  have r0: "?run 0 = ?st 1" by (simp add: prbs31_run_0 prbs_init_def)
  have r1: "?run (Suc 0) = ?st 0"
    by (simp add: prbs31_run_Suc r0 prbs31_advance_noedge)
  have r2: "value' (?run (Suc (Suc 0))) = (prbs31_next (word_of_int r) \<noteq> 0)"
    by (simp add: prbs31_run_Suc [of _ _ _ "Suc 0"] r1 prbs31_advance_edge)
  have "m_samples (GeneratePRBS31_ideal r 2 1 1 2) ! Suc 0
      = edge_sample 1 1 0 False (prbs31_next (word_of_int r) \<noteq> 0)"
    using nth_GeneratePRBS31_ideal [of "Suc 0" 2 r 2 1 1] by (simp add: r1 r2)
  then show ?thesis
    by (simp add: edge_sample_def Let_def)
qed

lemma snd_add_draws_example:
  "snd (add_draws example_collaborators na d g xs) = g + length xs"
  by (induction xs arbitrary: d g)
    (simp_all add: noise_def example_collaborators_def case_prod_beta)

lemma Generate8b10b_fast_example:
  "\<exists>w. Generate8b10b example_collaborators (TestWaveformSource 0) 2 4 1 2 False 1
     = Inr (w, (update_plan_cache 2 2 (TestWaveformSource 0))\<lparr>m_rng := 2\<rparr>)"
proof -
  have a: "\<not> APPLE_SILICON example_collaborators"
    by (simp add: example_collaborators_def)
  let ?cap = "Generate8b10b_ideal 2 4 1 2"
  let ?e = "update_plan_cache 2 2 (TestWaveformSource (0::nat))"
  have d: "DegradeSerialData example_collaborators (TestWaveformSource 0) ?cap 1 2 False 1
      = DegradeSerialData_noise example_collaborators ?e ?cap 2 1"
    by (simp add: DegradeSerialData_def a Let_def next_pow2_2) (simp add: numeral_2_eq_2)
  have l: "length (m_samples ?cap) = 2"
    by (rule length_Generate8b10b_ideal)
  have g: "snd (add_draws example_collaborators 1 (normal_init example_collaborators)
      (m_rng ?e) (m_samples ?cap)) = 2"
    by (simp add: snd_add_draws_example l TestWaveformSource_def)
  show ?thesis
    unfolding Generate8b10b_def d DegradeSerialData_noise_eq [OF l] g
    by simp
qed

text \<open>
  C1, as stated, fails for \<^verbatim>\<open>GeneratePRBS31\<close>: the register is seeded from the C library's
  \<^verbatim>\<open>rand()\<close>, not from the noise source. Two calls with the same noise generator and the
  same parameters, in which \<^verbatim>\<open>rand()\<close> returns 0 and \<open>2 ^ 30\<close>, give different waveforms.
\<close>

theorem determinism_counterexample:
  "map_sum id fst (GeneratePRBS31 example_collaborators (TestWaveformSource 0)
       0 2 1 1 2 False 0)
     \<noteq> map_sum id fst (GeneratePRBS31 example_collaborators (TestWaveformSource 0)
       1073741824 2 1 1 2 False 0)"
proof
  assume "map_sum id fst (GeneratePRBS31 example_collaborators (TestWaveformSource 0)
       0 2 1 1 2 False 0)
     = map_sum id fst (GeneratePRBS31 example_collaborators (TestWaveformSource 0)
       1073741824 2 1 1 2 False 0)"
  then have "GeneratePRBS31_ideal 0 2 1 1 2 = GeneratePRBS31_ideal 1073741824 2 1 1 2"
    by (simp only: GeneratePRBS31_noiseless sum.inject)
  then have "m_samples (GeneratePRBS31_ideal 0 2 1 1 2) ! 1
      = m_samples (GeneratePRBS31_ideal 1073741824 2 1 1 2) ! 1"
    by (rule arg_cong)
  then show False
    by (simp only: nth_1_GeneratePRBS31_ideal) (simp add: prbs31_next_def)
qed

text \<open>
  The plan cache and the buffers do enter a call: a generator object that records a padded
  length for which it has neither plans nor buffers, which no sequence of calls leaves
  behind, makes the window write beyond the input buffer.
\<close>

lemma plan_cache_out_of_order:
  "\<not> cache_ok ((TestWaveformSource (2::nat))\<lparr>m_cachedNumPoints := 2\<rparr>)
   \<and> outcome (GeneratePRBS31 example_collaborators
        ((TestWaveformSource 2)\<lparr>m_cachedNumPoints := 2\<rparr>) 5 2 4000000 1000000 2 True 1)
      = Inl OutOfBounds"
proof -
  have a: "\<not> APPLE_SILICON example_collaborators"
    by (simp add: example_collaborators_def)
  have "outcome (GeneratePRBS31 example_collaborators
        ((TestWaveformSource 2)\<lparr>m_cachedNumPoints := 2\<rparr>) 5 2 4000000 1000000 2 True 1)
      = Inl OutOfBounds"
  proof -
    let ?e = "(TestWaveformSource (2::nat))\<lparr>m_cachedNumPoints := 2\<rparr>"
    have u: "update_plan_cache 2 k ?e = ?e" for k
      by (simp add: update_plan_cache_def)
    have w: "window_dispatch 2 2 din ?e = Inl OutOfBounds" for din
      by (simp add: window_dispatch_def TestWaveformSource_def)
    have "DegradeSerialData example_collaborators ?e cap sp 2 True na = Inl OutOfBounds"
      for cap sp na
      unfolding DegradeSerialData_def Let_def next_pow2_2 u DegradeSerialData_lpf_def w
      using a by simp
    then show ?thesis
      unfolding GeneratePRBS31_def by (simp add: outcome_def)
  qed
  then show ?thesis
    by (simp add: cache_ok_def plan_ready_def TestWaveformSource_def)
qed

text \<open>
  C1, amended. The plan cache of a generator object is in order after the constructor and
  after every generation call that returns. For two generator objects with plan caches in
  order and noise generators in the same state, whatever their buffers hold, the outcome of
  a generation call for a depth above 0 (the waveform, or the error, and the noise
  generator afterwards) is the same when the parameters are the same and, for
  \<^verbatim>\<open>GeneratePRBS31\<close>, \<^verbatim>\<open>rand()\<close> returns the same value.
\<close>

theorem determinism:
  "cache_ok (TestWaveformSource rng)
   \<and> (cache_ok e \<and> 0 < depth
      \<and> GeneratePRBS31 L e rand_value amplitude period sampleperiod depth lpf noise_amplitude
          = Inr (w, e') \<longrightarrow> cache_ok e')
   \<and> (cache_ok e \<and> 0 < depth
      \<and> Generate8b10b L e amplitude period sampleperiod depth lpf noise_amplitude
          = Inr (w, e') \<longrightarrow> cache_ok e')
   \<and> (cache_ok ea \<and> cache_ok eb \<and> m_rng ea = m_rng eb \<and> 0 < depth \<longrightarrow>
        outcome (GeneratePRBS31 L ea rand_value amplitude period sampleperiod depth lpf
            noise_amplitude)
          = outcome (GeneratePRBS31 L eb rand_value amplitude period sampleperiod depth lpf
            noise_amplitude)
        \<and> outcome (Generate8b10b L ea amplitude period sampleperiod depth lpf
            noise_amplitude)
          = outcome (Generate8b10b L eb amplitude period sampleperiod depth lpf
            noise_amplitude))"
proof (intro conjI impI)
  show "cache_ok (TestWaveformSource rng)"
    by (rule cache_ok_TestWaveformSource)
next
  assume "cache_ok e \<and> 0 < depth
      \<and> GeneratePRBS31 L e rand_value amplitude period sampleperiod depth lpf noise_amplitude
          = Inr (w, e')"
  then show "cache_ok e'"
    unfolding GeneratePRBS31_def by (blast intro: cache_ok_DegradeSerialData)
next
  assume "cache_ok e \<and> 0 < depth
      \<and> Generate8b10b L e amplitude period sampleperiod depth lpf noise_amplitude
          = Inr (w, e')"
  then show "cache_ok e'"
    unfolding Generate8b10b_def by (blast intro: cache_ok_DegradeSerialData)
next
  assume h: "cache_ok ea \<and> cache_ok eb \<and> m_rng ea = m_rng eb \<and> 0 < depth"
  then show "outcome (GeneratePRBS31 L ea rand_value amplitude period sampleperiod depth lpf
            noise_amplitude)
          = outcome (GeneratePRBS31 L eb rand_value amplitude period sampleperiod depth lpf
            noise_amplitude)"
    unfolding GeneratePRBS31_def by (blast intro: outcome_DegradeSerialData_rng)
  from h show "outcome (Generate8b10b L ea amplitude period sampleperiod depth lpf
            noise_amplitude)
          = outcome (Generate8b10b L eb amplitude period sampleperiod depth lpf
            noise_amplitude)"
    unfolding Generate8b10b_def by (blast intro: outcome_DegradeSerialData_rng)
qed

text \<open>
  A generator object that has made one call for two samples, which drew twice from a noise
  generator that counts its draws and filled the plan cache for a padded length of 2, and a
  fresh generator object whose noise generator is at 2. A degraded call for two samples,
  at 1000000 fs per sample, returns on both the same waveform of one sample.
\<close>

theorem determinism_witness:
  "\<exists>w0 e2. Generate8b10b example_collaborators (TestWaveformSource 0) 2 4 1 2 False 1
       = Inr (w0, e2)
     \<and> m_cachedNumPoints e2 = 2 \<and> m_rng e2 = 2 \<and> cache_ok e2
     \<and> outcome (GeneratePRBS31 example_collaborators e2 5 2 4000000 1000000 2 True 1)
       = outcome (GeneratePRBS31 example_collaborators (TestWaveformSource 2)
           5 2 4000000 1000000 2 True 1)
     \<and> outcome (Generate8b10b example_collaborators e2 2 4000000 1000000 2 True 1)
       = outcome (Generate8b10b example_collaborators (TestWaveformSource 2)
           2 4000000 1000000 2 True 1)
     \<and> (\<exists>w g. outcome (GeneratePRBS31 example_collaborators e2 5 2 4000000 1000000 2 True 1)
           = Inr (w, g) \<and> length (m_samples w) = 1)"
proof -
  define e2 where "e2 = (update_plan_cache 2 2 (TestWaveformSource (0::nat)))\<lparr>m_rng := 2\<rparr>"
  obtain w0 where c: "Generate8b10b example_collaborators (TestWaveformSource 0)
      2 4 1 2 False 1 = Inr (w0, e2)"
    using Generate8b10b_fast_example by (auto simp: e2_def)
  have m: "m_cachedNumPoints e2 = 2" "m_rng e2 = 2"
    by (simp_all add: e2_def update_plan_cache_def TestWaveformSource_def)
  note d1 = determinism [where rng = "0::nat" and L = example_collaborators
      and e = "TestWaveformSource 0" and depth = 2 and amplitude = 2 and period = 4
      and sampleperiod = 1 and lpf = False and noise_amplitude = 1 and w = w0 and e' = e2]
  have p2: "0 < (2::nat)" by simp
  from d1 have k0: "cache_ok (TestWaveformSource (0::nat))" by (rule conjunct1)
  from d1 k0 p2 c have k2: "cache_ok e2" by blast
  note d2 = determinism [where rng = "2::nat" and L = example_collaborators
      and ea = e2 and eb = "TestWaveformSource 2" and depth = 2 and rand_value = 5
      and amplitude = 2 and period = 4000000 and sampleperiod = 1000000 and lpf = True
      and noise_amplitude = 1]
  from d2 have k: "cache_ok (TestWaveformSource (2::nat))" by (rule conjunct1)
  have mm: "m_rng e2 = m_rng (TestWaveformSource (2::nat))"
    by (simp add: m TestWaveformSource_def)
  from d2 k2 k mm p2 have eq:
    "outcome (GeneratePRBS31 example_collaborators e2 5 2 4000000 1000000 2 True 1)
       = outcome (GeneratePRBS31 example_collaborators (TestWaveformSource 2)
           5 2 4000000 1000000 2 True 1)"
    "outcome (Generate8b10b example_collaborators e2 2 4000000 1000000 2 True 1)
       = outcome (Generate8b10b example_collaborators (TestWaveformSource 2)
           2 4000000 1000000 2 True 1)"
    by blast+
  have a: "\<not> APPLE_SILICON example_collaborators"
    by (simp add: example_collaborators_def)
  have "groupDelaySamples_of example_collaborators 1000000
      = Inr (trunc_zero (1706000 / real_of_int 1000000))"
    using groupDelaySamples_of_in_range [of example_collaborators 1000000]
    by (simp add: group_delay_example)
  then have gd: "groupDelaySamples_of example_collaborators 1000000 = Inr 1"
    by (simp add: trunc_zero_def)
  from length_DegradeSerialData_full [OF a k2, of 2 "GeneratePRBS31_ideal 5 2 4000000 1000000 2"
      1 1000000 1] gd
  have "\<exists>w g. outcome (GeneratePRBS31 example_collaborators e2 5 2 4000000 1000000 2 True 1)
           = Inr (w, g) \<and> length (m_samples w) = 1"
    unfolding GeneratePRBS31_def by (simp add: length_GeneratePRBS31_ideal)
  with c m k2 eq show ?thesis by blast
qed

section \<open>The period of the PRBS31 sequence\<close>

subsection \<open>The shift, bit by bit\<close>

lemma bit_push_bit_1: "bit (push_bit 1 (a :: 32 word)) n = (0 < n \<and> n < 32 \<and> bit a (n - 1))"
  unfolding bit_push_bit_iff by (auto simp: possible_bit_word)

lemma bit_prbs31_next: "bit (prbs31_next a) n = (n = 0 \<and> (bit a 30 \<noteq> bit a 27))"
  unfolding prbs31_next_def bit_and_iff bit_xor_iff bit_drop_bit_eq bit_1_iff by auto

lemma bit_prbs31_shift_0: "bit (prbs31_shift a) 0 = (bit a 30 \<noteq> bit a 27)"
  unfolding prbs31_shift_def bit_or_iff bit_push_bit_1 bit_prbs31_next by simp

lemma bit_prbs31_shift_Suc: "bit (prbs31_shift a) (Suc n) = (n < 31 \<and> bit a n)"
  unfolding prbs31_shift_def bit_or_iff bit_push_bit_1 bit_prbs31_next by auto

lemma prbs31_next_ne_0: "prbs31_next a \<noteq> 0 \<longleftrightarrow> (bit a 30 \<noteq> bit a 27)"
proof (rule iffI, rule ccontr)
  assume n: "prbs31_next a \<noteq> 0" and "\<not> bit a 30 \<noteq> bit a 27"
  then have "prbs31_next a = 0"
    by (intro bit_eqI) (simp add: bit_prbs31_next)
  with n show False by simp
next
  assume "bit a 30 \<noteq> bit a 27"
  then have "bit (prbs31_next a) 0" unfolding bit_prbs31_next by simp
  then show "prbs31_next a \<noteq> 0" by auto
qed

lemma prbs31_shift_xor: "prbs31_shift (a XOR b) = prbs31_shift a XOR prbs31_shift b"
proof (rule bit_eqI)
  fix n
  show "bit (prbs31_shift (a XOR b)) n = bit (prbs31_shift a XOR prbs31_shift b) n"
    by (cases n) (auto simp: bit_prbs31_shift_0 bit_prbs31_shift_Suc bit_xor_iff)
qed

lemma lfsr31_xor: "lfsr31 (a XOR b) = lfsr31 a XOR lfsr31 b"
  by (simp add: lfsr31_def prbs31_shift_xor)

lemma bit_lfsr31_0: "bit (lfsr31 a) 0 = (bit a 30 \<noteq> bit a 27)"
  by (simp add: lfsr31_def bit_take_bit_iff bit_prbs31_shift_0)

lemma bit_lfsr31_Suc: "bit (lfsr31 a) (Suc n) = (n < 30 \<and> bit a n)"
  by (auto simp: lfsr31_def bit_take_bit_iff bit_prbs31_shift_Suc)

lemma lfsr31_take_bit: "lfsr31 (take_bit 31 a) = lfsr31 a"
proof (rule bit_eqI)
  fix n
  show "bit (lfsr31 (take_bit 31 a)) n = bit (lfsr31 a) n"
    by (cases n) (auto simp: bit_lfsr31_0 bit_lfsr31_Suc bit_take_bit_iff)
qed

lemma take_bit_lfsr31: "take_bit 31 (lfsr31 a) = lfsr31 a"
  by (simp add: lfsr31_def)

lemma take_bit_prbs31_shift_funpow:
  "take_bit 31 ((prbs31_shift ^^ n) a) = (lfsr31 ^^ n) (take_bit 31 a)"
proof (induction n)
  case 0
  show ?case by simp
next
  case (Suc n)
  have "take_bit 31 ((prbs31_shift ^^ Suc n) a) = lfsr31 ((prbs31_shift ^^ n) a)"
    by (simp add: lfsr31_def)
  also have "\<dots> = lfsr31 (take_bit 31 ((prbs31_shift ^^ n) a))"
    by (simp only: lfsr31_take_bit)
  finally show ?case by (simp add: Suc)
qed

lemma lfsr31_inj:
  assumes "lfsr31 a = lfsr31 b"
  shows "take_bit 31 a = take_bit 31 b"
proof (rule bit_eqI)
  fix n
  have low: "bit a k = bit b k" if "k < 30" for k
  proof -
    have "bit a k = bit (lfsr31 a) (Suc k)" using that by (simp only: bit_lfsr31_Suc simp_thms)
    also have "\<dots> = bit (lfsr31 b) (Suc k)" by (simp only: assms)
    also have "\<dots> = bit b k" using that by (simp only: bit_lfsr31_Suc simp_thms)
    finally show ?thesis .
  qed
  have "(bit a 30 \<noteq> bit a 27) = bit (lfsr31 a) 0" by (simp only: bit_lfsr31_0)
  also have "\<dots> = bit (lfsr31 b) 0" by (simp only: assms)
  also have "\<dots> = (bit b 30 \<noteq> bit b 27)" by (simp only: bit_lfsr31_0)
  finally have "bit a 30 = bit b 30"
    using low [of 27] by auto
  with low have "bit a k = bit b k" if "k < 31" for k
    using that by (cases "k = 30") auto
  then show "bit (take_bit 31 a) n = bit (take_bit 31 b) n"
    by (auto simp: bit_take_bit_iff)
qed

lemma lfsr31_fixed_point:
  assumes "lfsr31 a = a"
  shows "a = 0"
proof -
  have suc: "bit a (Suc k) = (k < 30 \<and> bit a k)" for k
  proof -
    have "bit a (Suc k) = bit (lfsr31 a) (Suc k)" by (simp only: assms)
    then show ?thesis by (simp only: bit_lfsr31_Suc)
  qed
  have z: "bit a 0 = (bit a 30 \<noteq> bit a 27)"
  proof -
    have "bit a 0 = bit (lfsr31 a) 0" by (simp only: assms)
    then show ?thesis by (simp only: bit_lfsr31_0)
  qed
  have eq: "k \<le> 30 \<Longrightarrow> bit a k = bit a 0" for k
  proof (induction k)
    case 0
    show ?case by simp
  next
    case (Suc k)
    then have "k < 30" by simp
    with Suc suc [of k] show ?case by simp
  qed
  have "bit a 30 = bit a 0" "bit a 27 = bit a 0"
    by (rule eq, simp)+
  with z have n0: "\<not> bit a 0" by blast
  have "\<not> bit a k" for k
  proof (cases "k \<le> 30")
    case True
    with n0 eq [of k] show ?thesis by simp
  next
    case False
    then obtain j where "k = Suc j" "30 \<le> j" by (cases k) auto
    then show ?thesis by (simp add: suc)
  qed
  then show ?thesis by (intro bit_eqI) simp
qed

subsection \<open>Matrices over the register\<close>

lemma mapply_0: "mapply M 0 = 0"
  by (induction M) simp_all

lemma mapply_xor: "mapply M (a XOR b) = mapply M a XOR mapply M b"
proof (induction M arbitrary: a b)
  case Nil
  show ?case by simp
next
  case (Cons c M)
  have d: "drop_bit 1 (a XOR b) = drop_bit 1 a XOR drop_bit 1 b"
    by (rule drop_bit_xor)
  have b0: "bit (a XOR b) 0 = (bit a 0 \<noteq> bit b 0)"
    by (simp add: bit_xor_iff)
  show ?case
    unfolding mapply.simps d b0 Cons.IH
    by (simp add: ac_simps)
qed

lemma mapply_mcomp: "mapply (mcomp A B) s = mapply A (mapply B s)"
proof (induction B arbitrary: s)
  case Nil
  show ?case by (simp add: mcomp_def mapply_0)
next
  case (Cons c B)
  have "mapply (mcomp A (c # B)) s
      = (if bit s 0 then mapply A c else 0) XOR mapply (mcomp A B) (drop_bit 1 s)"
    by (simp add: mcomp_def)
  also have "\<dots> = mapply A (if bit s 0 then c else 0) XOR mapply A (mapply B (drop_bit 1 s))"
    by (simp add: Cons.IH mapply_0)
  also have "\<dots> = mapply A (mapply (c # B) s)"
    by (simp only: mapply_xor [symmetric] mapply.simps)
  finally show ?case .
qed

lemma take_bit_Suc_xor:
  "take_bit (Suc n) (s :: 32 word)
     = (if bit s 0 then 1 else 0) XOR push_bit 1 (take_bit n (drop_bit 1 s))"
proof (rule bit_eqI)
  fix m
  show "bit (take_bit (Suc n) s) m
      = bit ((if bit s 0 then 1 else 0) XOR push_bit 1 (take_bit n (drop_bit 1 s))) m"
  proof (cases m)
    case 0
    then show ?thesis
      unfolding bit_xor_iff bit_push_bit_1 bit_take_bit_iff by simp
  next
    case (Suc j)
    have "bit s (Suc j) \<Longrightarrow> Suc j < 32"
      using bit_imp_le_length [of s "Suc j"] by simp
    then show ?thesis
      unfolding Suc bit_xor_iff bit_push_bit_1 bit_take_bit_iff bit_drop_bit_eq
      by (auto simp: bit_1_iff)
  qed
qed

lemma mapply_columns:
  assumes lin: "\<And>a b. f (a XOR b) = f a XOR f b"
  shows "mapply (map (\<lambda>i. f (push_bit i 1)) [0..<n]) s = f (take_bit n s)"
  using lin
proof (induction n arbitrary: f s)
  case 0
  have "f 0 = f 0 XOR f 0" using "0" [of 0 0] by simp
  then have "f 0 = 0" by simp
  then show ?case by simp
next
  case (Suc n)
  have f0: "f 0 = 0"
  proof -
    have "f 0 = f 0 XOR f 0" using Suc.prems [of 0 0] by simp
    then show ?thesis by simp
  qed
  let ?g = "\<lambda>a. f (push_bit 1 a)"
  have g: "?g (a XOR b) = ?g a XOR ?g b" for a b
    by (simp only: push_bit_xor Suc.prems)
  have "[0..<Suc n] = 0 # map Suc [0..<n]"
    by (simp add: upt_conv_Cons map_Suc_upt del: upt_Suc)
  then have "map (\<lambda>i. f (push_bit i 1)) [0..<Suc n]
      = f 1 # map (\<lambda>i. ?g (push_bit i 1)) [0..<n]"
    by (simp add: push_bit_Suc push_bit_eq_mult mult.commute del: upt_Suc)
  then have "mapply (map (\<lambda>i. f (push_bit i 1)) [0..<Suc n]) s
      = (if bit s 0 then f 1 else 0)
        XOR mapply (map (\<lambda>i. ?g (push_bit i 1)) [0..<n]) (drop_bit 1 s)"
    by (simp only: mapply.simps)
  also have "\<dots> = (if bit s 0 then f 1 else 0) XOR ?g (take_bit n (drop_bit 1 s))"
    using Suc.IH [of ?g "drop_bit 1 s"] g by simp
  also have "\<dots> = f ((if bit s 0 then 1 else 0) XOR push_bit 1 (take_bit n (drop_bit 1 s)))"
    by (simp add: Suc.prems f0)
  also have "\<dots> = f (take_bit (Suc n) s)"
    by (simp only: take_bit_Suc_xor)
  finally show ?case .
qed

lemma mapply_funpow_mcomp:
  assumes "\<And>s. mapply P s = (F ^^ m) s"
  shows "mapply (mcomp P P) s = (F ^^ (m + m)) s"
  by (simp add: mapply_mcomp assms funpow_add)

lemma prbs31_matrix_pow2_step:
  "prbs31_matrix_pow2 k = A \<Longrightarrow> Suc k = k' \<Longrightarrow> mcomp A A = B \<Longrightarrow> prbs31_matrix_pow2 k' = B"
  by auto

lemma prbs31_matrix_pow2_0:
  "prbs31_matrix_pow2 0 =
     [2, 4, 8, 16, 32, 64, 128, 256, 512, 1024, 2048, 4096, 8192, 16384, 32768, 65536, 131072,
      262144, 524288, 1048576, 2097152, 4194304, 8388608, 16777216, 33554432, 67108864,
      134217728, 268435457, 536870912, 1073741824, 1]"
  unfolding prbs31_matrix_pow2.simps prbs31_matrix_def lfsr31_def prbs31_shift_def prbs31_next_def
  by code_simp

lemma prbs31_matrix_pow2_1:
  "prbs31_matrix_pow2 1 =
     [4, 8, 16, 32, 64, 128, 256, 512, 1024, 2048, 4096, 8192, 16384, 32768, 65536, 131072,
      262144, 524288, 1048576, 2097152, 4194304, 8388608, 16777216, 33554432, 67108864,
      134217728, 268435457, 536870914, 1073741824, 1, 2]"
  by (rule prbs31_matrix_pow2_step [OF prbs31_matrix_pow2_0], simp, code_simp)

lemma prbs31_matrix_pow2_2:
  "prbs31_matrix_pow2 2 =
     [16, 32, 64, 128, 256, 512, 1024, 2048, 4096, 8192, 16384, 32768, 65536, 131072, 262144,
      524288, 1048576, 2097152, 4194304, 8388608, 16777216, 33554432, 67108864, 134217728,
      268435457, 536870914, 1073741828, 9, 2, 4, 8]"
  by (rule prbs31_matrix_pow2_step [OF prbs31_matrix_pow2_1], simp, code_simp)

lemma prbs31_matrix_pow2_3:
  "prbs31_matrix_pow2 3 =
     [256, 512, 1024, 2048, 4096, 8192, 16384, 32768, 65536, 131072, 262144, 524288, 1048576,
      2097152, 4194304, 8388608, 16777216, 33554432, 67108864, 134217728, 268435457,
      536870914, 1073741828, 9, 18, 36, 72, 144, 32, 64, 128]"
  by (rule prbs31_matrix_pow2_step [OF prbs31_matrix_pow2_2], simp, code_simp)

lemma prbs31_matrix_pow2_4:
  "prbs31_matrix_pow2 4 =
     [65536, 131072, 262144, 524288, 1048576, 2097152, 4194304, 8388608, 16777216, 33554432,
      67108864, 134217728, 268435457, 536870914, 1073741828, 9, 18, 36, 72, 144, 288, 576,
      1152, 2304, 4608, 9216, 18432, 36864, 8192, 16384, 32768]"
  by (rule prbs31_matrix_pow2_step [OF prbs31_matrix_pow2_3], simp, code_simp)

lemma prbs31_matrix_pow2_5:
  "prbs31_matrix_pow2 5 =
     [18, 36, 72, 144, 288, 576, 1152, 2304, 4608, 9216, 18432, 36864, 73728, 147456, 294912,
      589824, 1179648, 2359296, 4718592, 9437184, 18874368, 37748736, 75497472, 150994944,
      301989889, 603979778, 1207959556, 268435464, 536870914, 1073741828, 9]"
  by (rule prbs31_matrix_pow2_step [OF prbs31_matrix_pow2_4], simp, code_simp)

lemma prbs31_matrix_pow2_6:
  "prbs31_matrix_pow2 6 =
     [260, 520, 1040, 2080, 4160, 8320, 16640, 33280, 66560, 133120, 266240, 532480, 1064960,
      2129920, 4259840, 8519680, 17039360, 34078720, 68157440, 136314880, 272629761,
      545259522, 1090519044, 33554441, 67108882, 134217764, 268435529, 536871058, 1073741856,
      65, 130]"
  by (rule prbs31_matrix_pow2_step [OF prbs31_matrix_pow2_5], simp, code_simp)

lemma prbs31_matrix_pow2_7:
  "prbs31_matrix_pow2 7 =
     [65552, 131104, 262208, 524416, 1048832, 2097664, 4195328, 8390656, 16781312, 33562624,
      67125248, 134250496, 268500993, 537001986, 1074003972, 524297, 1048594, 2097188,
      4194376, 8388752, 16777504, 33555008, 67110016, 134220032, 268440065, 536880130,
      1073760260, 36873, 8194, 16388, 32776]"
  by (rule prbs31_matrix_pow2_step [OF prbs31_matrix_pow2_6], simp, code_simp)

lemma prbs31_matrix_pow2_8:
  "prbs31_matrix_pow2 8 =
     [274, 548, 1096, 2192, 4384, 8768, 17536, 35072, 70144, 140288, 280576, 561152, 1122304,
      2244608, 4489216, 8978432, 17956864, 35913728, 71827456, 143654912, 287309825,
      574619650, 1149239300, 150994953, 301989907, 603979814, 1207959628, 268435608,
      536870946, 1073741892, 137]"
  by (rule prbs31_matrix_pow2_step [OF prbs31_matrix_pow2_7], simp, code_simp)

lemma prbs31_matrix_pow2_9:
  "prbs31_matrix_pow2 9 =
     [65796, 131592, 263184, 526368, 1052736, 2105472, 4210944, 8421888, 16843776, 33687552,
      67375104, 134750208, 269500417, 539000834, 1078001668, 8519689, 17039378, 34078756,
      68157512, 136315024, 272630049, 545260098, 1090520196, 33556745, 67113490, 134226980,
      268453961, 536907922, 1073750048, 16449, 32898]"
  by (rule prbs31_matrix_pow2_step [OF prbs31_matrix_pow2_8], simp, code_simp)

lemma prbs31_matrix_pow2_10:
  "prbs31_matrix_pow2 10 =
     [65538, 131076, 262152, 524304, 1048608, 2097216, 4194432, 8388864, 16777728, 33555456,
      67110912, 134221824, 268443649, 536887298, 1073774596, 65545, 131090, 262180, 524360,
      1048720, 2097440, 4194880, 8389760, 16779520, 33559040, 67118080, 134236160, 268472321,
      536879104, 1073758208, 32769]"
  by (rule prbs31_matrix_pow2_step [OF prbs31_matrix_pow2_9], simp, code_simp)

lemma prbs31_matrix_pow2_11:
  "prbs31_matrix_pow2 11 =
     [22, 44, 88, 176, 352, 704, 1408, 2816, 5632, 11264, 22528, 45056, 90112, 180224, 360448,
      720896, 1441792, 2883584, 5767168, 11534336, 23068672, 46137344, 92274688, 184549376,
      369098753, 738197506, 1476395013, 805306378, 1610612738, 1073741829, 11]"
  by (rule prbs31_matrix_pow2_step [OF prbs31_matrix_pow2_10], simp, code_simp)

lemma prbs31_matrix_pow2_12:
  "prbs31_matrix_pow2 12 =
     [276, 552, 1104, 2208, 4416, 8832, 17664, 35328, 70656, 141312, 282624, 565248, 1130496,
      2260992, 4521984, 9043968, 18087936, 36175872, 72351744, 144703488, 289406977,
      578813954, 1157627908, 167772169, 335544339, 671088678, 1342177357, 536871067,
      1073741858, 69, 138]"
  by (rule prbs31_matrix_pow2_step [OF prbs31_matrix_pow2_11], simp, code_simp)

lemma prbs31_matrix_pow2_13:
  "prbs31_matrix_pow2 13 =
     [65808, 131616, 263232, 526464, 1052928, 2105856, 4211712, 8423424, 16846848, 33693696,
      67387392, 134774784, 269549569, 539099138, 1078198276, 8912905, 17825810, 35651620,
      71303240, 142606480, 285212961, 570425922, 1140851844, 134220041, 268440083, 536880166,
      1073760332, 37017, 8226, 16452, 32904]"
  by (rule prbs31_matrix_pow2_step [OF prbs31_matrix_pow2_12], simp, code_simp)

lemma prbs31_matrix_pow2_14:
  "prbs31_matrix_pow2 14 =
     [65810, 131620, 263240, 526480, 1052960, 2105920, 4211840, 8423680, 16847360, 33694720,
      67389440, 134778880, 269557761, 539115522, 1078231044, 8978441, 17956882, 35913764,
      71827528, 143655056, 287310113, 574620226, 1149240452, 150997257, 301994515, 603989030,
      1207978060, 268472472, 536879138, 1073758276, 32905]"
  by (rule prbs31_matrix_pow2_step [OF prbs31_matrix_pow2_13], simp, code_simp)

lemma prbs31_matrix_pow2_15:
  "prbs31_matrix_pow2 15 =
     [65814, 131628, 263256, 526512, 1053024, 2106048, 4212096, 8424192, 16848384, 33696768,
      67393536, 134787072, 269574145, 539148290, 1078296580, 9109513, 18219026, 36438052,
      72876104, 145752208, 291504417, 583008834, 1166017668, 184551689, 369103379, 738206758,
      1476413517, 805343386, 1610620962, 1073758277, 32907]"
  by (rule prbs31_matrix_pow2_step [OF prbs31_matrix_pow2_14], simp, code_simp)

lemma prbs31_matrix_pow2_16:
  "prbs31_matrix_pow2 16 =
     [65798, 131596, 263192, 526384, 1052768, 2105536, 4211072, 8422144, 16844288, 33688576,
      67377152, 134754304, 269508609, 539017218, 1078034436, 8585225, 17170450, 34340900,
      68681800, 137363600, 274727201, 549454402, 1098908804, 50333961, 100667922, 201335844,
      402671689, 805343379, 1610620960, 1073758273, 32899]"
  by (rule prbs31_matrix_pow2_step [OF prbs31_matrix_pow2_15], simp, code_simp)

lemma prbs31_matrix_pow2_17:
  "prbs31_matrix_pow2 17 =
     [65542, 131084, 262168, 524336, 1048672, 2097344, 4194688, 8389376, 16778752, 33557504,
      67115008, 134230016, 268460033, 536920066, 1073840132, 196617, 393234, 786468, 1572936,
      3145872, 6291744, 12583488, 25166976, 50333952, 100667904, 201335808, 402671617,
      805343235, 1610620928, 1073758209, 32771]"
  by (rule prbs31_matrix_pow2_step [OF prbs31_matrix_pow2_16], simp, code_simp)

lemma prbs31_matrix_pow2_18:
  "prbs31_matrix_pow2 18 =
     [6, 12, 24, 48, 96, 192, 384, 768, 1536, 3072, 6144, 12288, 24576, 49152, 98304, 196608,
      393216, 786432, 1572864, 3145728, 6291456, 12582912, 25165824, 50331648, 100663296,
      201326592, 402653185, 805306371, 1610612736, 1073741825, 3]"
  by (rule prbs31_matrix_pow2_step [OF prbs31_matrix_pow2_17], simp, code_simp)

lemma prbs31_matrix_pow2_19:
  "prbs31_matrix_pow2 19 =
     [20, 40, 80, 160, 320, 640, 1280, 2560, 5120, 10240, 20480, 40960, 81920, 163840, 327680,
      655360, 1310720, 2621440, 5242880, 10485760, 20971520, 41943040, 83886080, 167772160,
      335544321, 671088642, 1342177285, 536870923, 1073741826, 5, 10]"
  by (rule prbs31_matrix_pow2_step [OF prbs31_matrix_pow2_18], simp, code_simp)

lemma prbs31_matrix_pow2_20:
  "prbs31_matrix_pow2 20 =
     [272, 544, 1088, 2176, 4352, 8704, 17408, 34816, 69632, 139264, 278528, 557056, 1114112,
      2228224, 4456448, 8912896, 17825792, 35651584, 71303168, 142606336, 285212673,
      570425346, 1140850692, 134217737, 268435475, 536870950, 1073741900, 153, 34, 68, 136]"
  by (rule prbs31_matrix_pow2_step [OF prbs31_matrix_pow2_19], simp, code_simp)

lemma prbs31_matrix_pow2_21:
  "prbs31_matrix_pow2 21 =
     [65792, 131584, 263168, 526336, 1052672, 2105344, 4210688, 8421376, 16842752, 33685504,
      67371008, 134742016, 269484033, 538968066, 1077936132, 8388617, 16777234, 33554468,
      67108936, 134217872, 268435745, 536871490, 1073742980, 2313, 4626, 9252, 18504, 37008,
      8224, 16448, 32896]"
  by (rule prbs31_matrix_pow2_step [OF prbs31_matrix_pow2_20], simp, code_simp)

lemma prbs31_matrix_pow2_22:
  "prbs31_matrix_pow2 22 =
     [65554, 131108, 262216, 524432, 1048864, 2097728, 4195456, 8390912, 16781824, 33563648,
      67127296, 134254592, 268509185, 537018370, 1074036740, 589833, 1179666, 2359332,
      4718664, 9437328, 18874656, 37749312, 75498624, 150997248, 301994497, 603988994,
      1207977988, 268472328, 536879106, 1073758212, 32777]"
  by (rule prbs31_matrix_pow2_step [OF prbs31_matrix_pow2_21], simp, code_simp)

lemma prbs31_matrix_pow2_23:
  "prbs31_matrix_pow2 23 =
     [278, 556, 1112, 2224, 4448, 8896, 17792, 35584, 71168, 142336, 284672, 569344, 1138688,
      2277376, 4554752, 9109504, 18219008, 36438016, 72876032, 145752064, 291504129,
      583008258, 1166016516, 184549385, 369098771, 738197542, 1476395085, 805306522,
      1610612770, 1073741893, 139]"
  by (rule prbs31_matrix_pow2_step [OF prbs31_matrix_pow2_22], simp, code_simp)

lemma prbs31_matrix_pow2_24:
  "prbs31_matrix_pow2 24 =
     [65812, 131624, 263248, 526496, 1052992, 2105984, 4211968, 8423936, 16847872, 33695744,
      67391488, 134782976, 269565953, 539131906, 1078263812, 9043977, 18087954, 36175908,
      72351816, 144703632, 289407265, 578814530, 1157629060, 167774473, 335548947, 671097894,
      1342195789, 536907931, 1073750050, 16453, 32906]"
  by (rule prbs31_matrix_pow2_step [OF prbs31_matrix_pow2_23], simp, code_simp)

lemma prbs31_matrix_pow2_25:
  "prbs31_matrix_pow2 25 =
     [65794, 131588, 263176, 526352, 1052704, 2105408, 4210816, 8421632, 16843264, 33686528,
      67373056, 134746112, 269492225, 538984450, 1077968900, 8454153, 16908306, 33816612,
      67633224, 135266448, 270532897, 541065794, 1082131588, 16779529, 33559058, 67118116,
      134236232, 268472465, 536879136, 1073758272, 32897]"
  by (rule prbs31_matrix_pow2_step [OF prbs31_matrix_pow2_24], simp, code_simp)

lemma prbs31_matrix_pow2_26:
  "prbs31_matrix_pow2 26 =
     [65558, 131116, 262232, 524464, 1048928, 2097856, 4195712, 8391424, 16782848, 33565696,
      67131392, 134262784, 268525569, 537051138, 1074102276, 720905, 1441810, 2883620,
      5767240, 11534480, 23068960, 46137920, 92275840, 184551680, 369103361, 738206722,
      1476413445, 805343242, 1610620930, 1073758213, 32779]"
  by (rule prbs31_matrix_pow2_step [OF prbs31_matrix_pow2_25], simp, code_simp)

lemma prbs31_matrix_pow2_27:
  "prbs31_matrix_pow2 27 =
     [262, 524, 1048, 2096, 4192, 8384, 16768, 33536, 67072, 134144, 268288, 536576, 1073152,
      2146304, 4292608, 8585216, 17170432, 34340864, 68681728, 137363456, 274726913,
      549453826, 1098907652, 50331657, 100663314, 201326628, 402653257, 805306515, 1610612768,
      1073741889, 131]"
  by (rule prbs31_matrix_pow2_step [OF prbs31_matrix_pow2_26], simp, code_simp)

lemma prbs31_matrix_pow2_28:
  "prbs31_matrix_pow2 28 =
     [65556, 131112, 262224, 524448, 1048896, 2097792, 4195584, 8391168, 16782336, 33564672,
      67129344, 134258688, 268517377, 537034754, 1074069508, 655369, 1310738, 2621476,
      5242952, 10485904, 20971808, 41943616, 83887232, 167774464, 335548929, 671097858,
      1342195717, 536907787, 1073750018, 16389, 32778]"
  by (rule prbs31_matrix_pow2_step [OF prbs31_matrix_pow2_27], simp, code_simp)

lemma prbs31_matrix_pow2_29:
  "prbs31_matrix_pow2 29 =
     [258, 516, 1032, 2064, 4128, 8256, 16512, 33024, 66048, 132096, 264192, 528384, 1056768,
      2113536, 4227072, 8454144, 16908288, 33816576, 67633152, 135266304, 270532609,
      541065218, 1082130436, 16777225, 33554450, 67108900, 134217800, 268435601, 536870944,
      1073741888, 129]"
  by (rule prbs31_matrix_pow2_step [OF prbs31_matrix_pow2_28], simp, code_simp)

lemma prbs31_matrix_pow2_30:
  "prbs31_matrix_pow2 30 =
     [65540, 131080, 262160, 524320, 1048640, 2097280, 4194560, 8389120, 16778240, 33556480,
      67112960, 134225920, 268451841, 536903682, 1073807364, 131081, 262162, 524324, 1048648,
      2097296, 4194592, 8389184, 16778368, 33556736, 67113472, 134226944, 268453889,
      536907778, 1073750016, 16385, 32770]"
  by (rule prbs31_matrix_pow2_step [OF prbs31_matrix_pow2_29], simp, code_simp)

lemma prbs31_matrix_pow2_31:
  "prbs31_matrix_pow2 31 =
     [2, 4, 8, 16, 32, 64, 128, 256, 512, 1024, 2048, 4096, 8192, 16384, 32768, 65536, 131072,
      262144, 524288, 1048576, 2097152, 4194304, 8388608, 16777216, 33554432, 67108864,
      134217728, 268435457, 536870912, 1073741824, 1]"
  by (rule prbs31_matrix_pow2_step [OF prbs31_matrix_pow2_30], simp, code_simp)

subsection \<open>Powers modulo a number\<close>

lemma powmod_0: "powmod a 0 n = 1 mod n"
  by (subst powmod.simps) simp

lemma powmod_even: "0 < e \<Longrightarrow> even e \<Longrightarrow> powmod a e n = sqmod (powmod a (e div 2) n) n"
  by (subst powmod.simps) (simp add: Let_def sqmod_def)

lemma powmod_odd: "odd e \<Longrightarrow> powmod a e n = sqmod (powmod a (e div 2) n) n * a mod n"
  by (subst powmod.simps) (auto simp: Let_def sqmod_def)

lemma powmod_eq: "powmod a e n = a ^ e mod n"
proof (induction a e n rule: powmod.induct)
  case (1 a e n)
  show ?case
  proof (cases "e = 0")
    case True
    then show ?thesis by (simp add: powmod_0)
  next
    case False
    then have IH: "powmod a (e div 2) n = a ^ (e div 2) mod n"
      using "1.IH" by simp
    have sq: "a ^ (e div 2) mod n * (a ^ (e div 2) mod n) mod n = a ^ (2 * (e div 2)) mod n"
      by (simp add: mod_mult_eq power_add [symmetric] mult_2)
    show ?thesis
    proof (cases "even e")
      case True
      then have "2 * (e div 2) = e" by simp
      with False True IH sq show ?thesis by (simp add: powmod_even sqmod_def)
    next
      case False
      then have e: "e = Suc (2 * (e div 2))" by presburger
      have "powmod a e n = a ^ (2 * (e div 2)) mod n * a mod n"
        using False IH sq by (simp add: powmod_odd sqmod_def)
      also have "\<dots> = a ^ (2 * (e div 2)) * a mod n"
        by (simp add: mod_mult_left_eq)
      also have "\<dots> = a ^ Suc (2 * (e div 2)) mod n"
        by (simp add: mult.commute)
      finally show ?thesis using e by simp
    qed
  qed
qed


subsection \<open>Periods of an iterated function\<close>

lemma funpow_period_mult: "(f ^^ d) x = x \<Longrightarrow> (f ^^ (d * q)) x = x"
proof (induction q)
  case 0
  show ?case by simp
next
  case (Suc q)
  have "d * Suc q = d + d * q" by simp
  then have "(f ^^ (d * Suc q)) x = (f ^^ d) ((f ^^ (d * q)) x)"
    by (simp only: funpow_add o_apply)
  with Suc show ?case by simp
qed

lemma least_period_dvd:
  assumes n: "(f ^^ n) x = x" and k: "0 < k" "(f ^^ k) x = x"
  defines "d \<equiv> LEAST j. 0 < j \<and> (f ^^ j) x = x"
  shows "0 < d \<and> (f ^^ d) x = x \<and> d \<le> k \<and> d dvd n"
proof -
  have kk: "0 < k \<and> (f ^^ k) x = x" using k by (rule conjI)
  have d: "0 < d \<and> (f ^^ d) x = x"
    unfolding d_def using kk by (rule LeastI)
  have le: "d \<le> k"
    unfolding d_def using kk by (rule Least_le)
  have dx: "(f ^^ (d * (n div d))) x = x"
    using d by (intro funpow_period_mult) (rule conjunct2)
  have "n = n mod d + d * (n div d)" by simp
  then have "(f ^^ n) x = (f ^^ (n mod d + d * (n div d))) x" by (rule arg_cong)
  also have "\<dots> = (f ^^ (n mod d)) ((f ^^ (d * (n div d))) x)"
    by (simp only: funpow_add o_apply)
  also have "\<dots> = (f ^^ (n mod d)) x"
    by (rule arg_cong [OF dx])
  finally have "(f ^^ n) x = (f ^^ (n mod d)) x" .
  from this n have r: "(f ^^ (n mod d)) x = x" by (rule trans [OF sym])
  have "n mod d = 0"
  proof (rule ccontr)
    assume "n mod d \<noteq> 0"
    then have "0 < n mod d" by arith
    then have "0 < n mod d \<and> (f ^^ (n mod d)) x = x" using r by (rule conjI)
    then have "d \<le> n mod d" unfolding d_def by (rule Least_le)
    moreover have "n mod d < d" using d by simp
    ultimately show False by arith
  qed
  then have "d dvd n" by (rule dvd_eq_mod_eq_0 [THEN iffD2])
  with d le show ?thesis by blast
qed

lemma exact_period:
  assumes n: "(f ^^ n) x = x"
    and proper: "\<And>d. d dvd n \<Longrightarrow> 0 < d \<Longrightarrow> d < n \<Longrightarrow> (f ^^ d) x \<noteq> x"
    and k: "0 < k" "k < n"
  shows "(f ^^ k) x \<noteq> x"
proof
  assume "(f ^^ k) x = x"
  from least_period_dvd [OF n k(1) this]
  obtain d where d: "0 < d" "(f ^^ d) x = x" "d \<le> k" "d dvd n" by blast
  from d(3) k(2) have "d < n" by arith
  with d(4,1) have "(f ^^ d) x \<noteq> x" by (rule proper)
  with d(2) show False by (rule notE [rotated])
qed

lemma funpow_distinct:
  assumes n: "(f ^^ n) x = x"
    and exact: "\<And>k. 0 < k \<Longrightarrow> k < n \<Longrightarrow> (f ^^ k) x \<noteq> x"
    and ij: "i < j" "j < n"
  shows "(f ^^ i) x \<noteq> (f ^^ j) x"
proof
  assume e: "(f ^^ i) x = (f ^^ j) x"
  have nj: "n - j + j = n" using ij by simp
  have "(f ^^ (n - j + i)) x = (f ^^ (n - j)) ((f ^^ i) x)"
    by (simp only: funpow_add o_apply)
  also have "\<dots> = (f ^^ (n - j)) ((f ^^ j) x)" by (rule arg_cong [OF e])
  also have "\<dots> = (f ^^ (n - j + j)) x" by (simp only: funpow_add o_apply)
  also have "\<dots> = (f ^^ n) x" by (rule arg_cong [OF nj, of "\<lambda>m. (f ^^ m) x"])
  also have "\<dots> = x" by (rule n)
  finally have p: "(f ^^ (n - j + i)) x = x" .
  have "0 < n - j + i" "n - j + i < n" using ij by arith+
  then have "(f ^^ (n - j + i)) x \<noteq> x" by (rule exact)
  with p show False by (rule notE [rotated])
qed

subsection \<open>Divisors\<close>

lemma prime_like_dvd_mult:
  assumes "prime_like q" "e dvd q * m"
  shows "q dvd e \<or> e dvd m"
proof -
  have "gcd e q dvd q" by simp
  with assms(1) have "gcd e q = 1 \<or> gcd e q = q" by (simp add: prime_like_def)
  then show ?thesis
  proof
    assume "gcd e q = 1"
    then have "coprime e q" by (simp add: coprime_iff_gcd_eq_1)
    with assms(2) have "e dvd m" by (simp add: coprime_dvd_mult_right_iff)
    then show ?thesis ..
  next
    assume "gcd e q = q"
    then have "q dvd e" by (metis gcd_dvd1)
    then show ?thesis ..
  qed
qed

lemma dvd_prod_list_prime_like:
  assumes "\<forall>q\<in>set qs. prime_like q" "e dvd prod_list qs"
  shows "e = 1 \<or> (\<exists>q\<in>set qs. q dvd e)"
  using assms
proof (induction qs)
  case Nil
  then show ?case by simp
next
  case (Cons q qs)
  then have "q dvd e \<or> e dvd prod_list qs"
    using prime_like_dvd_mult [of q e "prod_list qs"] by simp
  with Cons show ?case by auto
qed

lemma proper_divisor_cofactor:
  assumes qs: "\<forall>q\<in>set qs. prime_like q" and n: "n = prod_list qs" "0 < n"
    and d: "d dvd n" "d < n"
  shows "\<exists>q\<in>set qs. d dvd n div q"
proof -
  from d obtain e where e: "n = d * e" by (auto simp: dvd_def)
  with d n have "e \<noteq> 1" by auto
  moreover have "e dvd prod_list qs" using e n by simp
  ultimately obtain q where q: "q \<in> set qs" "q dvd e"
    using dvd_prod_list_prime_like [OF qs] by blast
  then obtain t where t: "e = q * t" by (auto simp: dvd_def)
  from q qs have "0 < q" by (auto simp: prime_like_def)
  then have "n div q = d * t" using e t by simp
  then have "d dvd n div q" by simp
  with q show ?thesis by blast
qed

subsection \<open>The Lucas test\<close>

lemma funpow_mult_mod: "1 < n \<Longrightarrow> ((\<lambda>x. x * a mod n) ^^ k) 1 = a ^ k mod (n::nat)"
proof (induction k)
  case 0
  then show ?case by simp
next
  case (Suc k)
  then have "((\<lambda>x. x * a mod n) ^^ Suc k) 1 = (a ^ k mod n) * a mod n" by simp
  also have "\<dots> = a ^ k * a mod n" by (rule mod_mult_left_eq)
  finally show ?case by (simp add: mult.commute)
qed

lemma lucas_prime:
  fixes n a :: nat
  assumes n: "1 < n"
    and one: "a ^ (n - 1) mod n = 1"
    and exact: "\<And>k. 0 < k \<Longrightarrow> k < n - 1 \<Longrightarrow> a ^ k mod n \<noteq> 1"
  shows "prime_like n"
proof -
  let ?f = "\<lambda>x. x * a mod n"
  let ?g = "\<lambda>k. a ^ k mod n"
  have g: "(?f ^^ k) 1 = ?g k" for k
    using n by (rule funpow_mult_mod)
  have inj: "inj_on ?g {0..<n - 1}"
  proof (rule linorder_inj_onI)
    fix i j assume "i < j" "i \<in> {0..<n - 1}" "j \<in> {0..<n - 1}"
    then have ij: "i < j" "j < n - 1" by simp_all
    have "(?f ^^ (n - 1)) 1 = 1" by (simp only: g one)
    moreover have "(?f ^^ k) 1 \<noteq> 1" if "0 < k" "k < n - 1" for k
      using exact [OF that] by (simp only: g not_False_eq_True)
    ultimately have "(?f ^^ i) 1 \<noteq> (?f ^^ j) 1"
      using ij by (rule funpow_distinct)
    then show "?g i \<noteq> ?g j" unfolding g .
  qed auto
  have unit: "?g k * ?g (n - 1 - k) mod n = 1" if "k \<le> n - 1" for k
  proof -
    have "?g k * ?g (n - 1 - k) mod n = a ^ (k + (n - 1 - k)) mod n"
      by (simp add: mod_mult_eq power_add)
    moreover have "k + (n - 1 - k) = n - 1" using that by simp
    ultimately show ?thesis using one by (simp only:)
  qed
  have nz: "?g k \<noteq> 0" if "k \<le> n - 1" for k
    using unit [OF that] by (cases "?g k = 0") simp_all
  have sub: "?g ` {0..<n - 1} \<subseteq> {1..<n}"
  proof
    fix y assume "y \<in> ?g ` {0..<n - 1}"
    then obtain k where k: "k < n - 1" "y = ?g k" by auto
    then have "y \<noteq> 0" using nz [of k] by simp
    moreover have "y < n" using k n by simp
    ultimately show "y \<in> {1..<n}" by simp
  qed
  have "card (?g ` {0..<n - 1}) = n - 1"
    using inj by (simp add: card_image)
  then have img: "?g ` {0..<n - 1} = {1..<n}"
    using sub by (intro card_subset_eq) simp_all
  have "d = 1 \<or> d = n" if "d dvd n" for d
  proof (rule ccontr)
    assume c: "\<not> (d = 1 \<or> d = n)"
    from that n have "0 < d" "d \<le> n" by (auto intro: dvd_imp_le Nat.gr0I)
    with c have "d \<in> {1..<n}" by simp
    with img have "d \<in> ?g ` {0..<n - 1}" by (simp only:)
    then obtain k where k: "k < n - 1" "d = ?g k" by (auto simp only: image_iff atLeastLessThan_iff)
    have "d dvd ?g k * ?g (n - 1 - k)" using k by simp
    with that have "d dvd ?g k * ?g (n - 1 - k) mod n"
      by (simp add: dvd_mod)
    then have "d dvd 1" using unit [of k] k by simp
    with c show False by simp
  qed
  with n show ?thesis by (simp add: prime_like_def)
qed

subsection \<open>The prime \<open>2 ^ 31 - 1\<close>\<close>

lemma prime_like_by_trial:
  assumes p: "1 < p" and trial: "\<And>d. 2 \<le> d \<Longrightarrow> d * d \<le> p \<Longrightarrow> \<not> d dvd p"
  shows "prime_like p"
proof -
  have "d = 1 \<or> d = p" if "d dvd p" for d
  proof (rule ccontr)
    assume c: "\<not> (d = 1 \<or> d = p)"
    from that obtain e where e: "p = d * e" by (auto simp: dvd_def)
    with p c have d2: "2 \<le> d" and e2: "2 \<le> e"
      by (cases d; cases e; auto)+
    show False
    proof (cases "d \<le> e")
      case True
      then have "d * d \<le> p" using e by simp
      with trial [OF d2] that show False by simp
    next
      case False
      then have "e * e \<le> p" using e by (simp add: mult.commute)
      moreover have "e dvd p" using e by simp
      ultimately show False using trial [OF e2] by simp
    qed
  qed
  with p show ?thesis by (simp add: prime_like_def)
qed

lemma trial_bound:
  assumes "\<forall>d\<in>{2..<b}. \<not> d dvd p" "p < b * b"
  shows "2 \<le> d \<Longrightarrow> d * d \<le> p \<Longrightarrow> \<not> d dvd (p::nat)"
proof -
  assume d: "2 \<le> d" "d * d \<le> p"
  have "d < b"
  proof (rule ccontr)
    assume "\<not> d < b"
    then have "b * b \<le> d * d" by (simp add: mult_le_mono)
    with d assms(2) show False by simp
  qed
  with d assms(1) show ?thesis by simp
qed

lemma no_small_divisor_2: "\<forall>d\<in>{2..<2::nat}. \<not> d dvd 2"
  by code_simp

lemma prime_like_2: "prime_like 2"
proof (rule prime_like_by_trial)
  show "1 < (2::nat)" by simp
  show "\<not> d dvd (2::nat)" if "2 \<le> d" "d * d \<le> 2" for d
    using no_small_divisor_2 _ that by (rule trial_bound) simp
qed

lemma no_small_divisor_3: "\<forall>d\<in>{2..<2::nat}. \<not> d dvd 3"
  by code_simp

lemma prime_like_3: "prime_like 3"
proof (rule prime_like_by_trial)
  show "1 < (3::nat)" by simp
  show "\<not> d dvd (3::nat)" if "2 \<le> d" "d * d \<le> 3" for d
    using no_small_divisor_3 _ that by (rule trial_bound) simp
qed

lemma no_small_divisor_7: "\<forall>d\<in>{2..<3::nat}. \<not> d dvd 7"
  by code_simp

lemma prime_like_7: "prime_like 7"
proof (rule prime_like_by_trial)
  show "1 < (7::nat)" by simp
  show "\<not> d dvd (7::nat)" if "2 \<le> d" "d * d \<le> 7" for d
    using no_small_divisor_7 _ that by (rule trial_bound) simp
qed

lemma no_small_divisor_11: "\<forall>d\<in>{2..<4::nat}. \<not> d dvd 11"
  by code_simp

lemma prime_like_11: "prime_like 11"
proof (rule prime_like_by_trial)
  show "1 < (11::nat)" by simp
  show "\<not> d dvd (11::nat)" if "2 \<le> d" "d * d \<le> 11" for d
    using no_small_divisor_11 _ that by (rule trial_bound) simp
qed

lemma no_small_divisor_31: "\<forall>d\<in>{2..<6::nat}. \<not> d dvd 31"
  by code_simp

lemma prime_like_31: "prime_like 31"
proof (rule prime_like_by_trial)
  show "1 < (31::nat)" by simp
  show "\<not> d dvd (31::nat)" if "2 \<le> d" "d * d \<le> 31" for d
    using no_small_divisor_31 _ that by (rule trial_bound) simp
qed

lemma no_small_divisor_151: "\<forall>d\<in>{2..<13::nat}. \<not> d dvd 151"
  by code_simp

lemma prime_like_151: "prime_like 151"
proof (rule prime_like_by_trial)
  show "1 < (151::nat)" by simp
  show "\<not> d dvd (151::nat)" if "2 \<le> d" "d * d \<le> 151" for d
    using no_small_divisor_151 _ that by (rule trial_bound) simp
qed

lemma no_small_divisor_331: "\<forall>d\<in>{2..<19::nat}. \<not> d dvd 331"
  by code_simp

lemma prime_like_331: "prime_like 331"
proof (rule prime_like_by_trial)
  show "1 < (331::nat)" by simp
  show "\<not> d dvd (331::nat)" if "2 \<le> d" "d * d \<le> 331" for d
    using no_small_divisor_331 _ that by (rule trial_bound) simp
qed

lemma lucas_prime_powmod:
  assumes "1 < n" "Suc m = n" "powmod a m n = 1"
    and "\<And>k. 0 < k \<Longrightarrow> k < m \<Longrightarrow> powmod a k n \<noteq> 1"
  shows "prime_like n"
proof (rule lucas_prime)
  from assms(2) have m: "n - 1 = m" by arith
  show "1 < n" by (rule assms(1))
  show "a ^ (n - 1) mod n = 1"
    unfolding m powmod_eq [symmetric] by (rule assms(3))
  show "a ^ k mod n \<noteq> 1" if "0 < k" "k < n - 1" for k
    using that unfolding m powmod_eq [symmetric] by (rule assms(4))
qed

lemma prime_like_factors:
  "\<forall>q\<in>set [2, 3, 3, 7, 11, 31, 151, 331 :: nat]. prime_like q"
  by (simp add: prime_like_2 prime_like_3 prime_like_7 prime_like_11 prime_like_31
      prime_like_151 prime_like_331)

lemma mersenne31_pred_factors:
  "(2147483646::nat) = prod_list [2, 3, 3, 7, 11, 31, 151, 331]"
  by simp

lemma powmod_7_order:
  "powmod 7 2147483646 2147483647 = 1"
  "powmod 7 1073741823 2147483647 \<noteq> 1"
  "powmod 7 715827882 2147483647 \<noteq> 1"
  "powmod 7 306783378 2147483647 \<noteq> 1"
  "powmod 7 195225786 2147483647 \<noteq> 1"
  "powmod 7 69273666 2147483647 \<noteq> 1"
  "powmod 7 14221746 2147483647 \<noteq> 1"
  "powmod 7 6487866 2147483647 \<noteq> 1"
  by (simp_all add: powmod_0 powmod_even powmod_odd sqmod_def)

lemma funpow_mult_powmod:
  "1 < n \<Longrightarrow> ((\<lambda>x. x * a mod n) ^^ k) 1 = powmod a k n"
  unfolding powmod_eq by (rule funpow_mult_mod)

lemma powmod_7_exact:
  assumes "0 < k" "k < 2147483646"
  shows "powmod 7 k 2147483647 \<noteq> 1"
proof -
  let ?f = "\<lambda>x::nat. x * 7 mod 2147483647"
  have g: "(?f ^^ k) 1 = powmod 7 k 2147483647" for k
    by (rule funpow_mult_powmod) simp
  have n: "(?f ^^ 2147483646) 1 = 1"
    unfolding g by (rule powmod_7_order(1))
  have proper: "(?f ^^ d) 1 \<noteq> 1" if d: "d dvd 2147483646" "0 < d" "d < 2147483646" for d
  proof
    assume p: "(?f ^^ d) 1 = 1"
    have "\<exists>q\<in>set [2, 3, 3, 7, 11, 31, 151, 331 :: nat]. d dvd 2147483646 div q"
      using prime_like_factors mersenne31_pred_factors _ d(1,3)
      by (rule proper_divisor_cofactor) simp
    then obtain q where q: "q \<in> set [2, 3, 3, 7, 11, 31, 151, 331 :: nat]"
      and dq: "d dvd 2147483646 div q"
      by blast
    from dq obtain t where t: "2147483646 div q = d * t" by (auto simp: dvd_def)
    have "(?f ^^ (d * t)) 1 = 1" using p by (rule funpow_period_mult)
    then have "powmod 7 (2147483646 div q) 2147483647 = 1"
      unfolding g t .
    with q powmod_7_order(2-8) show False
      by auto
  qed
  have "(?f ^^ k) 1 \<noteq> 1"
    using n proper assms by (rule exact_period)
  then show ?thesis unfolding g .
qed

lemma prime_like_mersenne31: "prime_like 2147483647"
proof (rule lucas_prime_powmod)
  show "1 < (2147483647::nat)" by simp
  show "Suc 2147483646 = 2147483647" by simp
  show "powmod 7 2147483646 2147483647 = 1" by (rule powmod_7_order(1))
  show "powmod 7 k 2147483647 \<noteq> 1" if "0 < k" "k < 2147483646" for k
    using that by (rule powmod_7_exact)
qed

subsection \<open>The period of the register and of the bits\<close>

lemma mapply_prbs31_matrix: "mapply prbs31_matrix s = lfsr31 s"
proof -
  have "mapply prbs31_matrix s = lfsr31 (take_bit 31 s)"
    unfolding prbs31_matrix_def by (rule mapply_columns) (rule lfsr31_xor)
  then show ?thesis by (simp only: lfsr31_take_bit)
qed

lemma mapply_prbs31_matrix_pow2: "mapply (prbs31_matrix_pow2 k) s = (lfsr31 ^^ (2 ^ k)) s"
proof (induction k arbitrary: s)
  case 0
  show ?case by (simp add: mapply_prbs31_matrix)
next
  case (Suc k)
  have "mapply (prbs31_matrix_pow2 (Suc k)) s
      = mapply (prbs31_matrix_pow2 k) (mapply (prbs31_matrix_pow2 k) s)"
    by (simp only: prbs31_matrix_pow2.simps mapply_mcomp)
  also have "\<dots> = (lfsr31 ^^ (2 ^ k)) ((lfsr31 ^^ (2 ^ k)) s)"
    by (simp only: Suc.IH)
  also have "\<dots> = (lfsr31 ^^ (2 ^ k + 2 ^ k)) s"
    by (simp only: funpow_add o_apply)
  also have "2 ^ k + 2 ^ k = (2::nat) ^ Suc k" by simp
  finally show ?case .
qed

lemma lfsr31_pow_2_31: "(lfsr31 ^^ (2 ^ 31)) s = lfsr31 s"
proof -
  have "prbs31_matrix_pow2 31 = prbs31_matrix_pow2 0"
    by (simp only: prbs31_matrix_pow2_31 prbs31_matrix_pow2_0)
  then have "mapply (prbs31_matrix_pow2 31) s = mapply (prbs31_matrix_pow2 0) s"
    by (rule arg_cong)
  then have "(lfsr31 ^^ (2 ^ 31)) s = (lfsr31 ^^ (2 ^ 0)) s"
    by (simp only: mapply_prbs31_matrix_pow2)
  then show ?thesis by simp
qed

lemma Suc_mersenne31: "Suc mersenne31 = 2 ^ 31"
  by (simp add: mersenne31_def)

lemma take_bit_lfsr31_funpow: "take_bit 31 s = s \<Longrightarrow> take_bit 31 ((lfsr31 ^^ n) s) = (lfsr31 ^^ n) s"
  by (cases n) (simp_all add: take_bit_lfsr31)

lemma lfsr31_period:
  assumes "take_bit 31 s = s"
  shows "(lfsr31 ^^ mersenne31) s = s"
proof -
  have "lfsr31 ((lfsr31 ^^ mersenne31) s) = (lfsr31 ^^ Suc mersenne31) s" by simp
  also have "\<dots> = lfsr31 s" by (simp only: Suc_mersenne31 lfsr31_pow_2_31)
  finally have "take_bit 31 ((lfsr31 ^^ mersenne31) s) = take_bit 31 s"
    by (rule lfsr31_inj)
  then show ?thesis
    by (simp only: take_bit_lfsr31_funpow [OF assms] assms)
qed

lemma lfsr31_exact_period:
  assumes s: "take_bit 31 s = s" "s \<noteq> 0" and k: "0 < k" "k < mersenne31"
  shows "(lfsr31 ^^ k) s \<noteq> s"
proof -
  have proper: "(lfsr31 ^^ d) s \<noteq> s" if d: "d dvd mersenne31" "0 < d" "d < mersenne31" for d
  proof -
    from prime_like_mersenne31 d(1) have "d = 1 \<or> d = mersenne31"
      by (simp add: prime_like_def mersenne31_def)
    with d(3) have "d = 1" by simp
    moreover have "lfsr31 s \<noteq> s" using lfsr31_fixed_point [of s] s(2) by blast
    ultimately show ?thesis by simp
  qed
  show ?thesis
    using lfsr31_period [OF s(1)] proper k by (rule exact_period)
qed

lemma prbs31_bits_lfsr31:
  "prbs31_bits prbs0 n = bit ((lfsr31 ^^ Suc n) (take_bit 31 prbs0)) 0"
proof -
  let ?x = "(prbs31_shift ^^ n) prbs0"
  have "prbs31_bits prbs0 n = (bit ?x 30 \<noteq> bit ?x 27)"
    unfolding prbs31_bits_def by (rule prbs31_next_ne_0)
  also have "\<dots> = bit (lfsr31 ?x) 0" by (simp only: bit_lfsr31_0)
  also have "lfsr31 ?x = lfsr31 (take_bit 31 ?x)" by (simp only: lfsr31_take_bit)
  also have "\<dots> = (lfsr31 ^^ Suc n) (take_bit 31 prbs0)"
    by (simp only: take_bit_prbs31_shift_funpow funpow.simps o_apply)
  finally show ?thesis .
qed

lemma bit_lfsr31_history:
  "j \<le> 30 \<Longrightarrow> bit ((lfsr31 ^^ (Suc n + j)) s) j = bit ((lfsr31 ^^ Suc n) s) 0"
proof (induction j)
  case 0
  show ?case by simp
next
  case (Suc j)
  then have j: "j < 30" by simp
  have "bit ((lfsr31 ^^ (Suc n + Suc j)) s) (Suc j) = bit (lfsr31 ((lfsr31 ^^ (Suc n + j)) s)) (Suc j)"
    by simp
  also have "\<dots> = bit ((lfsr31 ^^ (Suc n + j)) s) j"
    using j by (simp only: bit_lfsr31_Suc simp_thms)
  also have "\<dots> = bit ((lfsr31 ^^ Suc n) s) 0"
    using Suc.IH j by simp
  finally show ?case .
qed

lemma bit_lfsr31_high: "31 \<le> j \<Longrightarrow> \<not> bit (lfsr31 a) j"
proof -
  assume "31 \<le> j"
  then obtain i where "j = Suc i" "30 \<le> i" by (cases j) auto
  then show ?thesis by (simp add: bit_lfsr31_Suc)
qed

lemma lfsr31_funpow_0: "(lfsr31 ^^ n) 0 = 0"
proof (induction n)
  case 0
  show ?case by simp
next
  case (Suc n)
  have "lfsr31 0 = 0"
    by (rule bit_eqI) (simp add: lfsr31_def prbs31_shift_def prbs31_next_def)
  with Suc show ?case by simp
qed

lemma prbs31_bits_periodic:
  "prbs31_bits prbs0 (n + mersenne31) = prbs31_bits prbs0 n"
proof -
  let ?s = "take_bit 31 prbs0"
  have "(lfsr31 ^^ Suc (n + mersenne31)) ?s = (lfsr31 ^^ Suc n) ((lfsr31 ^^ mersenne31) ?s)"
    by (simp only: add_Suc [symmetric] funpow_add o_apply)
  also have "\<dots> = (lfsr31 ^^ Suc n) ?s"
    by (simp only: lfsr31_period take_bit_take_bit min.idem)
  finally show ?thesis by (simp only: prbs31_bits_lfsr31)
qed

lemma prbs31_bits_no_shorter_period:
  assumes s: "take_bit 31 prbs0 \<noteq> 0" and k: "0 < k" "k < mersenne31"
  shows "\<exists>n. prbs31_bits prbs0 (n + k) \<noteq> prbs31_bits prbs0 n"
proof (rule ccontr)
  assume "\<not> (\<exists>n. prbs31_bits prbs0 (n + k) \<noteq> prbs31_bits prbs0 n)"
  then have per: "prbs31_bits prbs0 (n + k) = prbs31_bits prbs0 n" for n by blast
  let ?s = "take_bit 31 prbs0"
  let ?u = "(lfsr31 ^^ 31) ?s"
  have ts: "take_bit 31 ?s = ?s" by simp
  have tu: "take_bit 31 ?u = ?u" using ts by (rule take_bit_lfsr31_funpow)
  have bu: "bit ?u j = prbs31_bits prbs0 (30 - j)" if "j \<le> 30" for j
  proof -
    have "Suc (30 - j) + j = 31" using that by simp
    with bit_lfsr31_history [OF that, of "30 - j" ?s] show ?thesis
      by (simp only: prbs31_bits_lfsr31)
  qed
  have bv: "bit ((lfsr31 ^^ (31 + k)) ?s) j = prbs31_bits prbs0 (30 - j + k)" if "j \<le> 30" for j
  proof -
    have "Suc (30 - j + k) + j = 31 + k" using that by simp
    with bit_lfsr31_history [OF that, of "30 - j + k" ?s] show ?thesis
      by (simp only: prbs31_bits_lfsr31)
  qed
  have "(lfsr31 ^^ (31 + k)) ?s = ?u"
  proof (rule bit_eqI)
    fix j
    show "bit ((lfsr31 ^^ (31 + k)) ?s) j = bit ?u j"
    proof (cases "j \<le> 30")
      case True
      then show ?thesis by (simp only: bu bv per)
    next
      case False
      then have j: "31 \<le> j" by simp
      have "(lfsr31 ^^ (31 + k)) ?s = lfsr31 ((lfsr31 ^^ (30 + k)) ?s)" "?u = lfsr31 ((lfsr31 ^^ 30) ?s)"
        by (simp_all add: numeral_eq_Suc)
      then show ?thesis using bit_lfsr31_high [OF j] by simp
    qed
  qed
  moreover have "(lfsr31 ^^ (31 + k)) ?s = (lfsr31 ^^ k) ?u"
    by (simp only: add.commute [of 31 k] funpow_add o_apply)
  ultimately have fx: "(lfsr31 ^^ k) ?u = ?u" by simp
  have "?u \<noteq> 0"
  proof
    assume z: "?u = 0"
    have "31 \<le> mersenne31" by (simp add: mersenne31_def)
    then have "mersenne31 = (mersenne31 - 31) + 31" by simp
    then have "(lfsr31 ^^ mersenne31) ?s = (lfsr31 ^^ (mersenne31 - 31 + 31)) ?s" by simp
    also have "\<dots> = (lfsr31 ^^ (mersenne31 - 31)) ?u"
      by (simp only: funpow_add o_apply)
    also have "\<dots> = 0" by (simp only: z lfsr31_funpow_0)
    finally have "?s = 0" by (simp only: lfsr31_period [OF ts])
    with s show False by simp
  qed
  with tu k have "(lfsr31 ^^ k) ?u \<noteq> ?u" by (intro lfsr31_exact_period)
  with fx show False by simp
qed

lemma take_bit_31_rand:
  assumes "0 < r" "r < 2 ^ 31"
  shows "take_bit 31 (word_of_int r :: 32 word) \<noteq> 0"
proof -
  have "take_bit 31 (word_of_int r :: 32 word) = word_of_int (take_bit 31 r)"
    by (rule bit_eqI) (auto simp: bit_take_bit_iff bit_word_of_int_iff)
  also have "take_bit 31 r = r" using assms by (simp add: take_bit_int_eq_self)
  finally have e: "take_bit 31 (word_of_int r :: 32 word) = word_of_int r" .
  have "r < 2 ^ 32" using assms(2) by simp
  with assms(1) have "\<not> 2 ^ 32 dvd r" by (rule zdvd_not_zless)
  then have "(word_of_int r :: 32 word) \<noteq> 0" by (simp add: word_of_int_eq_0_iff)
  with e show ?thesis by simp
qed

section \<open>The raw bit sequences in the output\<close>

subsection \<open>One sample per symbol\<close>

lemma edge_sample_phase_0: "edge_sample scale sp 0 u v = level_voltage scale v"
  by (simp add: edge_sample_def level_voltage_def Let_def)

lemma pattern_advances_unit:
  "0 < sp \<Longrightarrow>
   pattern_advances (real_of_int sp) sp (pattern_init (real_of_int sp)) (Suc n) = n"
proof (induction n)
  case 0
  then show ?case by (simp add: pattern_run_0 pattern_init_def)
next
  case (Suc n)
  have "phase_to_next_edge8 (pattern_run (real_of_int sp) sp (pattern_init (real_of_int sp)) (Suc n))
      = 0"
    using Suc by (simp add: phase_pattern_run pattern_init_def algebra_simps)
  with Suc show ?case by simp
qed

lemma prbs31_advances_unit:
  "0 < sp \<Longrightarrow>
   prbs31_advances (real_of_int sp) sp (prbs_init r (real_of_int sp)) (Suc n) = n"
proof (induction n)
  case 0
  then show ?case by (simp add: prbs31_run_0 prbs_init_def)
next
  case (Suc n)
  have "phase_to_next_edge (prbs31_run (real_of_int sp) sp (prbs_init r (real_of_int sp)) (Suc n))
      = 0"
    using Suc by (simp add: phase_prbs31_run prbs_init_def algebra_simps)
  with Suc show ?case by simp
qed

lemma nth_Generate8b10b_ideal_level:
  "k < depth \<Longrightarrow>
   m_samples (Generate8b10b_ideal amplitude period sp depth) ! k =
     edge_sample (amplitude / 2) sp
       (phase_to_next_edge8 (pattern_run period sp (pattern_init period) k))
       (pattern_level period sp k) (pattern_level period sp (Suc k))"
  by (simp only: nth_Generate8b10b_ideal value8_pattern_run pattern_level_def)

lemma nth_GeneratePRBS31_ideal_level:
  "k < depth \<Longrightarrow>
   m_samples (GeneratePRBS31_ideal r amplitude period sp depth) ! k =
     edge_sample (amplitude / 2) sp
       (phase_to_next_edge (prbs31_run period sp (prbs_init r period) k))
       (prbs31_level r period sp k) (prbs31_level r period sp (Suc k))"
proof -
  have v: "value' (prbs31_run period sp (prbs_init r period) n) = prbs31_level r period sp n"
    for n
    using value_prbs31_run [of period sp "prbs_init r period" n]
    by (simp add: prbs31_level_def prbs_init_def)
  assume "k < depth"
  then show ?thesis
    by (simp only: nth_GeneratePRBS31_ideal v)
qed

lemma nth_Generate8b10b_ideal_unit:
  assumes "0 < sp" "0 < k" "k < depth"
  shows "m_samples (Generate8b10b_ideal amplitude (real_of_int sp) sp depth) ! k
     = level_voltage (amplitude / 2) (pattern_bits (k - 1))"
proof -
  from assms(2) obtain j where k: "k = Suc j" by (cases k) auto
  have p: "phase_to_next_edge8
      (pattern_run (real_of_int sp) sp (pattern_init (real_of_int sp)) (Suc j)) = 0"
    using pattern_advances_unit [OF assms(1), of j]
    by (simp add: phase_pattern_run pattern_init_def algebra_simps)
  have l: "pattern_level (real_of_int sp) sp (Suc (Suc j)) = pattern_bits j"
    using pattern_advances_unit [OF assms(1), of "Suc j"]
    by (simp add: pattern_level_def)
  from nth_Generate8b10b_ideal_level [OF assms(3), of amplitude "real_of_int sp" sp]
  show ?thesis
    unfolding k p l edge_sample_phase_0 by simp
qed

lemma nth_GeneratePRBS31_ideal_unit:
  assumes "0 < sp" "0 < k" "k < depth"
  shows "m_samples (GeneratePRBS31_ideal r amplitude (real_of_int sp) sp depth) ! k
     = level_voltage (amplitude / 2) (prbs31_bits (word_of_int r) (k - 1))"
proof -
  from assms(2) obtain j where k: "k = Suc j" by (cases k) auto
  have p: "phase_to_next_edge
      (prbs31_run (real_of_int sp) sp (prbs_init r (real_of_int sp)) (Suc j)) = 0"
    using prbs31_advances_unit [OF assms(1), of r j]
    by (simp add: phase_prbs31_run prbs_init_def algebra_simps)
  have l: "prbs31_level r (real_of_int sp) sp (Suc (Suc j)) = prbs31_bits (word_of_int r) j"
    using prbs31_advances_unit [OF assms(1), of r "Suc j"]
    by (simp add: prbs31_level_def)
  from nth_GeneratePRBS31_ideal_level [OF assms(3), of r amplitude "real_of_int sp" sp]
  show ?thesis
    unfolding k p l edge_sample_phase_0 by simp
qed

subsection \<open>The fixed pattern\<close>

text \<open>
  C5. The raw bit sequence of the fixed-pattern generator is cyclic with period exactly 20:
  it repeats after 20 bits and after no smaller number of bits, and one cycle is the
  literal sequence 00111110101001000101. The generator puts this sequence out: without
  degradation and noise \<^verbatim>\<open>Generate8b10b\<close> returns the waveform of its loop, whose sample at
  every index is the sample of lines 268 to 282 for the levels before and after the
  iteration, and the level after any number of iterations is the bit of the last pattern
  advance. With one sample per symbol the sample at index \<open>k\<close>, from 1 on, is the voltage
  of bit \<open>k - 1\<close>, so that the output repeats after 20 samples.
\<close>

theorem pattern_cycle:
  "(\<forall>n. pattern_bits (n + 20) = pattern_bits n)
   \<and> (\<forall>d. 0 < d \<and> d < 20 \<longrightarrow> (\<exists>n. pattern_bits (n + d) \<noteq> pattern_bits n))
   \<and> map pattern_bits [0..<20] =
        [False, False, True, True, True, True, True, False, True, False,
         True, False, False, True, False, False, False, True, False, True]
   \<and> (\<forall>period sampleperiod n.
         value8 (pattern_run period sampleperiod (pattern_init period) n) =
           (if pattern_advances period sampleperiod (pattern_init period) n = 0 then False
            else pattern_bits (pattern_advances period sampleperiod (pattern_init period) n - 1)))
   \<and> map_sum id fst (Generate8b10b L e amplitude period sampleperiod depth False 0)
        = Inr (Generate8b10b_ideal amplitude period sampleperiod depth)
   \<and> length (m_samples (Generate8b10b_ideal amplitude period sampleperiod depth)) = depth
   \<and> (k < depth \<longrightarrow>
        m_samples (Generate8b10b_ideal amplitude period sampleperiod depth) ! k =
          edge_sample (amplitude / 2) sampleperiod
            (phase_to_next_edge8 (pattern_run period sampleperiod (pattern_init period) k))
            (pattern_level period sampleperiod k) (pattern_level period sampleperiod (Suc k)))
   \<and> (0 < sampleperiod \<and> 0 < k \<and> k < depth \<longrightarrow>
        m_samples (Generate8b10b_ideal amplitude (real_of_int sampleperiod) sampleperiod depth)
            ! k
          = level_voltage (amplitude / 2) (pattern_bits (k - 1)))
   \<and> (0 < sampleperiod \<and> 0 < k \<and> k + 20 < depth \<longrightarrow>
        m_samples (Generate8b10b_ideal amplitude (real_of_int sampleperiod) sampleperiod depth)
            ! (k + 20)
          = m_samples
              (Generate8b10b_ideal amplitude (real_of_int sampleperiod) sampleperiod depth)
            ! k)"
proof (intro conjI allI impI)
  fix n show "pattern_bits (n + 20) = pattern_bits n"
    by (simp add: pattern_bits_nth)
next
  fix d :: nat assume "0 < d \<and> d < 20"
  then have "d \<in> {1..<20}" by simp
  with pattern_no_shorter_period obtain n
    where n: "n < 20" "pattern ! ((n + d) mod 20) \<noteq> pattern ! n"
    by fastforce
  then have "pattern_bits (n + d) \<noteq> pattern_bits n"
    by (simp add: pattern_bits_nth)
  then show "\<exists>n. pattern_bits (n + d) \<noteq> pattern_bits n" ..
next
  have "map pattern_bits [0..<20] = map (\<lambda>n. pattern ! n) [0..<20]"
    by (rule map_cong) (simp_all add: pattern_bits_nth)
  also have "\<dots> = map (\<lambda>n. pattern ! n) [0..<length pattern]"
  proof -
    have "length pattern = 20" by (simp add: pattern_def)
    then show ?thesis by simp
  qed
  also have "\<dots> = pattern"
    by (rule map_nth)
  finally show "map pattern_bits [0..<20] =
        [False, False, True, True, True, True, True, False, True, False,
         True, False, False, True, False, False, False, True, False, True]"
    by (simp add: pattern_def)
next
  fix period sampleperiod n
  show "value8 (pattern_run period sampleperiod (pattern_init period) n) =
           (if pattern_advances period sampleperiod (pattern_init period) n = 0 then False
            else pattern_bits (pattern_advances period sampleperiod (pattern_init period) n - 1))"
    by (rule value8_pattern_run)
next
  show "map_sum id fst (Generate8b10b L e amplitude period sampleperiod depth False 0)
        = Inr (Generate8b10b_ideal amplitude period sampleperiod depth)"
    by (rule Generate8b10b_noiseless)
next
  show "length (m_samples (Generate8b10b_ideal amplitude period sampleperiod depth)) = depth"
    by (rule length_Generate8b10b_ideal)
next
  assume "k < depth"
  then show "m_samples (Generate8b10b_ideal amplitude period sampleperiod depth) ! k =
          edge_sample (amplitude / 2) sampleperiod
            (phase_to_next_edge8 (pattern_run period sampleperiod (pattern_init period) k))
            (pattern_level period sampleperiod k) (pattern_level period sampleperiod (Suc k))"
    by (rule nth_Generate8b10b_ideal_level)
next
  assume "0 < sampleperiod \<and> 0 < k \<and> k < depth"
  then show "m_samples
        (Generate8b10b_ideal amplitude (real_of_int sampleperiod) sampleperiod depth) ! k
      = level_voltage (amplitude / 2) (pattern_bits (k - 1))"
    by (simp add: nth_Generate8b10b_ideal_unit)
next
  assume h: "0 < sampleperiod \<and> 0 < k \<and> k + 20 < depth"
  then have "m_samples
        (Generate8b10b_ideal amplitude (real_of_int sampleperiod) sampleperiod depth) ! (k + 20)
      = level_voltage (amplitude / 2) (pattern_bits (k + 20 - 1))"
    by (intro nth_Generate8b10b_ideal_unit) simp_all
  moreover from h have "m_samples
        (Generate8b10b_ideal amplitude (real_of_int sampleperiod) sampleperiod depth) ! k
      = level_voltage (amplitude / 2) (pattern_bits (k - 1))"
    by (intro nth_Generate8b10b_ideal_unit) simp_all
  moreover have "pattern_bits (k + 20 - 1) = pattern_bits (k - 1)"
  proof -
    from h have "k + 20 - 1 = (k - 1) + 20" by simp
    then have "pattern_bits (k + 20 - 1) = pattern_bits ((k - 1) + 20)" by (rule arg_cong)
    also have "\<dots> = pattern_bits (k - 1)" by (simp add: pattern_bits_nth)
    finally show ?thesis .
  qed
  ultimately show "m_samples
        (Generate8b10b_ideal amplitude (real_of_int sampleperiod) sampleperiod depth) ! (k + 20)
      = m_samples
        (Generate8b10b_ideal amplitude (real_of_int sampleperiod) sampleperiod depth) ! k"
    by (simp only:)
qed

text \<open>
  The pattern does not repeat after 7 bits. At one sample per symbol and an amplitude of 2,
  the samples 3 and 23 are both the voltage of bit 2, which is 1.
\<close>

theorem pattern_cycle_witness:
  "(\<exists>n. pattern_bits (n + 7) \<noteq> pattern_bits n)
   \<and> m_samples (Generate8b10b_ideal 2 1 1 25) ! 3 = 1
   \<and> m_samples (Generate8b10b_ideal 2 1 1 25) ! 23 = m_samples (Generate8b10b_ideal 2 1 1 25) ! 3
   \<and> m_samples (Generate8b10b_ideal 2 1 1 25) ! 3 =
       edge_sample 1 1 (phase_to_next_edge8 (pattern_run 1 1 (pattern_init 1) 3))
         (pattern_level 1 1 3) (pattern_level 1 1 (Suc 3))"
proof -
  have d: "(0::nat) < 7 \<and> (7::nat) < 20" by simp
  have h: "(0::int) < 1 \<and> (0::nat) < 3 \<and> (3::nat) < 25" by simp
  have g: "(0::int) < 1 \<and> (0::nat) < 3 \<and> (3::nat) + 20 < 25" by simp
  have u: "(3::nat) < 25" by simp
  note p = pattern_cycle [where amplitude = 2 and sampleperiod = 1 and depth = 25 and k = 3
      and period = 1]
  from p d have a: "\<exists>n. pattern_bits (n + 7) \<noteq> pattern_bits n" by blast
  from p h have "m_samples (Generate8b10b_ideal 2 (real_of_int 1) 1 25) ! 3
      = level_voltage (2 / 2) (pattern_bits (3 - 1))"
    by blast
  then have b: "m_samples (Generate8b10b_ideal 2 1 1 25) ! 3 = 1"
    by (simp add: level_voltage_def pattern_bits_nth pattern_def)
  from p g have "m_samples (Generate8b10b_ideal 2 (real_of_int 1) 1 25) ! (3 + 20)
      = m_samples (Generate8b10b_ideal 2 (real_of_int 1) 1 25) ! 3"
    by blast
  then have c: "m_samples (Generate8b10b_ideal 2 1 1 25) ! 23
      = m_samples (Generate8b10b_ideal 2 1 1 25) ! 3"
    by simp
  from p u have "m_samples (Generate8b10b_ideal 2 1 1 25) ! 3 =
       edge_sample (2 / 2) 1 (phase_to_next_edge8 (pattern_run 1 1 (pattern_init 1) 3))
         (pattern_level 1 1 3) (pattern_level 1 1 (Suc 3))"
    by blast
  then have e: "m_samples (Generate8b10b_ideal 2 1 1 25) ! 3 =
       edge_sample 1 1 (phase_to_next_edge8 (pattern_run 1 1 (pattern_init 1) 3))
         (pattern_level 1 1 3) (pattern_level 1 1 (Suc 3))"
    by simp
  from a b c e show ?thesis by blast
qed

subsection \<open>PRBS31\<close>

text \<open>
  C4. The PRBS31 generator shifts the register left by one and puts into bit 0 the XOR of
  bits 30 and 27 of the register before the shift; that bit is the new level. The bits it
  produces from a register whose 31 low bits are not all zero, as they are for every value
  from 1 to \<open>2 ^ 31 - 1\<close> that \<^verbatim>\<open>rand()\<close> returns, repeat after \<open>2 ^ 31 - 1 = 2147483647\<close> bits
  and after no smaller number of bits. The generator puts this sequence out: without
  degradation and noise \<^verbatim>\<open>GeneratePRBS31\<close> returns the waveform of its loop, whose sample at
  every index is the sample of lines 204 to 218 for the levels before and after the
  iteration, and the level after any number of iterations is the bit of the last pattern
  advance. With one sample per symbol the sample at index \<open>k\<close>, from 1 on, is the voltage
  of bit \<open>k - 1\<close>, so that the output repeats after \<open>2 ^ 31 - 1\<close> samples.
\<close>

theorem prbs31_period:
  "bit (prbs31_shift reg) 0 = (bit reg 30 \<noteq> bit reg 27)
   \<and> (\<forall>n<31. bit (prbs31_shift reg) (Suc n) = bit reg n)
   \<and> (prbs31_next reg \<noteq> 0) = (bit reg 30 \<noteq> bit reg 27)
   \<and> (2147483647::nat) = 2 ^ 31 - 1
   \<and> (take_bit 31 seed \<noteq> 0 \<longrightarrow>
         (\<forall>n. prbs31_bits seed (n + 2147483647) = prbs31_bits seed n)
         \<and> (\<forall>k. 0 < k \<and> k < 2147483647 \<longrightarrow>
               (\<exists>n. prbs31_bits seed (n + k) \<noteq> prbs31_bits seed n)))
   \<and> (0 < rand_value \<and> rand_value < 2 ^ 31 \<longrightarrow>
         take_bit 31 (word_of_int rand_value :: 32 word) \<noteq> 0)
   \<and> value' (prbs31_run period sampleperiod (prbs_init rand_value period) n) =
        (if prbs31_advances period sampleperiod (prbs_init rand_value period) n = 0 then False
         else prbs31_bits (word_of_int rand_value)
                (prbs31_advances period sampleperiod (prbs_init rand_value period) n - 1))
   \<and> map_sum id fst
          (GeneratePRBS31 L e rand_value amplitude period sampleperiod depth False 0)
        = Inr (GeneratePRBS31_ideal rand_value amplitude period sampleperiod depth)
   \<and> length (m_samples (GeneratePRBS31_ideal rand_value amplitude period sampleperiod depth))
        = depth
   \<and> (k < depth \<longrightarrow>
        m_samples (GeneratePRBS31_ideal rand_value amplitude period sampleperiod depth) ! k =
          edge_sample (amplitude / 2) sampleperiod
            (phase_to_next_edge (prbs31_run period sampleperiod (prbs_init rand_value period) k))
            (prbs31_level rand_value period sampleperiod k)
            (prbs31_level rand_value period sampleperiod (Suc k)))
   \<and> (0 < sampleperiod \<and> 0 < k \<and> k < depth \<longrightarrow>
        m_samples (GeneratePRBS31_ideal rand_value amplitude (real_of_int sampleperiod)
            sampleperiod depth) ! k
          = level_voltage (amplitude / 2) (prbs31_bits (word_of_int rand_value) (k - 1)))
   \<and> (0 < sampleperiod \<and> 0 < k \<and> k + 2147483647 < depth \<longrightarrow>
        m_samples (GeneratePRBS31_ideal rand_value amplitude (real_of_int sampleperiod)
            sampleperiod depth) ! (k + 2147483647)
          = m_samples (GeneratePRBS31_ideal rand_value amplitude (real_of_int sampleperiod)
              sampleperiod depth) ! k)"
proof (intro conjI impI allI)
  show "bit (prbs31_shift reg) 0 = (bit reg 30 \<noteq> bit reg 27)"
    by (rule bit_prbs31_shift_0)
  show "bit (prbs31_shift reg) (Suc n) = bit reg n" if "n < 31" for n
    using that by (simp only: bit_prbs31_shift_Suc simp_thms)
  show "(prbs31_next reg \<noteq> 0) = (bit reg 30 \<noteq> bit reg 27)"
    by (rule prbs31_next_ne_0)
  show "(2147483647::nat) = 2 ^ 31 - 1" by simp
  show "prbs31_bits seed (n + 2147483647) = prbs31_bits seed n" for n
    using prbs31_bits_periodic [of seed n] unfolding mersenne31_def .
  show "\<exists>n. prbs31_bits seed (n + k) \<noteq> prbs31_bits seed n"
    if "take_bit 31 seed \<noteq> 0" "0 < k \<and> k < 2147483647" for k
    using that by (intro prbs31_bits_no_shorter_period) (simp_all add: mersenne31_def)
  show "take_bit 31 (word_of_int rand_value :: 32 word) \<noteq> 0"
    if "0 < rand_value \<and> rand_value < 2 ^ 31"
    using that by (intro take_bit_31_rand) simp_all
  show "value' (prbs31_run period sampleperiod (prbs_init rand_value period) n) =
        (if prbs31_advances period sampleperiod (prbs_init rand_value period) n = 0 then False
         else prbs31_bits (word_of_int rand_value)
                (prbs31_advances period sampleperiod (prbs_init rand_value period) n - 1))"
    using value_prbs31_run [of period sampleperiod "prbs_init rand_value period" n]
    by (simp add: prbs_init_def)
  show "map_sum id fst
          (GeneratePRBS31 L e rand_value amplitude period sampleperiod depth False 0)
        = Inr (GeneratePRBS31_ideal rand_value amplitude period sampleperiod depth)"
    by (rule GeneratePRBS31_noiseless)
  show "length (m_samples (GeneratePRBS31_ideal rand_value amplitude period sampleperiod depth))
        = depth"
    by (rule length_GeneratePRBS31_ideal)
  show "m_samples (GeneratePRBS31_ideal rand_value amplitude period sampleperiod depth) ! k =
          edge_sample (amplitude / 2) sampleperiod
            (phase_to_next_edge (prbs31_run period sampleperiod (prbs_init rand_value period) k))
            (prbs31_level rand_value period sampleperiod k)
            (prbs31_level rand_value period sampleperiod (Suc k))"
    if "k < depth"
    using that by (rule nth_GeneratePRBS31_ideal_level)
  show "m_samples (GeneratePRBS31_ideal rand_value amplitude (real_of_int sampleperiod)
            sampleperiod depth) ! k
          = level_voltage (amplitude / 2) (prbs31_bits (word_of_int rand_value) (k - 1))"
    if "0 < sampleperiod \<and> 0 < k \<and> k < depth"
    using that by (simp add: nth_GeneratePRBS31_ideal_unit)
  show "m_samples (GeneratePRBS31_ideal rand_value amplitude (real_of_int sampleperiod)
            sampleperiod depth) ! (k + 2147483647)
          = m_samples (GeneratePRBS31_ideal rand_value amplitude (real_of_int sampleperiod)
              sampleperiod depth) ! k"
    if h: "0 < sampleperiod \<and> 0 < k \<and> k + 2147483647 < depth"
  proof -
    from h have "m_samples (GeneratePRBS31_ideal rand_value amplitude (real_of_int sampleperiod)
            sampleperiod depth) ! (k + 2147483647)
        = level_voltage (amplitude / 2)
            (prbs31_bits (word_of_int rand_value) (k + 2147483647 - 1))"
      by (intro nth_GeneratePRBS31_ideal_unit) simp_all
    moreover from h have "m_samples (GeneratePRBS31_ideal rand_value amplitude
            (real_of_int sampleperiod) sampleperiod depth) ! k
        = level_voltage (amplitude / 2) (prbs31_bits (word_of_int rand_value) (k - 1))"
      by (intro nth_GeneratePRBS31_ideal_unit) simp_all
    moreover have "prbs31_bits (word_of_int rand_value) (k + 2147483647 - 1)
        = prbs31_bits (word_of_int rand_value) (k - 1)"
    proof -
      from h have "k + 2147483647 - 1 = (k - 1) + 2147483647" by simp
      then have "prbs31_bits (word_of_int rand_value) (k + 2147483647 - 1)
          = prbs31_bits (word_of_int rand_value) ((k - 1) + 2147483647)"
        by (rule arg_cong)
      also have "\<dots> = prbs31_bits (word_of_int rand_value) (k - 1)"
        using prbs31_bits_periodic [of "word_of_int rand_value" "k - 1"]
        unfolding mersenne31_def .
      finally show ?thesis .
    qed
    ultimately show ?thesis by (simp only:)
  qed
qed

text \<open>
  The register 1: the bits repeat after \<open>2 ^ 31 - 1\<close> bits and not after 5; and the value
  12345 of \<^verbatim>\<open>rand()\<close> is a register that is not zero. With \<open>2 ^ 30\<close> from \<^verbatim>\<open>rand()\<close>, one
  sample per symbol and an amplitude of 2, sample 1 is the voltage of bit 0, which is 1.
\<close>

theorem prbs31_period_witness:
  "prbs31_bits 1 (0 + 2147483647) = prbs31_bits 1 0
   \<and> (\<exists>n. prbs31_bits 1 (n + 5) \<noteq> prbs31_bits 1 n)
   \<and> take_bit 31 (word_of_int 12345 :: 32 word) \<noteq> 0
   \<and> bit (prbs31_shift 1) (Suc 0) = bit (1 :: 32 word) 0
   \<and> m_samples (GeneratePRBS31_ideal 1073741824 2 1 1 10) ! 1 = 1
   \<and> m_samples (GeneratePRBS31_ideal 1073741824 2 1 1 10) ! 1 =
       edge_sample 1 1
         (phase_to_next_edge (prbs31_run 1 1 (prbs_init 1073741824 1) 1))
         (prbs31_level 1073741824 1 1 1) (prbs31_level 1073741824 1 1 (Suc 1))"
proof -
  have h: "take_bit 31 (1 :: 32 word) \<noteq> 0" by simp
  have k: "(0::nat) < 5 \<and> (5::nat) < 2147483647" by simp
  have r: "(0::int) < 12345 \<and> (12345::int) < 2 ^ 31" by simp
  have n: "(0::nat) < 31" by simp
  note p = prbs31_period [where seed = 1 and rand_value = 12345 and reg = 1]
  note p2 = p [THEN conjunct2, THEN conjunct1]
  note p5 = p [THEN conjunct2, THEN conjunct2, THEN conjunct2, THEN conjunct2, THEN conjunct1]
  note p6 = p [THEN conjunct2, THEN conjunct2, THEN conjunct2, THEN conjunct2, THEN conjunct2,
      THEN conjunct1]
  from p5 h have x: "(\<forall>n. prbs31_bits 1 (n + 2147483647) = prbs31_bits 1 n)
      \<and> (\<forall>k. 0 < k \<and> k < 2147483647 \<longrightarrow> (\<exists>n. prbs31_bits 1 (n + k) \<noteq> prbs31_bits 1 n))"
    by (rule mp)
  from x have a: "prbs31_bits 1 (0 + 2147483647) = prbs31_bits 1 0" by blast
  from x k have b: "\<exists>n. prbs31_bits 1 (n + 5) \<noteq> prbs31_bits 1 n" by blast
  from p6 r have c: "take_bit 31 (word_of_int 12345 :: 32 word) \<noteq> 0" by (rule mp)
  from p2 n have d: "bit (prbs31_shift 1) (Suc 0) = bit (1 :: 32 word) 0" by blast
  have u: "(0::int) < 1 \<and> (0::nat) < 1 \<and> (1::nat) < 10" by simp
  have v: "(1::nat) < 10" by simp
  note q = prbs31_period [where rand_value = 1073741824 and amplitude = 2
      and sampleperiod = 1 and depth = 10 and k = 1 and period = 1]
  note q7 = q [THEN conjunct2, THEN conjunct2, THEN conjunct2, THEN conjunct2, THEN conjunct2,
      THEN conjunct2, THEN conjunct2, THEN conjunct2, THEN conjunct2]
  note q10 = q7 [THEN conjunct1]
  note q11 = q7 [THEN conjunct2, THEN conjunct1]
  from q11 u have s: "m_samples (GeneratePRBS31_ideal 1073741824 2 (real_of_int 1) 1 10) ! 1
      = level_voltage (2 / 2) (prbs31_bits (word_of_int 1073741824) (1 - 1))"
    by (rule mp)
  have "prbs31_next (1073741824 :: 32 word) \<noteq> 0"
    by (simp add: prbs31_next_def)
  then have "prbs31_bits (word_of_int 1073741824) 0"
    by (simp add: prbs31_bits_def)
  then have l: "level_voltage (2 / 2) (prbs31_bits (word_of_int 1073741824) (1 - 1)) = 1"
    by (simp add: level_voltage_def)
  have o: "real_of_int 1 = 1" by simp
  from s have f: "m_samples (GeneratePRBS31_ideal 1073741824 2 1 1 10) ! 1 = 1"
    unfolding l o .
  from q10 v have "m_samples (GeneratePRBS31_ideal 1073741824 2 1 1 10) ! 1 =
       edge_sample (2 / 2) 1
         (phase_to_next_edge (prbs31_run 1 1 (prbs_init 1073741824 1) 1))
         (prbs31_level 1073741824 1 1 1) (prbs31_level 1073741824 1 1 (Suc 1))"
    by (rule mp)
  moreover have "(2::real) / 2 = 1" by simp
  ultimately have g: "m_samples (GeneratePRBS31_ideal 1073741824 2 1 1 10) ! 1 =
       edge_sample 1 1
         (phase_to_next_edge (prbs31_run 1 1 (prbs_init 1073741824 1) 1))
         (prbs31_level 1073741824 1 1 1) (prbs31_level 1073741824 1 1 (Suc 1))"
    by (simp only:)
  from a b c d f g show ?thesis by (intro conjI)
qed

end
